(* ===== verification/Prelude.thy ===== *)
theory Prelude
  imports Main "HOL-Library.AList"
begin

text \<open>
  Prelude of the development: how the values of the Python program are represented, and the
  generic facts the components share.

  \<^item> \<open>bytes\<close> and \<open>str\<close> are both lists of 8-bit characters.  A Python \<open>str\<close> is modelled up to
    code point 255, which is what the proxy itself produces (it decodes headers and query
    strings as latin-1).
  \<^item> A \<open>dict\<close> with string keys is an association list in insertion order; \<open>d[k] = v\<close> is
    \<open>AList.update\<close> (in place when the key exists, at the end otherwise) and \<open>d.get(k)\<close> is
    \<open>map_of\<close>.
  \<^item> A computation that can raise returns \<open>'e + 'a\<close>, \<open>Inl\<close> carrying the exception.

  The collections \<open>dict_simps\<close> and \<open>py_defs\<close> gather the rewriting rules on dictionaries and
  on the helpers below that the component proofs hand to the simplifier.
\<close>

named_theorems dict_simps \<open>rewriting on association-list dictionaries\<close>
named_theorems py_defs \<open>definitions of the Python-level helpers\<close>

type_synonym bytes = "char list"

section \<open>Python values and dictionaries\<close>

datatype pyval =
    VNone
  | VBool bool
  | VInt int
  | VStr string
  | VBytes bytes
  | VTime int \<comment> \<open>a datetime, by its clock reading\<close>
  | VStreamBody bytes \<comment> \<open>a streaming body of an S3 response, by the bytes it will deliver\<close>
  | VList "pyval list"
  | VDict "(string \<times> pyval) list"

type_synonym pdict = "(string \<times> pyval) list"

definition has_key :: "(string \<times> 'v) list \<Rightarrow> string \<Rightarrow> bool" where
  "has_key d k \<longleftrightarrow> map_of d k \<noteq> None"

definition get_default :: "(string \<times> 'v) list \<Rightarrow> string \<Rightarrow> 'v \<Rightarrow> 'v" where
  "get_default d k v = (case map_of d k of None \<Rightarrow> v | Some x \<Rightarrow> x)"

text \<open>Python's truth value of an object.\<close>

fun truthy :: "pyval \<Rightarrow> bool" where
  "truthy VNone = False"
| "truthy (VBool b) = b"
| "truthy (VInt i) = (i \<noteq> 0)"
| "truthy (VStr s) = (s \<noteq> [])"
| "truthy (VBytes b) = (b \<noteq> [])"
| "truthy (VTime t) = True"
| "truthy (VStreamBody b) = True"
| "truthy (VList xs) = (xs \<noteq> [])"
| "truthy (VDict d) = (d \<noteq> [])"

text \<open>Truth value of an optional string: both \<open>None\<close> and the empty string are false.\<close>

definition truthy_str :: "string option \<Rightarrow> bool" where
  "truthy_str s \<longleftrightarrow> (case s of None \<Rightarrow> False | Some t \<Rightarrow> t \<noteq> [])"

fun as_list :: "pyval \<Rightarrow> pyval list" where
  "as_list (VList xs) = xs"
| "as_list v = []"

fun as_dict :: "pyval \<Rightarrow> pdict" where
  "as_dict (VDict d) = d"
| "as_dict v = []"

fun as_str :: "pyval \<Rightarrow> string option" where
  "as_str (VStr s) = Some s"
| "as_str v = None"

declare has_key_def [py_defs] get_default_def [py_defs] truthy_str_def [py_defs]

lemma has_key_update [dict_simps, simp]:
  "has_key (AList.update k v d) k' \<longleftrightarrow> k' = k \<or> has_key d k'"
  by (auto simp: has_key_def update_conv)

lemma map_of_update [dict_simps, simp]:
  "map_of (AList.update k v d) k' = (if k' = k then Some v else map_of d k')"
  by (simp add: update_conv)

lemma get_default_update [dict_simps, simp]:
  "get_default (AList.update k v d) k' w = (if k' = k then v else get_default d k' w)"
  by (simp add: get_default_def)

lemma has_key_iff_set: "has_key d k \<longleftrightarrow> k \<in> fst ` set d"
  by (auto simp: has_key_def map_of_eq_None_iff)

lemma truthy_str_Some [simp]: "truthy_str (Some s) \<longleftrightarrow> s \<noteq> []"
  by (simp add: truthy_str_def)

lemma truthy_str_None [simp]: "\<not> truthy_str None"
  by (simp add: truthy_str_def)

section \<open>Results and list facts\<close>

text \<open>Sequencing of computations that can raise.\<close>

fun ebind :: "'e + 'a \<Rightarrow> ('a \<Rightarrow> 'e + 'b) \<Rightarrow> 'e + 'b" where
  "ebind (Inl e) f = Inl e"
| "ebind (Inr x) f = f x"

lemma ebind_Inr_iff: "ebind m f = Inr y \<longleftrightarrow> (\<exists>x. m = Inr x \<and> f x = Inr y)"
  by (cases m) auto

lemma ebind_Inl_iff: "ebind m f = Inl e \<longleftrightarrow> m = Inl e \<or> (\<exists>x. m = Inr x \<and> f x = Inl e)"
  by (cases m) auto

text \<open>A Python slice \<open>xs[:i]\<close> and the deletion \<open>del xs[:i]\<close>, negative indices included.\<close>

definition slice_end :: "'a list \<Rightarrow> int \<Rightarrow> nat" where
  "slice_end xs i = (if i < 0 then nat (int (length xs) + i) else nat i)"

definition slice_to :: "'a list \<Rightarrow> int \<Rightarrow> 'a list" where
  "slice_to xs i = take (slice_end xs i) xs"

definition del_to :: "'a list \<Rightarrow> int \<Rightarrow> 'a list" where
  "del_to xs i = drop (slice_end xs i) xs"

lemma slice_to_nat [simp]: "slice_to xs (int n) = take n xs"
  by (simp add: slice_to_def slice_end_def)

lemma del_to_nat [simp]: "del_to xs (int n) = drop n xs"
  by (simp add: del_to_def slice_end_def)

lemma slice_to_del_to [simp]: "slice_to xs i @ del_to xs i = xs"
  by (simp add: slice_to_def del_to_def)

text \<open>Reading \<open>n\<close> bytes at position \<open>p\<close> of a buffer, and what is left afterwards.\<close>

lemma take_drop_rest: "take n xs @ drop (length (take n xs)) xs = xs"
  by (cases "n \<le> length xs") simp_all

lemma take_drop_progress:
  assumes "0 < n"
  shows "take n (drop p d) @ drop (p + length (take n (drop p d))) d = drop p d"
    and "take n (drop p d) = [] \<Longrightarrow> drop p d = []"
proof -
  have "drop (p + k) d = drop k (drop p d)" for k by (simp add: add.commute)
  then show "take n (drop p d) @ drop (p + length (take n (drop p d))) d = drop p d"
    by (metis take_drop_rest)
  show "take n (drop p d) = [] \<Longrightarrow> drop p d = []" using assms by simp
qed

text \<open>\<open>str.join\<close>.\<close>

fun join :: "string \<Rightarrow> string list \<Rightarrow> string" where
  "join sep [] = []"
| "join sep [x] = x"
| "join sep (x # y # xs) = x @ sep @ join sep (y # xs)"

text \<open>\<open>dict(pairs)\<close>: a later pair replaces an earlier one of the same key.\<close>

definition py_dict :: "('k \<times> 'v) list \<Rightarrow> ('k \<times> 'v) list" where
  "py_dict ps = fold (\<lambda>(k, v) d. AList.update k v d) ps []"

lemma update_new: "k \<notin> fst ` set d \<Longrightarrow> AList.update k v d = d @ [(k, v)]"
  by (induction d) auto

lemma py_dict_distinct: "distinct (map fst ps) \<Longrightarrow> py_dict ps = ps"
proof -
  have "distinct (map fst (d @ ps)) \<Longrightarrow> fold (\<lambda>(k, v) d. AList.update k v d) ps d = d @ ps" for d
    by (induction ps arbitrary: d) (auto simp: update_new)
  from this [of "[]"] show "distinct (map fst ps) \<Longrightarrow> py_dict ps = ps" by (simp add: py_dict_def)
qed

lemma distinct_py_dict [simp]: "distinct (map fst (py_dict ps))"
proof -
  have "distinct (map fst d) \<Longrightarrow> distinct (map fst (fold (\<lambda>(k, v) d. AList.update k v d) ps d))" for d
    by (induction ps arbitrary: d) (auto simp: distinct_update)
  from this [of "[]"] show ?thesis by (simp add: py_dict_def)
qed

lemma filter_key_distinct:
  "distinct (map f xs) \<Longrightarrow> distinct (map f (filter P xs))"
  by (induction xs) auto

lemma find_SomeD: "List.find P xs = Some x \<Longrightarrow> x \<in> set xs \<and> P x"
  by (auto simp: find_Some_iff)

lemma filter_all_length: "length xs \<le> length (filter P xs) \<Longrightarrow> x \<in> set xs \<Longrightarrow> P x"
  using length_filter_less [of x xs P] by (auto simp: not_le [symmetric])

end
