(* ===== verification/Operations.thy ===== *)
theory Operations
  imports Prelude
begin

text \<open>
  The enumeration of S3 operations (\<open>src/s3mer/routing/operations.py\<close>): the constructors of
  \<open>S3Operation\<close>, their wire names (\<open>.value\<close>) and the lookup by value \<open>S3Operation(name)\<close>,
  which the replication worker uses on the operation names it reads from Kafka.
\<close>

datatype S3Operation =
    CREATE_BUCKET | DELETE_BUCKET | HEAD_BUCKET | LIST_BUCKETS | DELETE_OBJECTS | LIST_OBJECTS
  | GET_BUCKET_LIFECYCLE | PUT_BUCKET_LIFECYCLE | DELETE_BUCKET_LIFECYCLE
  | GET_BUCKET_POLICY | PUT_BUCKET_POLICY | DELETE_BUCKET_POLICY
  | PUT_OBJECT | GET_OBJECT | DELETE_OBJECT | HEAD_OBJECT | POST_OBJECT | COPY_OBJECT
  | PUT_OBJECT_TAGGING | GET_OBJECT_TAGGING | DELETE_OBJECT_TAGGING
  | CREATE_MULTIPART_UPLOAD | UPLOAD_PART | COMPLETE_MULTIPART_UPLOAD | ABORT_MULTIPART_UPLOAD
  | LIST_OBJECTS_V2

fun op_value :: "S3Operation \<Rightarrow> string" where
  "op_value CREATE_BUCKET = ''create_bucket''"
| "op_value DELETE_BUCKET = ''delete_bucket''"
| "op_value HEAD_BUCKET = ''head_bucket''"
| "op_value LIST_BUCKETS = ''list_buckets''"
| "op_value DELETE_OBJECTS = ''delete_objects''"
| "op_value LIST_OBJECTS = ''list_objects''"
| "op_value GET_BUCKET_LIFECYCLE = ''get_bucket_lifecycle_configuration''"
| "op_value PUT_BUCKET_LIFECYCLE = ''put_bucket_lifecycle_configuration''"
| "op_value DELETE_BUCKET_LIFECYCLE = ''delete_bucket_lifecycle''"
| "op_value GET_BUCKET_POLICY = ''get_bucket_policy''"
| "op_value PUT_BUCKET_POLICY = ''put_bucket_policy''"
| "op_value DELETE_BUCKET_POLICY = ''delete_bucket_policy''"
| "op_value PUT_OBJECT = ''put_object''"
| "op_value GET_OBJECT = ''get_object''"
| "op_value DELETE_OBJECT = ''delete_object''"
| "op_value HEAD_OBJECT = ''head_object''"
| "op_value POST_OBJECT = ''post_object''"
| "op_value COPY_OBJECT = ''copy_object''"
| "op_value PUT_OBJECT_TAGGING = ''put_object_tagging''"
| "op_value GET_OBJECT_TAGGING = ''get_object_tagging''"
| "op_value DELETE_OBJECT_TAGGING = ''delete_object_tagging''"
| "op_value CREATE_MULTIPART_UPLOAD = ''create_multipart_upload''"
| "op_value UPLOAD_PART = ''upload_part''"
| "op_value COMPLETE_MULTIPART_UPLOAD = ''complete_multipart_upload''"
| "op_value ABORT_MULTIPART_UPLOAD = ''abort_multipart_upload''"
| "op_value LIST_OBJECTS_V2 = ''list_objects_v2''"

text \<open>The members of the enumeration, in declaration order.\<close>

definition all_operations :: "S3Operation list" where
  "all_operations =
     [CREATE_BUCKET, DELETE_BUCKET, HEAD_BUCKET, LIST_BUCKETS, DELETE_OBJECTS, LIST_OBJECTS,
      GET_BUCKET_LIFECYCLE, PUT_BUCKET_LIFECYCLE, DELETE_BUCKET_LIFECYCLE,
      GET_BUCKET_POLICY, PUT_BUCKET_POLICY, DELETE_BUCKET_POLICY,
      PUT_OBJECT, GET_OBJECT, DELETE_OBJECT, HEAD_OBJECT, POST_OBJECT, COPY_OBJECT,
      PUT_OBJECT_TAGGING, GET_OBJECT_TAGGING, DELETE_OBJECT_TAGGING,
      CREATE_MULTIPART_UPLOAD, UPLOAD_PART, COMPLETE_MULTIPART_UPLOAD, ABORT_MULTIPART_UPLOAD,
      LIST_OBJECTS_V2]"

text \<open>\<open>S3Operation(name)\<close>: the member with that value, \<open>None\<close> where Python raises \<open>ValueError\<close>.\<close>

definition op_of_value :: "string \<Rightarrow> S3Operation option" where
  "op_of_value v = List.find (\<lambda>op. op_value op = v) all_operations"

lemma all_operations_complete: "op \<in> set all_operations"
  by (cases op) (simp_all add: all_operations_def)

lemma distinct_op_values: "distinct (map op_value all_operations)"
  by (simp add: all_operations_def)

lemma op_value_inj: "inj op_value"
proof (rule injI)
  fix x y assume "op_value x = op_value y"
  with distinct_op_values all_operations_complete show "x = y"
    by (auto simp: distinct_map dest: inj_onD)
qed

lemma op_value_eq_iff [simp]: "op_value x = op_value y \<longleftrightarrow> x = y"
  using op_value_inj by (auto dest: injD)

lemma op_of_value_Some_iff: "op_of_value v = Some op \<longleftrightarrow> v = op_value op"
proof
  assume "op_of_value v = Some op"
  then show "v = op_value op" by (auto simp: op_of_value_def find_Some_iff)
next
  assume v: "v = op_value op"
  then obtain op' where "op_of_value v = Some op'"
    using all_operations_complete [of op]
    by (cases "op_of_value v") (auto simp: op_of_value_def find_None_iff)
  with v show "op_of_value v = Some op"
    by (auto simp: op_of_value_def find_Some_iff)
qed

lemma op_of_value_roundtrip [simp]: "op_of_value (op_value op) = Some op"
  by (simp add: op_of_value_Some_iff)

end
