(* ===== verification/Errors.thy ===== *)
theory Errors
  imports Operations
begin

text \<open>
  Exceptions and their classification: \<open>src/s3mer/common/error_registry.py\<close> (the declarative
  rules and their first-match lookup) and \<open>src/s3mer/common/errors.py\<close> (\<open>S3ErrorCode\<close>, the
  S3 error responses and \<open>ErrorClassifier\<close>).

  An exception is a value of \<open>pyexc\<close>.  A botocore \<open>ClientError\<close> carries its \<open>str()\<close> and the
  three fields of its \<open>response\<close> dictionary the code reads; \<open>None\<close> in place of the record is a
  response that is not a dictionary.  \<open>isinstance_exc\<close> is the class test, following the class
  hierarchy of Python and of the two client libraries (\<open>ConnectionError\<close> and \<open>TimeoutError\<close> are
  subclasses of \<open>OSError\<close>, \<open>KafkaConnectionError\<close> of \<open>KafkaError\<close>).
\<close>

section \<open>Error codes and exceptions\<close>

record S3ErrorCode =
  code :: string
  http_status :: int
  message :: string

record err_response =
  resp_code :: "string option" \<comment> \<open>\<open>response["Error"]["Code"]\<close>\<close>
  resp_message :: "string option" \<comment> \<open>\<open>response["Error"]["Message"]\<close>\<close>
  resp_status :: "int option" \<comment> \<open>\<open>response["ResponseMetadata"]["HTTPStatusCode"]\<close>\<close>

datatype pyexc =
    ClientError string "err_response option"
  | BotoCoreError string
  | AiohttpClientError string
  | PyTimeoutError string
  | PyConnectionError string
  | PyOSError string
  | KafkaError string
  | KafkaConnectionError string
  | PyRuntimeError string
  | PyValueError string
  | PyKeyError string
  | PyAttributeError string
  | PyTypeError string
  | OperationNotSupportedError string S3ErrorCode "string option"
  | OtherException string string

datatype exc_class =
    CClientError | CBotoCoreError | CAiohttpClientError | CTimeoutError | CConnectionError
  | COSError | CKafkaError | CKafkaConnectionError | COperationNotSupported

fun isinstance_exc :: "pyexc \<Rightarrow> exc_class \<Rightarrow> bool" where
  "isinstance_exc (ClientError m r) c = (c = CClientError)"
| "isinstance_exc (BotoCoreError m) c = (c = CBotoCoreError)"
| "isinstance_exc (AiohttpClientError m) c = (c = CAiohttpClientError)"
| "isinstance_exc (PyTimeoutError m) c = (c = CTimeoutError \<or> c = COSError)"
| "isinstance_exc (PyConnectionError m) c = (c = CConnectionError \<or> c = COSError)"
| "isinstance_exc (PyOSError m) c = (c = COSError)"
| "isinstance_exc (KafkaError m) c = (c = CKafkaError)"
| "isinstance_exc (KafkaConnectionError m) c = (c = CKafkaConnectionError \<or> c = CKafkaError)"
| "isinstance_exc (OperationNotSupportedError m e r) c = (c = COperationNotSupported)"
| "isinstance_exc _ c = False"

fun exc_str :: "pyexc \<Rightarrow> string" where
  "exc_str (ClientError m r) = m"
| "exc_str (BotoCoreError m) = m"
| "exc_str (AiohttpClientError m) = m"
| "exc_str (PyTimeoutError m) = m"
| "exc_str (PyConnectionError m) = m"
| "exc_str (PyOSError m) = m"
| "exc_str (KafkaError m) = m"
| "exc_str (KafkaConnectionError m) = m"
| "exc_str (PyRuntimeError m) = m"
| "exc_str (PyValueError m) = m"
| "exc_str (PyKeyError m) = m"
| "exc_str (PyAttributeError m) = m"
| "exc_str (PyTypeError m) = m"
| "exc_str (OperationNotSupportedError m e r) = m"
| "exc_str (OtherException c m) = m"

text \<open>\<open>getattr(exc, "response", None)\<close> when it is a dictionary.\<close>

fun exc_response :: "pyexc \<Rightarrow> err_response option" where
  "exc_response (ClientError m r) = r"
| "exc_response _ = None"

text \<open>\<open>e.response.get("Error", {}).get("Code")\<close>, as the replication worker reads it.\<close>

definition client_error_code :: "pyexc \<Rightarrow> string option" where
  "client_error_code e = (case exc_response e of None \<Rightarrow> None | Some r \<Rightarrow> resp_code r)"

definition status_of :: "err_response \<Rightarrow> int" where
  "status_of r = (case resp_status r of None \<Rightarrow> 0 | Some s \<Rightarrow> s)"

definition code_of :: "err_response \<Rightarrow> string" where
  "code_of r = (case resp_code r of None \<Rightarrow> [] | Some c \<Rightarrow> c)"

section \<open>The rule registry (error\_registry.py)\<close>

datatype ErrorAction = RETRY | FALLBACK | FAIL

record ErrorRule =
  action :: ErrorAction
  codes :: "string list"
  status_codes :: "int list"
  status_range :: "(int \<times> int) option"
  exception_types :: "exc_class list"
  predicate :: "(pyexc \<Rightarrow> bool) option"

definition HTTP_CLIENT_ERROR_MIN :: int where "HTTP_CLIENT_ERROR_MIN = 400"
definition HTTP_SERVER_ERROR_MIN :: int where "HTTP_SERVER_ERROR_MIN = 500"

definition rule_matches :: "ErrorRule \<Rightarrow> pyexc \<Rightarrow> bool" where
  "rule_matches rule exc =
     (if (case predicate rule of None \<Rightarrow> False | Some p \<Rightarrow> p exc) then True
      else if exception_types rule \<noteq> [] \<and> list_ex (isinstance_exc exc) (exception_types rule) then True
      else (case exc_response exc of
          None \<Rightarrow> False
        | Some r \<Rightarrow>
            (let status_code = status_of r; error_code = code_of r in
             if codes rule \<noteq> [] \<and> error_code \<in> set (codes rule) then True
             else if status_codes rule \<noteq> [] \<and> status_code \<in> set (status_codes rule) then True
             else (case status_range rule of
                 None \<Rightarrow> False
               | Some (low, high) \<Rightarrow> low \<le> status_code \<and> status_code < high))))"

definition client_error_4xx :: "pyexc \<Rightarrow> bool" where
  "client_error_4xx exc =
     (case exc_response exc of
        None \<Rightarrow> False
      | Some r \<Rightarrow> HTTP_CLIENT_ERROR_MIN \<le> status_of r \<and> status_of r < HTTP_SERVER_ERROR_MIN)"

definition client_error_5xx :: "pyexc \<Rightarrow> bool" where
  "client_error_5xx exc =
     (case exc_response exc of None \<Rightarrow> False | Some r \<Rightarrow> status_of r \<ge> HTTP_SERVER_ERROR_MIN)"

definition client_error_missing_response :: "pyexc \<Rightarrow> bool" where
  "client_error_missing_response exc =
     (if \<not> isinstance_exc exc CClientError then False else exc_response exc = None)"

definition empty_rule :: "ErrorAction \<Rightarrow> ErrorRule" where
  "empty_rule a = \<lparr>action = a, codes = [], status_codes = [], status_range = None,
     exception_types = [], predicate = None\<rparr>"

definition ERROR_REGISTRY :: "ErrorRule list" where
  "ERROR_REGISTRY =
     [(empty_rule RETRY)\<lparr>codes := [''RequestLimitExceeded'', ''SlowDown'', ''RequestTimeout'', ''Throttling''],
        status_codes := [429, 503]\<rparr>,
      (empty_rule FAIL)\<lparr>predicate := Some client_error_missing_response\<rparr>,
      (empty_rule FAIL)\<lparr>status_range := Some (HTTP_CLIENT_ERROR_MIN, HTTP_SERVER_ERROR_MIN)\<rparr>,
      (empty_rule FALLBACK)\<lparr>predicate := Some client_error_5xx\<rparr>,
      (empty_rule FAIL)\<lparr>predicate := Some client_error_4xx\<rparr>]"

fun classify_from_registry :: "pyexc \<Rightarrow> ErrorRule list \<Rightarrow> ErrorAction option" where
  "classify_from_registry exc [] = None"
| "classify_from_registry exc (rule # rules) =
     (if rule_matches rule exc then Some (action rule) else classify_from_registry exc rules)"

section \<open>ErrorClassifier (errors.py)\<close>

definition retryable_classes :: "exc_class list" where
  "retryable_classes =
     [CTimeoutError, CTimeoutError, CAiohttpClientError, CBotoCoreError, CConnectionError, COSError,
      CKafkaConnectionError, CKafkaError]"

definition classify :: "pyexc \<Rightarrow> ErrorAction" where
  "classify exc =
     (if isinstance_exc exc CClientError then
        (case classify_from_registry exc ERROR_REGISTRY of Some a \<Rightarrow> a | None \<Rightarrow> FAIL)
      else if list_ex (isinstance_exc exc) retryable_classes then RETRY
      else FALLBACK)"

section \<open>S3 error responses (errors.py)\<close>

definition ACCESS_DENIED :: S3ErrorCode where
  "ACCESS_DENIED = \<lparr>code = ''AccessDenied'', http_status = 403, message = ''Access Denied''\<rparr>"
definition BUCKET_ALREADY_EXISTS :: S3ErrorCode where
  "BUCKET_ALREADY_EXISTS = \<lparr>code = ''BucketAlreadyExists'', http_status = 409,
     message = ''The requested bucket name is not available.''\<rparr>"
definition BUCKET_ALREADY_OWNED_BY_YOU :: S3ErrorCode where
  "BUCKET_ALREADY_OWNED_BY_YOU = \<lparr>code = ''BucketAlreadyOwnedByYou'', http_status = 409,
     message = ''The bucket you tried to create already exists, and you own it.''\<rparr>"
definition BUCKET_NOT_EMPTY :: S3ErrorCode where
  "BUCKET_NOT_EMPTY = \<lparr>code = ''BucketNotEmpty'', http_status = 409,
     message = ''The bucket you tried to delete is not empty.''\<rparr>"
definition INTERNAL_ERROR :: S3ErrorCode where
  "INTERNAL_ERROR = \<lparr>code = ''InternalError'', http_status = 500,
     message = ''We encountered an internal error. Please try again.''\<rparr>"
definition INVALID_BUCKET_NAME :: S3ErrorCode where
  "INVALID_BUCKET_NAME = \<lparr>code = ''InvalidBucketName'', http_status = 400,
     message = ''The specified bucket is not valid.''\<rparr>"
definition NO_SUCH_BUCKET :: S3ErrorCode where
  "NO_SUCH_BUCKET = \<lparr>code = ''NoSuchBucket'', http_status = 404,
     message = ''The specified bucket does not exist.''\<rparr>"
definition NO_SUCH_KEY :: S3ErrorCode where
  "NO_SUCH_KEY = \<lparr>code = ''NoSuchKey'', http_status = 404,
     message = ''The specified key does not exist.''\<rparr>"
definition METHOD_NOT_ALLOWED :: S3ErrorCode where
  "METHOD_NOT_ALLOWED = \<lparr>code = ''MethodNotAllowed'', http_status = 405,
     message = ''The specified method is not allowed.''\<rparr>"
definition SERVICE_UNAVAILABLE :: S3ErrorCode where
  "SERVICE_UNAVAILABLE = \<lparr>code = ''ServiceUnavailable'', http_status = 503,
     message = ''Reduce your request rate. Service is temporarily unavailable.''\<rparr>"
definition NOT_IMPLEMENTED :: S3ErrorCode where
  "NOT_IMPLEMENTED = \<lparr>code = ''NotImplemented'', http_status = 501,
     message = ''A header you provided implies functionality that is not implemented''\<rparr>"
definition NO_SUCH_UPLOAD :: S3ErrorCode where
  "NO_SUCH_UPLOAD = \<lparr>code = ''NoSuchUpload'', http_status = 404,
     message = ''The specified multipart upload does not exist. '' @
       ''The upload ID may be invalid, or the upload may have been aborted.''\<rparr>"
definition ENTITY_TOO_SMALL :: S3ErrorCode where
  "ENTITY_TOO_SMALL = \<lparr>code = ''EntityTooSmall'', http_status = 400,
     message = ''Your proposed upload is smaller than the minimum allowed object size.''\<rparr>"

definition BOTOCORE_ERROR_MAP :: "(string \<times> S3ErrorCode) list" where
  "BOTOCORE_ERROR_MAP =
     [(''NoSuchBucket'', NO_SUCH_BUCKET), (''NoSuchKey'', NO_SUCH_KEY),
      (''BucketAlreadyExists'', BUCKET_ALREADY_EXISTS),
      (''BucketAlreadyOwnedByYou'', BUCKET_ALREADY_OWNED_BY_YOU),
      (''BucketNotEmpty'', BUCKET_NOT_EMPTY), (''AccessDenied'', ACCESS_DENIED),
      (''InvalidBucketName'', INVALID_BUCKET_NAME), (''EntityTooSmall'', ENTITY_TOO_SMALL),
      (''404'', NO_SUCH_BUCKET), (''403'', ACCESS_DENIED)]"

record S3ErrorResponse =
  error_code :: S3ErrorCode
  err_msg :: "string option"
  err_resource :: "string option"
  err_request_id :: string

definition from_client_error :: "string \<Rightarrow> pyexc \<Rightarrow> string option \<Rightarrow> S3ErrorResponse" where
  "from_client_error rid exc res =
     (let (error_code_str, error_message) =
        (case exc_response exc of
           None \<Rightarrow> ([], exc_str exc)
         | Some r \<Rightarrow> (code_of r, (case resp_message r of None \<Rightarrow> exc_str exc | Some m \<Rightarrow> m)))
      in \<lparr>error_code = get_default BOTOCORE_ERROR_MAP error_code_str INTERNAL_ERROR,
          err_msg = Some error_message, err_resource = res, err_request_id = rid\<rparr>)"

text \<open>\<open>_xml_escape\<close>: five \<open>str.replace\<close> calls, in the order of the source.\<close>

fun replace_char :: "char \<Rightarrow> string \<Rightarrow> string \<Rightarrow> string" where
  "replace_char c r [] = []"
| "replace_char c r (x # xs) = (if x = c then r else [x]) @ replace_char c r xs"

definition xml_escape :: "string \<Rightarrow> string" where
  "xml_escape text =
     replace_char CHR 0x27 ''&apos;''
      (replace_char CHR 0x22 ''&quot;''
        (replace_char CHR ''>'' ''&gt;''
          (replace_char CHR ''<'' ''&lt;''
            (replace_char CHR ''&'' ''&amp;'' text))))"

definition newline :: string where "newline = [CHR 0x0A]"

definition error_to_xml :: "S3ErrorResponse \<Rightarrow> string" where
  "error_to_xml resp =
     (let msg = (case err_msg resp of
            Some m \<Rightarrow> (if m \<noteq> [] then m else message (error_code resp))
          | None \<Rightarrow> message (error_code resp));
        parts =
          [''<?xml version=\"1.0\" encoding=\"UTF-8\"?>'', ''<Error>'',
           ''  <Code>'' @ code (error_code resp) @ ''</Code>'',
           ''  <Message>'' @ xml_escape msg @ ''</Message>''] @
          (case err_resource resp of
             Some res \<Rightarrow> (if res \<noteq> [] then [''  <Resource>'' @ xml_escape res @ ''</Resource>''] else [])
           | None \<Rightarrow> []) @
          [''  <RequestId>'' @ err_request_id resp @ ''</RequestId>'', ''</Error>'']
      in join newline parts)"

record ASGIResponse =
  content :: bytes
  status_code :: int
  media_type :: string
  extra_headers :: "(string \<times> string) list"

definition error_to_response :: "S3ErrorResponse \<Rightarrow> ASGIResponse" where
  "error_to_response resp =
     \<lparr>content = error_to_xml resp, status_code = http_status (error_code resp),
      media_type = ''application/xml'',
      extra_headers = [(''x-amz-request-id'', err_request_id resp)]\<rparr>"

text \<open>
  \<open>from_handler_error\<close>.  \<open>rid\<close> is the fresh request id that the dataclass default draws.
  \<open>OperationNotSupportedError.to_response\<close> is called with \<open>resource=error.resource or resource\<close>
  and itself falls back to \<open>self.resource\<close>.
\<close>

definition str_or :: "string option \<Rightarrow> string option \<Rightarrow> string option" where
  "str_or a b = (if truthy_str a then a else b)"

definition ons_to_response ::
  "string \<Rightarrow> string \<Rightarrow> S3ErrorCode \<Rightarrow> string option \<Rightarrow> string option \<Rightarrow> string option \<Rightarrow> ASGIResponse" where
  "ons_to_response rid msg ec self_resource request_id res =
     (let response = \<lparr>error_code = ec, err_msg = Some msg, err_resource = str_or res self_resource,
          err_request_id = rid\<rparr>;
        response = (case request_id of None \<Rightarrow> response | Some q \<Rightarrow> response\<lparr>err_request_id := q\<rparr>)
      in error_to_response response)"

definition from_handler_error :: "string \<Rightarrow> pyexc \<Rightarrow> string option \<Rightarrow> ASGIResponse" where
  "from_handler_error rid exc res =
     (case exc of
        OperationNotSupportedError msg ec self_resource \<Rightarrow>
          ons_to_response rid msg ec self_resource None (str_or self_resource res)
      | _ \<Rightarrow>
        if isinstance_exc exc CKafkaConnectionError \<or> isinstance_exc exc CKafkaError then
          error_to_response \<lparr>error_code = SERVICE_UNAVAILABLE, err_msg = Some (exc_str exc),
            err_resource = res, err_request_id = rid\<rparr>
        else error_to_response (from_client_error rid exc res))"

section \<open>Facts about classification\<close>

lemmas rule_defs = rule_matches_def empty_rule_def client_error_4xx_def client_error_5xx_def
  client_error_missing_response_def HTTP_CLIENT_ERROR_MIN_def HTTP_SERVER_ERROR_MIN_def

text \<open>What the ordered registry decides for a \<open>ClientError\<close>, as one decision function.\<close>

definition client_error_decision :: "err_response \<Rightarrow> ErrorAction" where
  "client_error_decision r =
     (if code_of r \<in> {''RequestLimitExceeded'', ''SlowDown'', ''RequestTimeout'', ''Throttling''}
         \<or> status_of r \<in> {429, 503} then RETRY
      else if status_of r < 500 then FAIL else FALLBACK)"

lemma registry_decision:
  "classify_from_registry (ClientError m (Some r)) ERROR_REGISTRY =
     (if client_error_decision r = FAIL \<and> status_of r < 400 then None
      else Some (client_error_decision r))"
  by (auto simp: ERROR_REGISTRY_def rule_defs client_error_decision_def Let_def)

lemma registry_missing_response:
  "classify_from_registry (ClientError m None) ERROR_REGISTRY = Some FAIL"
  by (simp add: ERROR_REGISTRY_def rule_defs)

text \<open>
  C25. The rule registry, searched in order with \<open>FAIL\<close> as the default, decides every
  \<open>ClientError\<close> exactly as follows: throttling codes and the statuses 429 and 503 are retried,
  every other status of 500 and above falls back to the next backend, and everything else (4xx,
  a missing status, a response that is not a dictionary) fails.
\<close>

theorem classify_client_error:
  "classify (ClientError m resp) =
     (case resp of None \<Rightarrow> FAIL | Some r \<Rightarrow> client_error_decision r)"
proof (cases resp)
  case None
  then show ?thesis by (simp add: classify_def registry_missing_response)
next
  case (Some r)
  then show ?thesis by (auto simp: classify_def registry_decision)
qed

lemma classify_FAIL_is_client_error: "classify e = FAIL \<Longrightarrow> isinstance_exc e CClientError"
  by (auto simp: classify_def split: if_splits)

lemma classify_non_client_error [simp]:
  "classify (PyKeyError m) = FALLBACK" "classify (PyRuntimeError m) = FALLBACK"
  "classify (PyAttributeError m) = FALLBACK" "classify (KafkaError m) = RETRY"
  "classify (PyConnectionError m) = RETRY"
  by (simp_all add: classify_def retryable_classes_def)

section \<open>Facts about error responses\<close>

lemmas s3_code_defs = ACCESS_DENIED_def BUCKET_ALREADY_EXISTS_def BUCKET_ALREADY_OWNED_BY_YOU_def
  BUCKET_NOT_EMPTY_def INTERNAL_ERROR_def INVALID_BUCKET_NAME_def NO_SUCH_BUCKET_def NO_SUCH_KEY_def
  METHOD_NOT_ALLOWED_def SERVICE_UNAVAILABLE_def NOT_IMPLEMENTED_def NO_SUCH_UPLOAD_def
  ENTITY_TOO_SMALL_def

lemma error_to_response_status [simp]:
  "status_code (error_to_response r) = http_status (error_code r)"
  by (simp add: error_to_response_def)

lemma map_of_pred: "map_of d k = Some v \<Longrightarrow> \<forall>p \<in> set d. P (snd p) \<Longrightarrow> P v"
  by (induction d) (auto split: if_splits)

lemma get_default_pred:
  "\<forall>p \<in> set d. P (snd p) \<Longrightarrow> P v \<Longrightarrow> P (get_default d k v)"
  by (auto simp: get_default_def split: option.splits dest: map_of_pred)

lemma from_client_error_status:
  "400 \<le> http_status (error_code (from_client_error rid exc res))"
proof -
  have "400 \<le> http_status (get_default BOTOCORE_ERROR_MAP k INTERNAL_ERROR)" for k
    by (rule get_default_pred [where P = "\<lambda>c. 400 \<le> http_status c"])
      (simp_all add: BOTOCORE_ERROR_MAP_def s3_code_defs)
  then show ?thesis by (simp add: from_client_error_def Let_def split: option.split)
qed

lemma ons_to_response_status [simp]:
  "status_code (ons_to_response rid msg ec sr q res) = http_status ec"
  by (simp add: ons_to_response_def Let_def split: option.split)

text \<open>An exception a strategy can raise: its S3 code, if it has one, is an error code.\<close>

fun error_code_ok :: "pyexc \<Rightarrow> bool" where
  "error_code_ok (OperationNotSupportedError m ec r) = (400 \<le> http_status ec)"
| "error_code_ok e = True"



section \<open>Facts about XML escaping\<close>

definition escape_char :: "char \<Rightarrow> string" where
  "escape_char c =
     (if c = CHR ''&'' then ''&amp;'' else if c = CHR ''<'' then ''&lt;''
      else if c = CHR ''>'' then ''&gt;'' else if c = CHR 0x22 then ''&quot;''
      else if c = CHR 0x27 then ''&apos;'' else [c])"

lemma replace_char_append [simp]: "replace_char c r (xs @ ys) = replace_char c r xs @ replace_char c r ys"
  by (induction xs) auto

lemma xml_escape_Nil [simp]: "xml_escape [] = []"
  by (simp add: xml_escape_def)

lemma xml_escape_Cons: "xml_escape (c # cs) = escape_char c @ xml_escape cs"
  by (simp add: xml_escape_def escape_char_def)

text \<open>A reader of the five predefined entities.\<close>

function xml_unescape :: "string \<Rightarrow> string" where
  "xml_unescape s =
     (if s = [] then []
      else if take 5 s = ''&amp;'' then CHR ''&'' # xml_unescape (drop 5 s)
      else if take 4 s = ''&lt;'' then CHR ''<'' # xml_unescape (drop 4 s)
      else if take 4 s = ''&gt;'' then CHR ''>'' # xml_unescape (drop 4 s)
      else if take 6 s = ''&quot;'' then CHR 0x22 # xml_unescape (drop 6 s)
      else if take 6 s = ''&apos;'' then CHR 0x27 # xml_unescape (drop 6 s)
      else hd s # xml_unescape (tl s))"
  by pat_completeness auto
termination
  by (relation "measure length") auto

declare xml_unescape.simps [simp del]

lemma xml_unescape_step: "xml_unescape (escape_char c @ cs) = c # xml_unescape cs"
  by (subst xml_unescape.simps) (simp add: escape_char_def)

lemma xml_unescape_escape: "xml_unescape (xml_escape cs) = cs"
  by (induction cs) (simp_all add: xml_escape_Cons xml_unescape_step xml_unescape.simps [of "[]"])

lemma escape_char_no_markup:
  "set (escape_char c) \<inter> {CHR ''<'', CHR ''>'', CHR 0x22, CHR 0x27} = {}"
  by (simp add: escape_char_def)

lemma xml_escape_no_markup:
  "set (xml_escape cs) \<inter> {CHR ''<'', CHR ''>'', CHR 0x22, CHR 0x27} = {}"
proof (induction cs)
  case (Cons c cs)
  then show ?case using escape_char_no_markup [of c] by (auto simp: xml_escape_Cons)
qed simp

text \<open>
  C40. Escaping is safe and loses nothing: the escaped text contains no angle bracket and no
  quote, so it cannot open or close an element or an attribute of the error document, and reading
  the five predefined entities back gives the original text.
\<close>

theorem xml_escape_safe_and_invertible:
  "set (xml_escape cs) \<inter> {CHR ''<'', CHR ''>'', CHR 0x22, CHR 0x27} = {}
   \<and> xml_unescape (xml_escape cs) = cs"
  using xml_escape_no_markup xml_unescape_escape by blast

end
