(* ===== verification/Classifier.thy ===== *)
theory Classifier
  imports Errors
begin

text \<open>
  Routing of HTTP requests: \<open>src/s3mer/routing/classifier.py\<close>.  The method, path, query string and
  headers of a request decide the S3 operation, the bucket and the key.

  \<open>parse_qsl\<close> is the function of Python's \<open>urllib.parse\<close> with \<open>keep_blank_values=True\<close>; percent escapes
  are decoded to single characters, which is exact for escapes of ASCII characters.
\<close>

section \<open>Library functions\<close>

definition upper :: "string \<Rightarrow> string" where
  "upper s = map (\<lambda>c. if 97 \<le> (of_char c :: nat) \<and> of_char c \<le> (122 :: nat) then char_of (of_char c - 32 :: nat) else c) s"

definition strip_slash :: "string \<Rightarrow> string" where
  "strip_slash s = rev (dropWhile (\<lambda>c. c = CHR ''/'') (rev (dropWhile (\<lambda>c. c = CHR ''/'') s)))"

text \<open>\<open>str.partition\<close> by a character: the part before it, whether it occurs, the part after it.\<close>

fun partition_char :: "char \<Rightarrow> string \<Rightarrow> string \<times> bool \<times> string" where
  "partition_char c [] = ([], False, [])"
| "partition_char c (x # xs) =
     (if x = c then ([], True, xs)
      else (case partition_char c xs of (a, found, b) \<Rightarrow> (x # a, found, b)))"

fun split_char :: "char \<Rightarrow> string \<Rightarrow> string list" where
  "split_char c [] = [[]]"
| "split_char c (x # xs) =
     (if x = c then [] # split_char c xs
      else (case split_char c xs of [] \<Rightarrow> [[x]] | p # ps \<Rightarrow> (x # p) # ps))"

definition hex_value :: "char \<Rightarrow> nat option" where
  "hex_value c =
     (let n = of_char c :: nat in
      if 48 \<le> n \<and> n \<le> 57 then Some (n - 48)
      else if 97 \<le> n \<and> n \<le> 102 then Some (n - 87)
      else if 65 \<le> n \<and> n \<le> 70 then Some (n - 55)
      else None)"

fun unquote :: "string \<Rightarrow> string" where
  "unquote (a # b # c # s) =
     (if a = CHR ''%'' then
        (case (hex_value b, hex_value c) of
           (Some h, Some l) \<Rightarrow> char_of (16 * h + l) # unquote s
         | _ \<Rightarrow> a # unquote (b # c # s))
      else a # unquote (b # c # s))"
| "unquote s = s"

definition unquote_plus :: "string \<Rightarrow> string" where
  "unquote_plus s = unquote (map (\<lambda>c. if c = CHR ''+'' then CHR '' '' else c) s)"

definition parse_qsl :: "string \<Rightarrow> (string \<times> string) list" where
  "parse_qsl qs = map (\<lambda>nv. case partition_char CHR ''='' nv of (n, _, v) \<Rightarrow> (unquote_plus n, unquote_plus v))
     (filter (\<lambda>nv. nv \<noteq> []) (split_char CHR ''&'' qs))"

section \<open>The classifier\<close>

record S3Request =
  req_operation :: S3Operation
  req_bucket :: "string option"
  req_key :: "string option"

record RefinementRule =
  refined_op :: S3Operation
  query_key :: "string option"
  header_key :: "string option"
  extra_query_key :: "string option"

definition refinement_matches :: "RefinementRule \<Rightarrow> (string \<times> string) list \<Rightarrow> (string \<times> string) list option \<Rightarrow> bool" where
  "refinement_matches rule query headers =
     (if (case query_key rule of None \<Rightarrow> False | Some k \<Rightarrow> \<not> has_key query k) then False
      else if (case extra_query_key rule of None \<Rightarrow> False | Some k \<Rightarrow> \<not> has_key query k) then False
      else \<not> (case header_key rule of None \<Rightarrow> False
                | Some h \<Rightarrow> (case headers of None \<Rightarrow> True | Some hs \<Rightarrow> \<not> has_key hs h)))"

definition lower_alnum :: "char \<Rightarrow> bool" where
  "lower_alnum c \<longleftrightarrow> (let n = of_char c :: nat in 97 \<le> n \<and> n \<le> 122 \<or> 48 \<le> n \<and> n \<le> 57)"

text \<open>
  \<open>_BUCKET_NAME_RE.match\<close>: \<open>bucket_pattern\<close> is the pattern between the anchors, and \<open>$\<close> matches at
  the end of the string or just before a final newline.
\<close>

definition bucket_pattern :: "string \<Rightarrow> bool" where
  "bucket_pattern s \<longleftrightarrow> 3 \<le> length s \<and> length s \<le> 63 \<and> lower_alnum (hd s) \<and> lower_alnum (last s) \<and>
     list_all (\<lambda>c. lower_alnum c \<or> c = CHR ''.'' \<or> c = CHR ''-'') (butlast (tl s))"

definition bucket_name_re :: "string \<Rightarrow> bool" where
  "bucket_name_re s \<longleftrightarrow> bucket_pattern s \<or> (s \<noteq> [] \<and> last s = CHR 0x0A \<and> bucket_pattern (butlast s))"

definition ROUTING_TABLE :: "string \<Rightarrow> nat \<Rightarrow> S3Operation option" where
  "ROUTING_TABLE m depth =
     (if m = ''GET'' then map_of [(0, LIST_BUCKETS), (1, LIST_OBJECTS_V2), (2, GET_OBJECT)] depth
      else if m = ''PUT'' then map_of [(1, CREATE_BUCKET), (2, PUT_OBJECT)] depth
      else if m = ''DELETE'' then map_of [(1, DELETE_BUCKET), (2, DELETE_OBJECT)] depth
      else if m = ''HEAD'' then map_of [(1, HEAD_BUCKET), (2, HEAD_OBJECT)] depth
      else if m = ''POST'' then map_of [(1, DELETE_OBJECTS), (2, POST_OBJECT)] depth
      else None)"

definition on_query :: "S3Operation \<Rightarrow> string \<Rightarrow> RefinementRule" where
  "on_query op q = \<lparr>refined_op = op, query_key = Some q, header_key = None, extra_query_key = None\<rparr>"

definition REFINEMENT_TABLE :: "S3Operation \<Rightarrow> RefinementRule list" where
  "REFINEMENT_TABLE op =
     (case op of
        PUT_OBJECT \<Rightarrow>
          [on_query PUT_OBJECT_TAGGING ''tagging'',
           (on_query UPLOAD_PART ''partNumber'')\<lparr>extra_query_key := Some ''uploadId''\<rparr>,
           \<lparr>refined_op = COPY_OBJECT, query_key = None, header_key = Some ''x-amz-copy-source'', extra_query_key = None\<rparr>]
      | POST_OBJECT \<Rightarrow> [on_query CREATE_MULTIPART_UPLOAD ''uploads'', on_query COMPLETE_MULTIPART_UPLOAD ''uploadId'']
      | GET_OBJECT \<Rightarrow> [on_query GET_OBJECT_TAGGING ''tagging'']
      | DELETE_OBJECT \<Rightarrow> [on_query DELETE_OBJECT_TAGGING ''tagging'', on_query ABORT_MULTIPART_UPLOAD ''uploadId'']
      | LIST_OBJECTS_V2 \<Rightarrow> [on_query GET_BUCKET_LIFECYCLE ''lifecycle'', on_query GET_BUCKET_POLICY ''policy'']
      | CREATE_BUCKET \<Rightarrow> [on_query PUT_BUCKET_LIFECYCLE ''lifecycle'', on_query PUT_BUCKET_POLICY ''policy'']
      | DELETE_BUCKET \<Rightarrow> [on_query DELETE_BUCKET_LIFECYCLE ''lifecycle'', on_query DELETE_BUCKET_POLICY ''policy'']
      | _ \<Rightarrow> [])"

definition extract_parts :: "string \<Rightarrow> string option \<times> string option" where
  "extract_parts path =
     (case partition_char CHR ''/'' (strip_slash path) of
        (bucket, more_parts, key) \<Rightarrow>
          if bucket = [] then (None, None)
          else (Some bucket, if more_parts then Some key else None))"

definition refine_operation ::
  "S3Operation \<Rightarrow> (string \<times> string) list \<Rightarrow> (string \<times> string) list option \<Rightarrow> string \<Rightarrow> pyexc + S3Operation" where
  "refine_operation base_op query headers path =
     (case List.find (\<lambda>rule. refinement_matches rule query headers) (REFINEMENT_TABLE base_op) of
        Some rule \<Rightarrow> Inr (refined_op rule)
      | None \<Rightarrow>
          if base_op = POST_OBJECT then
            Inl (PyValueError (''Cannot classify POST request without uploads or uploadId: '' @ path))
          else if base_op = DELETE_OBJECTS \<and> \<not> has_key query ''delete'' then
            Inl (PyValueError (''Cannot classify POST request without 'delete' query param: '' @ path))
          else if base_op = LIST_OBJECTS_V2 \<and> map_of query ''list-type'' \<noteq> Some ''2'' then Inr LIST_OBJECTS
          else Inr base_op)"

definition classify_request ::
  "string \<Rightarrow> string \<Rightarrow> string \<Rightarrow> (string \<times> string) list option \<Rightarrow> pyexc + S3Request" where
  "classify_request mth path query_string headers =
     (let mth = upper mth;
        (bucket, key) = extract_parts path;
        depth = (if \<not> truthy_str bucket then 0 else if truthy_str key then 2 else 1)
      in case ROUTING_TABLE mth depth of
          None \<Rightarrow> Inl (PyValueError (''Cannot classify request: '' @ mth @ '' '' @ path))
        | Some base_op \<Rightarrow>
            if truthy_str bucket \<and> \<not> bucket_name_re (the bucket) then
              Inl (PyValueError (''Invalid bucket name: '' @ the bucket))
            else
              ebind (refine_operation base_op (py_dict (parse_qsl query_string)) headers path)
                (\<lambda>op. Inr \<lparr>req_operation = op, req_bucket = bucket, req_key = key\<rparr>))"

section \<open>What a classified request looks like\<close>

text \<open>The level an operation works at: 0 the service, 1 a bucket, 2 an object.\<close>

definition op_depth :: "S3Operation \<Rightarrow> nat" where
  "op_depth op =
     (if op = LIST_BUCKETS then 0
      else if op \<in> {PUT_OBJECT, GET_OBJECT, DELETE_OBJECT, HEAD_OBJECT, POST_OBJECT, COPY_OBJECT,
                    PUT_OBJECT_TAGGING, GET_OBJECT_TAGGING, DELETE_OBJECT_TAGGING, CREATE_MULTIPART_UPLOAD,
                    UPLOAD_PART, COMPLETE_MULTIPART_UPLOAD, ABORT_MULTIPART_UPLOAD} then 2
      else 1)"

lemma routing_depth: "ROUTING_TABLE m d = Some op \<Longrightarrow> op_depth op = d"
  by (auto simp: ROUTING_TABLE_def op_depth_def split: if_splits)

lemma refinement_depth: "rule \<in> set (REFINEMENT_TABLE op) \<Longrightarrow> op_depth (refined_op rule) = op_depth op \<and> refined_op rule \<noteq> POST_OBJECT"
  by (cases op) (auto simp: REFINEMENT_TABLE_def on_query_def op_depth_def)

lemma refine_operation_depth:
  assumes "refine_operation base_op query headers path = Inr op"
  shows "op_depth op = op_depth base_op \<and> op \<noteq> POST_OBJECT"
proof (cases "List.find (\<lambda>rule. refinement_matches rule query headers) (REFINEMENT_TABLE base_op)")
  case None
  then show ?thesis using assms by (auto simp: refine_operation_def op_depth_def split: if_splits)
next
  case (Some rule)
  then have "rule \<in> set (REFINEMENT_TABLE base_op)" by (auto simp: find_Some_iff)
  with Some assms refinement_depth show ?thesis by (auto simp: refine_operation_def)
qed

lemma partition_char_law:
  "partition_char c s = (a, found, b) \<Longrightarrow> c \<notin> set a \<and> s = (if found then a @ c # b else a) \<and> (\<not> found \<longrightarrow> b = [])"
  by (induction c s arbitrary: a found b rule: partition_char.induct) (auto split: if_splits prod.splits)

lemma partition_char_append: "c \<notin> set a \<Longrightarrow> partition_char c (a @ c # b) = (a, True, b)"
  by (induction a) auto

lemma strip_slash_last: "strip_slash s \<noteq> [] \<Longrightarrow> last (strip_slash s) \<noteq> CHR ''/''"
  using hd_dropWhile [of "\<lambda>c. c = CHR ''/''" "rev (dropWhile (\<lambda>c. c = CHR ''/'') s)"]
  by (simp add: strip_slash_def last_rev del: dropWhile_eq_Nil_conv)

lemma extract_parts_key:
  assumes "extract_parts path = (bucket, Some key)"
  shows "key \<noteq> [] \<and> last key \<noteq> CHR ''/'' \<and> bucket \<noteq> None"
proof -
  obtain a found b where p: "partition_char CHR ''/'' (strip_slash path) = (a, found, b)" by (metis prod_cases3)
  with assms have "a \<noteq> []" "found" "b = key" "bucket = Some a" by (auto simp: extract_parts_def split: if_splits)
  moreover from this partition_char_law [OF p] have "strip_slash path = a @ CHR ''/'' # key" by simp
  ultimately show ?thesis using strip_slash_last [of path] by (cases key rule: rev_cases) auto
qed

lemma extract_parts_bucket: "extract_parts path = (bucket, key) \<Longrightarrow> bucket \<noteq> Some []"
  by (auto simp: extract_parts_def split: prod.splits if_splits)

text \<open>What comes out of \<open>classify_request\<close>, part by part.\<close>

lemma classify_request_parts:
  assumes "classify_request mth path qs headers = Inr r"
  shows "op_depth (req_operation r) = (if req_bucket r = None then 0 else if req_key r = None then 1 else 2) \<and>
    req_operation r \<noteq> POST_OBJECT \<and>
    (\<forall>b. req_bucket r = Some b \<longrightarrow> bucket_name_re b) \<and>
    (\<forall>k. req_key r = Some k \<longrightarrow> req_bucket r \<noteq> None \<and> k \<noteq> [] \<and> last k \<noteq> CHR ''/'')"
proof -
  obtain bucket key where e: "extract_parts path = (bucket, key)" by force
  have b: "truthy_str bucket \<longleftrightarrow> bucket \<noteq> None" using extract_parts_bucket [OF e] by (cases bucket) auto
  have k: "truthy_str key \<longleftrightarrow> key \<noteq> None" using extract_parts_key e by (cases key) auto
  from assms e b k obtain base_op op where
    r: "ROUTING_TABLE (upper mth) (if bucket = None then 0 else if key \<noteq> None then 2 else 1) = Some base_op"
    "refine_operation base_op (py_dict (parse_qsl qs)) headers path = Inr op"
    "r = \<lparr>req_operation = op, req_bucket = bucket, req_key = key\<rparr>"
    "bucket \<noteq> None \<Longrightarrow> bucket_name_re (the bucket)"
    by (auto simp: classify_request_def ebind_Inr_iff Let_def split: option.splits if_splits)
  show ?thesis
    using refine_operation_depth [OF r(2)] routing_depth [OF r(1)] extract_parts_key [of path bucket] e r(3,4) by auto
qed

text \<open>
  C32. A classified request has the parts its operation needs: no bucket exactly for the service-level
  operation, a key exactly for the object-level operations, a bucket name that passed the name
  check, and a key that is not empty and does not end in a slash.  \<open>POST_OBJECT\<close>, which no backend
  client implements, never comes out.
\<close>

theorem classified_request_shape:
  assumes "classify_request mth path qs headers = Inr r"
  shows "op_depth (req_operation r) = (if req_bucket r = None then 0 else if req_key r = None then 1 else 2) \<and>
    req_operation r \<noteq> POST_OBJECT \<and>
    (\<forall>b. req_bucket r = Some b \<longrightarrow> bucket_name_re b) \<and>
    (\<forall>k. req_key r = Some k \<longrightarrow> req_bucket r \<noteq> None \<and> k \<noteq> [] \<and> last k \<noteq> CHR ''/'')"
  using classify_request_parts [OF assms] .

theorem classified_request_shape_witness:
  "\<exists>r. classify_request ''put'' ''/data/a/b'' ''partNumber=1&uploadId=x'' None = Inr r \<and>
     req_operation r = UPLOAD_PART \<and> op_depth (req_operation r) = 2"
proof -
  have c: "classify_request ''put'' ''/data/a/b'' ''partNumber=1&uploadId=x'' None =
      Inr \<lparr>req_operation = UPLOAD_PART, req_bucket = Some ''data'', req_key = Some ''a/b''\<rparr>"
    by code_simp
  from classified_request_shape [OF c] c show ?thesis by simp
qed

section \<open>Paths\<close>

lemma bucket_pattern_no_slash: "bucket_pattern b \<Longrightarrow> CHR ''/'' \<notin> set b \<and> b \<noteq> []"
proof -
  assume b: "bucket_pattern b"
  then obtain x ys z where "b = x # ys @ [z]"
    by (cases b; cases "tl b" rule: rev_cases) (auto simp: bucket_pattern_def)
  with b show ?thesis by (auto simp: bucket_pattern_def lower_alnum_def list_all_iff Let_def)
qed

text \<open>The path of an object, as clients write it, and with slashes after it.\<close>

lemma strip_slash_object:
  assumes "bucket_pattern b" and "k \<noteq> []" and "last k \<noteq> CHR ''/''"
  shows "strip_slash (''/'' @ b @ ''/'' @ k @ replicate n CHR ''/'') = b @ ''/'' @ k"
proof -
  have "dropWhile (\<lambda>c. c = CHR ''/'') (''/'' @ b @ ''/'' @ k @ replicate n CHR ''/'') = b @ ''/'' @ k @ replicate n CHR ''/''"
    using bucket_pattern_no_slash [OF assms(1)] by (cases b) auto
  moreover have "dropWhile (\<lambda>c. c = CHR ''/'') (replicate n CHR ''/'' @ rev k @ xs) = rev k @ xs" for xs
    using assms(2,3) by (induction n) (auto simp: dropWhile_append3 last_rev [symmetric] dropWhile_eq_self_iff hd_append hd_rev)
  ultimately show ?thesis by (simp add: strip_slash_def)
qed

lemma extract_object:
  assumes "bucket_pattern b" and "k \<noteq> []" and "last k \<noteq> CHR ''/''"
  shows "extract_parts (''/'' @ b @ ''/'' @ k @ replicate n CHR ''/'') = (Some b, Some k)"
  unfolding extract_parts_def strip_slash_object [OF assms]
  using bucket_pattern_no_slash [OF assms(1)] partition_char_append [of "CHR ''/''" b k] by simp

text \<open>
  C33. Keys come back as the client wrote them: for every valid bucket name and every non-empty key
  that does not end in a slash, a plain \<open>GET\<close> of \<open>/bucket/key\<close> is classified as reading exactly
  that object (slashes inside or at the start of the key included).
\<close>

theorem object_path_roundtrip:
  assumes "bucket_pattern b" and "k \<noteq> []" and "last k \<noteq> CHR ''/''"
  shows "classify_request ''GET'' (''/'' @ b @ ''/'' @ k) [] headers =
    Inr \<lparr>req_operation = GET_OBJECT, req_bucket = Some b, req_key = Some k\<rparr>"
  using extract_object [OF assms, of 0] bucket_pattern_no_slash [OF assms(1)] assms
  by (simp add: classify_request_def upper_def ROUTING_TABLE_def bucket_name_re_def parse_qsl_def py_dict_def
      refine_operation_def REFINEMENT_TABLE_def on_query_def refinement_matches_def has_key_def)

theorem object_path_roundtrip_witness:
  "classify_request ''GET'' ''/data//a/b'' [] None =
     Inr \<lparr>req_operation = GET_OBJECT, req_bucket = Some ''data'', req_key = Some ''/a/b''\<rparr>"
  using object_path_roundtrip [of "''data''" "''/a/b''" None]
  by (simp add: bucket_pattern_def lower_alnum_def)

text \<open>
  Keys that end in a slash are not addressable: writing the folder marker \<open>key/\<close> is classified as
  writing the object \<open>key\<close>, a different object of S3, whatever the number of slashes.
\<close>

theorem trailing_slash_is_lost:
  assumes "bucket_pattern b" and "k \<noteq> []" and "last k \<noteq> CHR ''/''"
  shows "classify_request ''PUT'' (''/'' @ b @ ''/'' @ k @ replicate n CHR ''/'') [] None =
    Inr \<lparr>req_operation = PUT_OBJECT, req_bucket = Some b, req_key = Some k\<rparr>"
  using extract_object [OF assms, of n] bucket_pattern_no_slash [OF assms(1)] assms
  by (simp add: classify_request_def upper_def ROUTING_TABLE_def bucket_name_re_def parse_qsl_def py_dict_def
      refine_operation_def REFINEMENT_TABLE_def on_query_def refinement_matches_def has_key_def)

theorem trailing_slash_is_lost_witness:
  "classify_request ''PUT'' ''/data/folder/'' [] None =
     Inr \<lparr>req_operation = PUT_OBJECT, req_bucket = Some ''data'', req_key = Some ''folder''\<rparr>"
  using trailing_slash_is_lost [of "''data''" "''folder''" 1]
  by (simp add: bucket_pattern_def lower_alnum_def)

text \<open>
  The bucket name check lets a trailing newline through: a name the pattern accepts is accepted
  with a newline after it as well, although the pattern has no place for one.
\<close>

theorem bucket_name_with_newline_accepted:
  "bucket_name_re b \<longleftrightarrow> bucket_pattern b \<or> (\<exists>a. b = a @ [CHR 0x0A] \<and> bucket_pattern a)"
  by (cases b rule: rev_cases) (auto simp: bucket_name_re_def)

end
