(* ===== verification/Decimal.thy ===== *)
theory Decimal
  imports Prelude
begin

text \<open>
  Python's \<open>str(i)\<close> and \<open>int(text)\<close> on decimal numbers, and \<open>strip()\<close>, which \<open>int\<close> applies to its
  argument.  \<open>int\<close> accepts a sign and single underscores between digits; \<open>None\<close> stands for its
  \<open>ValueError\<close>.  The two are inverse (\<open>py_int_py_str\<close>).
\<close>

definition is_space :: "char \<Rightarrow> bool" where
  "is_space c \<longleftrightarrow> c \<in> {CHR '' '', CHR 0x09, CHR 0x0A, CHR 0x0B, CHR 0x0C, CHR 0x0D}"

definition py_strip :: "bytes \<Rightarrow> bytes" where
  "py_strip s = rev (dropWhile is_space (rev (dropWhile is_space s)))"

definition digit_char :: "nat \<Rightarrow> char" where
  "digit_char n = char_of (48 + n)"

fun nat_str :: "nat \<Rightarrow> string" where
  "nat_str n = (if n < 10 then [digit_char n] else nat_str (n div 10) @ [digit_char (n mod 10)])"

declare nat_str.simps [simp del]

definition py_str :: "int \<Rightarrow> string" where
  "py_str i = (if i < 0 then CHR ''-'' # nat_str (nat (- i)) else nat_str (nat i))"

definition dec_digit :: "char \<Rightarrow> nat option" where
  "dec_digit c = (let n = of_char c :: nat in if 48 \<le> n \<and> n \<le> 57 then Some (n - 48) else None)"

text \<open>\<open>d\<close> says that the previous character was a digit.\<close>

fun dec_digits :: "bool \<Rightarrow> int \<Rightarrow> string \<Rightarrow> int option" where
  "dec_digits d acc [] = (if d then Some acc else None)"
| "dec_digits d acc (c # cs) =
     (if c = CHR ''_'' then (if d \<and> cs \<noteq> [] then dec_digits False acc cs else None)
      else (case dec_digit c of None \<Rightarrow> None | Some v \<Rightarrow> dec_digits True (10 * acc + int v) cs))"

definition py_int :: "string \<Rightarrow> int option" where
  "py_int text =
     (case py_strip text of
        [] \<Rightarrow> None
      | c # cs \<Rightarrow>
          if c = CHR ''-'' then map_option uminus (dec_digits False 0 cs)
          else if c = CHR ''+'' then dec_digits False 0 cs
          else dec_digits False 0 (c # cs))"

section \<open>Printing and parsing are inverse\<close>

definition digits :: "string \<Rightarrow> bool" where
  "digits s \<longleftrightarrow> s \<noteq> [] \<and> (\<forall>c \<in> set s. dec_digit c \<noteq> None)"

lemma dec_digit_char: "n < 10 \<Longrightarrow> dec_digit (digit_char n) = Some n"
  by (simp add: dec_digit_def digit_char_def)

lemma digits_nat_str: "digits (nat_str n)"
  by (induction n rule: nat_str.induct) (subst nat_str.simps, auto simp: digits_def dec_digit_char)

lemma digit_not_special:
  "dec_digit c \<noteq> None \<Longrightarrow> c \<noteq> CHR ''_'' \<and> c \<noteq> CHR ''-'' \<and> c \<noteq> CHR ''+'' \<and> \<not> is_space c"
  by (auto simp: dec_digit_def is_space_def Let_def split: if_splits)

lemma dec_digits_foldl:
  assumes "\<forall>c \<in> set s. dec_digit c \<noteq> None" and "s \<noteq> [] \<or> d"
  shows "dec_digits d acc s = Some (foldl (\<lambda>a c. 10 * a + int (the (dec_digit c))) acc s)"
  using assms
proof (induction s arbitrary: d acc)
  case (Cons c s)
  then show ?case using digit_not_special [of c] by (cases "dec_digit c") auto
qed simp

lemma foldl_nat_str: "foldl (\<lambda>a c. 10 * a + int (the (dec_digit c))) 0 (nat_str n) = int n"
proof (induction n rule: nat_str.induct)
  case (1 n)
  show ?case
  proof (cases "n < 10")
    case True
    then show ?thesis by (simp add: nat_str.simps [of n] dec_digit_char)
  next
    case False
    then have "foldl (\<lambda>a c. 10 * a + int (the (dec_digit c))) 0 (nat_str n) = 10 * int (n div 10) + int (n mod 10)"
      using 1 by (simp add: nat_str.simps [of n] dec_digit_char)
    also have "\<dots> = int n" by (metis mult_div_mod_eq of_nat_add of_nat_mult of_nat_numeral)
    finally show ?thesis .
  qed
qed

lemma py_strip_ends: "s \<noteq> [] \<Longrightarrow> \<not> is_space (hd s) \<Longrightarrow> \<not> is_space (last s) \<Longrightarrow> py_strip s = s"
  using dropWhile_eq_self_iff [of is_space s] dropWhile_eq_self_iff [of is_space "rev s"]
  by (simp add: py_strip_def hd_rev)

lemma py_int_py_str [simp]: "py_int (py_str i) = Some i"
proof -
  let ?s = "nat_str (nat \<bar>i\<bar>)"
  have s: "?s \<noteq> []" "\<forall>c \<in> set ?s. dec_digit c \<noteq> None"
    using digits_nat_str [of "nat \<bar>i\<bar>"] by (simp_all add: digits_def)
  then have d: "dec_digits False 0 ?s = Some \<bar>i\<bar>" by (simp add: dec_digits_foldl foldl_nat_str)
  have h: "hd ?s \<in> set ?s" "last ?s \<in> set ?s" using s by auto
  then have "\<not> is_space (hd ?s)" "\<not> is_space (last ?s)" "hd ?s \<noteq> CHR ''-''" "hd ?s \<noteq> CHR ''+''"
    using digit_not_special s(2) by metis+
  then have "py_strip ?s = ?s" "py_strip (CHR ''-'' # ?s) = CHR ''-'' # ?s" "hd ?s \<noteq> CHR ''-''" "hd ?s \<noteq> CHR ''+''"
    using s(1) by (simp_all add: py_strip_ends is_space_def)
  then show ?thesis using d s(1) by (cases ?s) (auto simp: py_int_def py_str_def)
qed

lemma py_str_inj: "py_str i = py_str j \<longleftrightarrow> i = j"
  by (metis py_int_py_str option.inject)

end
