(* ===== verification/Xml_Documents.thy ===== *)
theory Xml_Documents
  imports Errors Decimal
begin

text \<open>
  The XML documents of the S3 interface: \<open>src/s3mer/common/xml.py\<close>.

  The builders produce text; a key that a document needs and the response lacks is a \<open>KeyError\<close>.  The
  parser works on the element tree that the standard library's \<open>ET.fromstring\<close> returns: an element is
  its tag, its text before the first child, and its children.  \<open>fromstring\<close> is an argument.

  Values are put into the documents as f-strings do.  A datetime is its whole seconds since the epoch,
  in UTC; the formats of \<open>datetime\<close> are written out.  The values that S3 clients put at these places are
  strings, numbers, booleans, datetimes and \<open>None\<close>; other ones are not told apart.
\<close>

section \<open>Formatting\<close>

text \<open>Year, month and day of a day number (days since 1970-01-01), in the proleptic Gregorian calendar.\<close>

definition civil_from_days :: "int \<Rightarrow> int \<times> int \<times> int" where
  "civil_from_days z =
     (let z = z + 719468; era = z div 146097; doe = z mod 146097;
        yoe = (doe - doe div 1460 + doe div 36524 - doe div 146096) div 365;
        doy = doe - (365 * yoe + yoe div 4 - yoe div 100);
        mp = (5 * doy + 2) div 153;
        d = doy - (153 * mp + 2) div 5 + 1;
        m = (if mp < 10 then mp + 3 else mp - 9);
        y = yoe + era * 400 + (if m \<le> 2 then 1 else 0)
      in (y, m, d))"

definition pad :: "nat \<Rightarrow> int \<Rightarrow> string" where
  "pad n i = (let s = py_str i in replicate (n - length s) CHR ''0'' @ s)"

definition time_of_day :: "int \<Rightarrow> string" where
  "time_of_day t = (let s = t mod 86400 in pad 2 (s div 3600) @ '':'' @ pad 2 (s mod 3600 div 60) @ '':'' @ pad 2 (s mod 60))"

definition iso_date :: "int \<Rightarrow> string" where
  "iso_date t = (case civil_from_days (t div 86400) of (y, m, d) \<Rightarrow> pad 4 y @ ''-'' @ pad 2 m @ ''-'' @ pad 2 d)"

definition isoformat :: "int \<Rightarrow> string" where
  "isoformat t = iso_date t @ ''T'' @ time_of_day t @ ''+00:00''"

definition day_names :: "string list" where
  "day_names = [''Mon'', ''Tue'', ''Wed'', ''Thu'', ''Fri'', ''Sat'', ''Sun'']"

definition month_names :: "string list" where
  "month_names = [''Jan'', ''Feb'', ''Mar'', ''Apr'', ''May'', ''Jun'', ''Jul'', ''Aug'', ''Sep'', ''Oct'', ''Nov'', ''Dec'']"

text \<open>\<open>strftime("%a, %d %b %Y %H:%M:%S GMT")\<close>; day 0 was a Thursday.\<close>

definition http_date :: "int \<Rightarrow> string" where
  "http_date t = (case civil_from_days (t div 86400) of (y, m, d) \<Rightarrow>
     day_names ! nat ((t div 86400 + 3) mod 7) @ '', '' @ pad 2 d @ '' '' @ month_names ! nat (m - 1) @ '' '' @ pad 4 y @ '' '' @ time_of_day t @ '' GMT'')"

text \<open>\<open>str(value)\<close>, \<open>str(value).lower()\<close> of a boolean, and \<open>isoformat()\<close> where there is one.\<close>

fun py_format :: "pyval \<Rightarrow> string" where
  "py_format (VStr s) = s"
| "py_format (VInt i) = py_str i"
| "py_format (VBool b) = (if b then ''True'' else ''False'')"
| "py_format VNone = ''None''"
| "py_format (VTime t) = iso_date t @ '' '' @ time_of_day t @ ''+00:00''"
| "py_format _ = ''<object>''"

definition lower :: "string \<Rightarrow> string" where
  "lower s = map (\<lambda>c. if 65 \<le> (of_char c :: nat) \<and> of_char c \<le> (90 :: nat) then char_of (of_char c + 32 :: nat) else c) s"

definition format_lower_bool :: "pyval \<Rightarrow> string" where
  "format_lower_bool v = (case v of VBool b \<Rightarrow> (if b then ''true'' else ''false'') | _ \<Rightarrow> py_format v)"

definition format_time :: "pyval \<Rightarrow> string" where
  "format_time v = (case v of VTime t \<Rightarrow> isoformat t | _ \<Rightarrow> py_format v)"

text \<open>\<open>d[k]\<close> on a dictionary.\<close>

definition item :: "pdict \<Rightarrow> string \<Rightarrow> pyexc + pyval" where
  "item d k = (case map_of d k of None \<Rightarrow> Inl (PyKeyError k) | Some v \<Rightarrow> Inr v)"

lemma item_Some [simp]: "map_of d k = Some v \<Longrightarrow> item d k = Inr v"
  by (simp add: item_def)

fun emap :: "('a \<Rightarrow> 'e + 'b) \<Rightarrow> 'a list \<Rightarrow> 'e + 'b list" where
  "emap f [] = Inr []"
| "emap f (x # xs) = ebind (f x) (\<lambda>y. ebind (emap f xs) (\<lambda>ys. Inr (y # ys)))"

lemma emap_Inr: "(\<And>x. x \<in> set xs \<Longrightarrow> f x = Inr (g x)) \<Longrightarrow> emap f xs = Inr (map g xs)"
  by (induction xs) auto

section \<open>Builders\<close>

definition xml_declaration :: string where
  "xml_declaration = ''<?xml version=\"1.0\" encoding=\"UTF-8\"?>''"

definition S3_NS :: string where
  "S3_NS = '' xmlns=\"http://s3.amazonaws.com/doc/2006-03-01/\"''"

definition elem_text :: "string \<Rightarrow> string \<Rightarrow> string" where
  "elem_text t v = ''<'' @ t @ ''>'' @ v @ ''</'' @ t @ ''>''"

definition indent :: "nat \<Rightarrow> string \<Rightarrow> string" where
  "indent n s = replicate n CHR '' '' @ s"

definition list_buckets_xml :: "int \<Rightarrow> pdict list \<Rightarrow> pyexc + string" where
  "list_buckets_xml now buckets =
     ebind (emap (\<lambda>b. ebind (item b ''Name'') (\<lambda>name.
         Inr (indent 4 (elem_text ''Bucket'' (elem_text ''Name'' (py_format name) @
           elem_text ''CreationDate'' (py_format (get_default b ''CreationDate'' (VStr (isoformat now))))))))) buckets)
       (\<lambda>entries. Inr (join newline [xml_declaration, ''<ListAllMyBucketsResult>'', ''  <Buckets>'', join newline entries,
         ''  </Buckets>'', ''</ListAllMyBucketsResult>'']))"

definition create_bucket_xml :: "string \<Rightarrow> string" where
  "create_bucket_xml location = join newline [xml_declaration, ''<CreateBucketConfiguration>'',
     indent 2 (elem_text ''LocationConstraint'' location), ''</CreateBucketConfiguration>'']"

definition error_lines :: "pdict \<Rightarrow> pyexc + string list" where
  "error_lines err =
     ebind (item err ''Key'') (\<lambda>k. ebind (item err ''Code'') (\<lambda>c. ebind (item err ''Message'') (\<lambda>m.
       Inr [''  <Error>'', indent 4 (elem_text ''Key'' (py_format k)), indent 4 (elem_text ''Code'' (py_format c)),
         indent 4 (elem_text ''Message'' (py_format m)), ''  </Error>''])))"

definition delete_result_xml :: "pyval list \<Rightarrow> pdict list \<Rightarrow> pyexc + string" where
  "delete_result_xml deleted_keys errors =
     ebind (emap error_lines errors) (\<lambda>ls.
       Inr (join newline ([xml_declaration, ''<DeleteResult>''] @
         map (\<lambda>key. indent 2 (elem_text ''Deleted'' (elem_text ''Key'' (py_format key)))) deleted_keys @ concat ls @ [''</DeleteResult>''])))"

definition get_object_tagging_xml :: "pdict \<Rightarrow> string" where
  "get_object_tagging_xml response =
     join newline ([xml_declaration, ''<Tagging>'', ''  <TagSet>''] @
       concat (map (\<lambda>t. [''    <Tag>'', indent 6 (elem_text ''Key'' (py_format (get_default (as_dict t) ''Key'' (VStr [])))),
         indent 6 (elem_text ''Value'' (py_format (get_default (as_dict t) ''Value'' (VStr [])))), ''    </Tag>''])
         (as_list (get_default response ''TagSet'' (VList [])))) @
       [''  </TagSet>'', ''</Tagging>''])"

text \<open>The lines for those of the given keys that the response has, and for one entry of \<open>Contents\<close>.\<close>

definition present_lines :: "string list \<Rightarrow> pdict \<Rightarrow> string list" where
  "present_lines keys response = concat (map (\<lambda>k. case map_of response k of
     None \<Rightarrow> [] | Some v \<Rightarrow> [indent 2 (elem_text k (format_lower_bool v))]) keys)"

definition optional_line :: "nat \<Rightarrow> string \<Rightarrow> (pyval \<Rightarrow> string) \<Rightarrow> pdict \<Rightarrow> string list" where
  "optional_line n k f d = (case map_of d k of None \<Rightarrow> [] | Some v \<Rightarrow> [indent n (elem_text k (f v))])"

definition contents_lines :: "pdict \<Rightarrow> pyexc + string list" where
  "contents_lines obj =
     ebind (item obj ''Key'') (\<lambda>k. Inr ([''  <Contents>'', indent 4 (elem_text ''Key'' (py_format k))] @
       optional_line 4 ''LastModified'' format_time obj @ optional_line 4 ''ETag'' py_format obj @
       optional_line 4 ''Size'' py_format obj @ optional_line 4 ''StorageClass'' py_format obj @ [''  </Contents>'']))"

definition listing_xml :: "string list \<Rightarrow> string \<Rightarrow> pdict \<Rightarrow> pyexc + string" where
  "listing_xml keys bucket response =
     ebind (emap (\<lambda>obj. contents_lines (as_dict obj)) (as_list (get_default response ''Contents'' (VList [])))) (\<lambda>ls.
       Inr (join newline ([xml_declaration, ''<ListBucketResult'' @ S3_NS @ ''>'', indent 2 (elem_text ''Name'' bucket)] @
         present_lines keys response @ concat ls @ [''</ListBucketResult>''])))"

definition list_objects_xml :: "string \<Rightarrow> pdict \<Rightarrow> pyexc + string" where
  "list_objects_xml = listing_xml [''Prefix'', ''Marker'', ''MaxKeys'', ''IsTruncated'', ''NextMarker'']"

definition list_objects_v2_xml :: "string \<Rightarrow> pdict \<Rightarrow> pyexc + string" where
  "list_objects_v2_xml = listing_xml [''Prefix'', ''KeyCount'', ''MaxKeys'', ''IsTruncated'', ''ContinuationToken'', ''NextContinuationToken'']"

definition create_multipart_upload_xml :: "string \<Rightarrow> string \<Rightarrow> string \<Rightarrow> string" where
  "create_multipart_upload_xml bucket key upload_id =
     join newline [xml_declaration, ''<InitiateMultipartUploadResult'' @ S3_NS @ ''>'', indent 2 (elem_text ''Bucket'' bucket),
       indent 2 (elem_text ''Key'' key), indent 2 (elem_text ''UploadId'' upload_id), ''</InitiateMultipartUploadResult>'']"

definition complete_multipart_upload_xml :: "string \<Rightarrow> string \<Rightarrow> string \<Rightarrow> string \<Rightarrow> string" where
  "complete_multipart_upload_xml bucket key etag location =
     join newline [xml_declaration, ''<CompleteMultipartUploadResult'' @ S3_NS @ ''>'', indent 2 (elem_text ''Location'' location),
       indent 2 (elem_text ''Bucket'' bucket), indent 2 (elem_text ''Key'' key), indent 2 (elem_text ''ETag'' etag),
       ''</CompleteMultipartUploadResult>'']"

definition copy_object_result_xml :: "pdict \<Rightarrow> string" where
  "copy_object_result_xml result =
     join newline [xml_declaration, ''<CopyObjectResult>'',
       indent 2 (elem_text ''LastModified'' (format_time (get_default result ''LastModified'' (VStr [])))),
       indent 2 (elem_text ''ETag'' (py_format (get_default result ''ETag'' (VStr [])))), ''</CopyObjectResult>'']"

section \<open>The lifecycle configuration as a document\<close>

definition tag_xml :: "pdict \<Rightarrow> pyexc + string" where
  "tag_xml t = ebind (item t ''Key'') (\<lambda>k. ebind (item t ''Value'') (\<lambda>v.
     Inr (elem_text ''Tag'' (elem_text ''Key'' (py_format k) @ elem_text ''Value'' (py_format v)))))"

text \<open>A group \<open><t> ... </t>\<close> at indentation 4, for a dictionary or for each of a list.\<close>

definition group_lines :: "string \<Rightarrow> string list \<Rightarrow> string list" where
  "group_lines t ls = [indent 4 (''<'' @ t @ ''>'')] @ ls @ [indent 4 (''</'' @ t @ ''>'')]"

definition filter_lines :: "pdict \<Rightarrow> pyexc + string list" where
  "filter_lines filt =
     ebind (if has_key filt ''Prefix'' then Inr (optional_line 6 ''Prefix'' py_format filt)
            else case map_of filt ''And'' of
              Some av \<Rightarrow>
                ebind (emap (\<lambda>t. tag_xml (as_dict t)) (as_list (get_default (as_dict av) ''Tags'' (VList [])))) (\<lambda>ts.
                  Inr ([indent 6 ''<And>''] @ optional_line 8 ''Prefix'' py_format (as_dict av) @ map (indent 8) ts @ [indent 6 ''</And>'']))
            | None \<Rightarrow>
                (case map_of filt ''Tag'' of
                   Some t \<Rightarrow> ebind (tag_xml (as_dict t)) (\<lambda>x. Inr [indent 6 x])
                 | None \<Rightarrow> Inr []))
       (\<lambda>ls. Inr (group_lines ''Filter'' ls))"

definition expiration_lines :: "pdict \<Rightarrow> string list" where
  "expiration_lines exp = optional_line 6 ''Days'' py_format exp @ optional_line 6 ''Date'' py_format exp @
     optional_line 6 ''ExpiredObjectDeleteMarker'' (\<lambda>v. lower (py_format v)) exp"

definition transition_lines :: "pdict \<Rightarrow> string list" where
  "transition_lines tr = optional_line 6 ''Days'' py_format tr @ optional_line 6 ''Date'' py_format tr @
     optional_line 6 ''StorageClass'' py_format tr"

definition nvt_lines :: "pdict \<Rightarrow> string list" where
  "nvt_lines nvt = optional_line 6 ''NoncurrentDays'' py_format nvt @ optional_line 6 ''StorageClass'' py_format nvt"

definition optional_group :: "string \<Rightarrow> (pdict \<Rightarrow> string list) \<Rightarrow> pdict \<Rightarrow> string list" where
  "optional_group k f rule = (case map_of rule k of None \<Rightarrow> [] | Some v \<Rightarrow> group_lines k (f (as_dict v)))"

definition list_groups :: "string \<Rightarrow> string \<Rightarrow> (pdict \<Rightarrow> string list) \<Rightarrow> pdict \<Rightarrow> string list" where
  "list_groups k t f rule = concat (map (\<lambda>v. group_lines t (f (as_dict v))) (as_list (get_default rule k (VList []))))"

definition rule_lines :: "pdict \<Rightarrow> pyexc + string list" where
  "rule_lines rule =
     ebind (case map_of rule ''Filter'' of None \<Rightarrow> Inr [] | Some f \<Rightarrow> filter_lines (as_dict f)) (\<lambda>fls.
       Inr ([''  <Rule>''] @ optional_line 4 ''ID'' py_format rule @ optional_line 4 ''Prefix'' py_format rule @
         optional_line 4 ''Status'' py_format rule @ fls @
         optional_group ''Expiration'' expiration_lines rule @
         list_groups ''Transitions'' ''Transition'' transition_lines rule @
         optional_group ''NoncurrentVersionExpiration'' (optional_line 6 ''NoncurrentDays'' py_format) rule @
         list_groups ''NoncurrentVersionTransitions'' ''NoncurrentVersionTransition'' nvt_lines rule @
         optional_group ''AbortIncompleteMultipartUpload'' (optional_line 6 ''DaysAfterInitiation'' py_format) rule @
         [''  </Rule>'']))"

definition get_bucket_lifecycle_xml :: "pdict \<Rightarrow> pyexc + string" where
  "get_bucket_lifecycle_xml response =
     ebind (emap (\<lambda>r. rule_lines (as_dict r)) (as_list (get_default response ''Rules'' (VList [])))) (\<lambda>ls.
       Inr (join newline ([xml_declaration, ''<LifecycleConfiguration>''] @ concat ls @ [''</LifecycleConfiguration>''])))"

section \<open>Parsers\<close>

datatype xml_node = XNode (xtag: string) (xtext: "string option") (xchildren: "xml_node list")

text \<open>\<open>clean_tag\<close>: the part of the tag after its last closing brace.\<close>

definition clean_tag :: "string \<Rightarrow> string" where
  "clean_tag t = rev (takeWhile (\<lambda>c. c \<noteq> CHR ''}'') (rev t))"

definition text_or_empty :: "xml_node \<Rightarrow> string" where
  "text_or_empty n = (case xtext n of None \<Rightarrow> [] | Some t \<Rightarrow> t)"

definition text_val :: "xml_node \<Rightarrow> pyval" where
  "text_val n = (case xtext n of None \<Rightarrow> VNone | Some t \<Rightarrow> VStr t)"

text \<open>\<open>int(child.text or 0)\<close>.\<close>

definition int_text :: "xml_node \<Rightarrow> pyexc + pyval" where
  "int_text n = (if text_or_empty n = [] then Inr (VInt 0)
     else case py_int (text_or_empty n) of Some i \<Rightarrow> Inr (VInt i) | None \<Rightarrow> Inl (PyValueError (text_or_empty n)))"

text \<open>A loop over the children that fills a dictionary: what a child contributes is an entry, or nothing.\<close>

fun collect_children :: "(string \<Rightarrow> xml_node \<Rightarrow> pyexc + (string \<times> pyval) option) \<Rightarrow> xml_node list \<Rightarrow> pdict \<Rightarrow> pyexc + pdict" where
  "collect_children f [] d = Inr d"
| "collect_children f (n # ns) d =
     ebind (f (clean_tag (xtag n)) n) (\<lambda>r. collect_children f ns (case r of None \<Rightarrow> d | Some (k, v) \<Rightarrow> AList.update k v d))"

definition parse_tag :: "xml_node \<Rightarrow> pyval" where
  "parse_tag n = (case fold (\<lambda>c (k, v). if clean_tag (xtag c) = ''Key'' then (text_or_empty c, v)
       else if clean_tag (xtag c) = ''Value'' then (k, text_or_empty c) else (k, v)) (xchildren n) ([], []) of
     (k, v) \<Rightarrow> VDict [(''Key'', VStr k), (''Value'', VStr v)])"

definition parse_and :: "xml_node \<Rightarrow> pyval" where
  "parse_and n =
     (let (d, ts) = fold (\<lambda>c (d, ts).
          if clean_tag (xtag c) = ''Prefix'' then (AList.update ''Prefix'' (VStr (text_or_empty c)) d, ts)
          else if clean_tag (xtag c) = ''Tag'' then (d, ts @ [parse_tag c]) else (d, ts)) (xchildren n) ([], [])
      in VDict (if ts \<noteq> [] then AList.update ''Tags'' (VList ts) d else d))"

definition filter_entry :: "string \<Rightarrow> xml_node \<Rightarrow> pyexc + (string \<times> pyval) option" where
  "filter_entry t n =
     Inr (if t = ''Prefix'' then Some (''Prefix'', VStr (text_or_empty n))
          else if t = ''Tag'' then Some (''Tag'', parse_tag n)
          else if t = ''And'' then Some (''And'', parse_and n) else None)"

definition int_entry :: "string \<Rightarrow> xml_node \<Rightarrow> pyexc + (string \<times> pyval) option" where
  "int_entry k n = ebind (int_text n) (\<lambda>v. Inr (Some (k, v)))"

definition expiration_entry :: "string \<Rightarrow> xml_node \<Rightarrow> pyexc + (string \<times> pyval) option" where
  "expiration_entry t n =
     (if t = ''Days'' then int_entry t n
      else if t = ''Date'' then Inr (Some (t, text_val n))
      else if t = ''ExpiredObjectDeleteMarker'' then Inr (Some (t, VBool (lower (text_or_empty n) = ''true'')))
      else Inr None)"

definition transition_entry :: "string \<Rightarrow> xml_node \<Rightarrow> pyexc + (string \<times> pyval) option" where
  "transition_entry t n =
     (if t = ''Days'' then int_entry t n
      else if t = ''Date'' \<or> t = ''StorageClass'' then Inr (Some (t, text_val n)) else Inr None)"

definition nve_entry :: "string \<Rightarrow> xml_node \<Rightarrow> pyexc + (string \<times> pyval) option" where
  "nve_entry t n = (if t = ''NoncurrentDays'' then int_entry t n else Inr None)"

definition nvt_entry :: "string \<Rightarrow> xml_node \<Rightarrow> pyexc + (string \<times> pyval) option" where
  "nvt_entry t n = (if t = ''NoncurrentDays'' then int_entry t n
     else if t = ''StorageClass'' then Inr (Some (t, text_val n)) else Inr None)"

definition abort_entry :: "string \<Rightarrow> xml_node \<Rightarrow> pyexc + (string \<times> pyval) option" where
  "abort_entry t n = (if t = ''DaysAfterInitiation'' then int_entry t n else Inr None)"

definition sub_dict :: "(string \<Rightarrow> xml_node \<Rightarrow> pyexc + (string \<times> pyval) option) \<Rightarrow> xml_node \<Rightarrow> pyexc + pyval" where
  "sub_dict f n = ebind (collect_children f (xchildren n) []) (\<lambda>d. Inr (VDict d))"

text \<open>The loop over the children of a rule: the rule, the transitions and the noncurrent transitions.\<close>

fun parse_rule_children :: "xml_node list \<Rightarrow> pdict \<times> pyval list \<times> pyval list \<Rightarrow> pyexc + pdict \<times> pyval list \<times> pyval list" where
  "parse_rule_children [] s = Inr s"
| "parse_rule_children (n # ns) (rule, ts, nts) =
     (let t = clean_tag (xtag n); put = (\<lambda>v. parse_rule_children ns (AList.update t v rule, ts, nts)) in
      if t = ''ID'' \<or> t = ''Status'' then put (text_val n)
      else if t = ''Prefix'' then put (VStr (text_or_empty n))
      else if t = ''Filter'' then ebind (sub_dict filter_entry n) put
      else if t = ''Expiration'' then ebind (sub_dict expiration_entry n) put
      else if t = ''Transition'' then ebind (sub_dict transition_entry n) (\<lambda>v. parse_rule_children ns (rule, ts @ [v], nts))
      else if t = ''NoncurrentVersionExpiration'' then ebind (sub_dict nve_entry n) put
      else if t = ''NoncurrentVersionTransition'' then ebind (sub_dict nvt_entry n) (\<lambda>v. parse_rule_children ns (rule, ts, nts @ [v]))
      else if t = ''AbortIncompleteMultipartUpload'' then ebind (sub_dict abort_entry n) put
      else parse_rule_children ns (rule, ts, nts))"

definition parse_rule :: "xml_node \<Rightarrow> pyexc + pyval" where
  "parse_rule n =
     ebind (parse_rule_children (xchildren n) ([], [], [])) (\<lambda>(rule, ts, nts).
       let rule = (if ts \<noteq> [] then AList.update ''Transitions'' (VList ts) rule else rule);
           rule = (if nts \<noteq> [] then AList.update ''NoncurrentVersionTransitions'' (VList nts) rule else rule)
       in Inr (VDict rule))"

definition parse_lifecycle_configuration_xml :: "(bytes \<Rightarrow> pyexc + xml_node) \<Rightarrow> bytes \<Rightarrow> pyexc + pdict" where
  "parse_lifecycle_configuration_xml fromstring body =
     ebind (fromstring body) (\<lambda>root.
       ebind (emap parse_rule (filter (\<lambda>n. clean_tag (xtag n) = ''Rule'') (xchildren root))) (\<lambda>rules.
         Inr [(''Rules'', VList rules)]))"

end
