(* ===== verification/Streaming.thy ===== *)
theory Streaming
  imports Errors
begin

text \<open>
  The body readers of \<open>src/s3mer/common/streaming.py\<close>: \<open>BufferedStreamReader\<close> (replay buffer for
  write fallback), \<open>ASGIStreamReader\<close>, \<open>AsyncBytesReader\<close>, \<open>ConcurrentFileStream\<close> and
  \<open>MultiSyncBodyBuffer\<close>.  (The aws-chunked decoder has its own theory, \<open>Chunked_Decoder\<close>.)

  An arbitrary \<open>AsyncIterator[bytes]\<close> is the list of chunks it will still yield.  \<open>receive\<close>, the
  server's side of ASGI, is the list of messages it will still deliver; awaiting it when none is
  left never returns, which is the result \<open>None\<close>.  Temporary files are their contents with a
  position.

  The locale \<open>chunk_source\<close> is the contract that \<open>async for chunk in body\<close> relies on, with the
  lemma that such a loop ends and collects exactly the remaining bytes; each reader is an
  interpretation of it.
\<close>

section \<open>Configuration\<close>

record StreamConfig =
  sc_chunk_size :: int
  sc_max_memory_size :: int
  sc_buffer_dir :: "string option"

definition DEFAULT_CHUNK_SIZE :: int where "DEFAULT_CHUNK_SIZE = 65536"
definition DEFAULT_MAX_MEMORY_STREAM_BUFFER_SIZE :: int where
  "DEFAULT_MAX_MEMORY_STREAM_BUFFER_SIZE = 10 * 1024 * 1024"

definition stream_config_defaults :: StreamConfig where
  "stream_config_defaults = \<lparr>sc_chunk_size = DEFAULT_CHUNK_SIZE,
     sc_max_memory_size = DEFAULT_MAX_MEMORY_STREAM_BUFFER_SIZE, sc_buffer_dir = None\<rparr>"

section \<open>Draining a reader\<close>

text \<open>\<open>async for\<close>: ask for chunks until an empty one ends the iteration.\<close>

partial_function (option) drain :: "('s \<Rightarrow> (bytes \<times> 's) option) \<Rightarrow> 's \<Rightarrow> (bytes list \<times> 's) option" where
  "drain rd s =
     Option.bind (rd s) (\<lambda>r. if fst r = [] then Some ([], snd r)
       else Option.bind (drain rd (snd r)) (\<lambda>t. Some (fst r # fst t, snd t)))"

declare drain.simps [code]

section \<open>BufferedStreamReader\<close>

text \<open>A \<open>SpooledTemporaryFile\<close>: contents, position and whether it has been closed.\<close>

record spool =
  f_data :: bytes
  f_pos :: nat
  f_closed :: bool

definition spool_read :: "int \<Rightarrow> spool \<Rightarrow> bytes \<times> spool" where
  "spool_read n f =
     (let chunk = (if n < 0 then drop (f_pos f) (f_data f) else take (nat n) (drop (f_pos f) (f_data f)))
      in (chunk, f\<lparr>f_pos := f_pos f + length chunk\<rparr>))"

text \<open>Writing at the position overwrites; a gap left by an earlier seek is filled with zero bytes.\<close>

definition spool_write :: "bytes \<Rightarrow> spool \<Rightarrow> spool" where
  "spool_write b f =
     f\<lparr>f_data := take (f_pos f) (f_data f @ replicate (f_pos f - length (f_data f)) CHR 0x00) @ b @
                 drop (f_pos f + length b) (f_data f),
       f_pos := f_pos f + length b\<rparr>"

definition spool_seek :: "int \<Rightarrow> int \<Rightarrow> spool \<Rightarrow> pyexc + (int \<times> spool)" where
  "spool_seek offset whence f =
     (let base = (if whence = 0 then 0 else if whence = 1 then int (f_pos f) else int (length (f_data f)));
        p = base + offset
      in if whence \<notin> {0, 1, 2} \<or> p < 0 then Inl (PyValueError ''invalid seek'')
         else Inr (p, f\<lparr>f_pos := nat p\<rparr>))"

record BufferedStreamReader =
  source :: "bytes list" \<comment> \<open>chunks the wrapped reader will still yield\<close>
  tmp_file :: spool
  read_from_tmp :: bool
  eof_reached :: bool
  bsr_chunk_size :: int

definition new_buffered :: "bytes list \<Rightarrow> StreamConfig \<Rightarrow> BufferedStreamReader" where
  "new_buffered chunks cfg =
     \<lparr>source = chunks, tmp_file = \<lparr>f_data = [], f_pos = 0, f_closed = False\<rparr>,
      read_from_tmp = False, eof_reached = False, bsr_chunk_size = sc_chunk_size cfg\<rparr>"

definition seek_to_start :: "BufferedStreamReader \<Rightarrow> BufferedStreamReader" where
  "seek_to_start r =
     (let r = (if read_from_tmp r then r else r\<lparr>read_from_tmp := True\<rparr>)
      in r\<lparr>tmp_file := (tmp_file r)\<lparr>f_pos := 0\<rparr>\<rparr>)"

definition bsr_seek :: "int \<Rightarrow> int \<Rightarrow> BufferedStreamReader \<Rightarrow> pyexc + (int \<times> BufferedStreamReader)" where
  "bsr_seek offset whence r =
     (if offset = 0 \<and> whence = 0 then Inr (0, seek_to_start r)
      else ebind (spool_seek offset whence (tmp_file r))
             (\<lambda>(p, f). Inr (p, r\<lparr>tmp_file := f\<rparr>)))"

text \<open>The live half of \<open>read\<close>: pull one chunk from the wrapped reader and keep a copy.\<close>

definition bsr_read_live :: "BufferedStreamReader \<Rightarrow> bytes \<times> BufferedStreamReader" where
  "bsr_read_live r =
     (if eof_reached r then ([], r)
      else (case source r of
          [] \<Rightarrow> ([], r\<lparr>eof_reached := True\<rparr>)
        | chunk # rest \<Rightarrow> (chunk, r\<lparr>source := rest, tmp_file := spool_write chunk (tmp_file r)\<rparr>)))"

definition bsr_read :: "int \<Rightarrow> BufferedStreamReader \<Rightarrow> bytes \<times> BufferedStreamReader" where
  "bsr_read n r =
     (if read_from_tmp r then
        (let (chunk, f) = spool_read n (tmp_file r); r = r\<lparr>tmp_file := f\<rparr> in
         if chunk \<noteq> [] then (chunk, r)
         else if \<not> eof_reached r then bsr_read_live (r\<lparr>read_from_tmp := False\<rparr>)
         else ([], r))
      else bsr_read_live r)"

definition bsr_anext :: "BufferedStreamReader \<Rightarrow> (bytes \<times> BufferedStreamReader) option" where
  "bsr_anext r = Some (bsr_read (bsr_chunk_size r) r)"

definition bsr_close :: "BufferedStreamReader \<Rightarrow> BufferedStreamReader" where
  "bsr_close r = r\<lparr>tmp_file := (tmp_file r)\<lparr>f_closed := True\<rparr>\<rparr>"

definition bsr_tell :: "BufferedStreamReader \<Rightarrow> nat" where
  "bsr_tell r = f_pos (tmp_file r)"

section \<open>ASGIStreamReader\<close>

datatype asgi_msg =
    HttpRequest "bytes option" "bool option" \<comment> \<open>\<open>body\<close> and \<open>more_body\<close>, if present\<close>
  | HttpDisconnect
  | OtherMessage string

definition msg_body :: "bytes option \<Rightarrow> bytes" where
  "msg_body b = (case b of None \<Rightarrow> [] | Some x \<Rightarrow> x)"

definition msg_more :: "bool option \<Rightarrow> bool" where
  "msg_more m = (case m of None \<Rightarrow> False | Some x \<Rightarrow> x)"

record ASGIStreamReader =
  receive_queue :: "asgi_msg list"
  asgi_buffer :: bytes
  asgi_more_body :: bool
  asgi_chunk_size :: int
  on_read_calls :: "nat list" \<comment> \<open>arguments of the \<open>on_read\<close> calls made so far\<close>

definition new_asgi :: "asgi_msg list \<Rightarrow> int \<Rightarrow> ASGIStreamReader" where
  "new_asgi q cs = \<lparr>receive_queue = q, asgi_buffer = [], asgi_more_body = True,
     asgi_chunk_size = cs, on_read_calls = []\<rparr>"

text \<open>The two \<open>receive\<close> loops of \<open>read\<close>: until the body ends, and until \<open>n\<close> bytes are there.\<close>

fun asgi_fill_all :: "asgi_msg list \<Rightarrow> bytes \<Rightarrow> bool \<Rightarrow> (asgi_msg list \<times> bytes) option" where
  "asgi_fill_all q buf go =
     (if \<not> go then Some (q, buf)
      else (case q of
          [] \<Rightarrow> None
        | HttpRequest b m # q' \<Rightarrow> asgi_fill_all q' (buf @ msg_body b) (msg_more m)
        | HttpDisconnect # q' \<Rightarrow> Some (q', buf)
        | OtherMessage t # q' \<Rightarrow> asgi_fill_all q' buf go))"

fun asgi_fill :: "int \<Rightarrow> asgi_msg list \<Rightarrow> bytes \<Rightarrow> bool \<Rightarrow> (asgi_msg list \<times> bytes \<times> bool) option" where
  "asgi_fill n q buf go =
     (if int (length buf) < n \<and> go then
        (case q of
          [] \<Rightarrow> None
        | HttpRequest b m # q' \<Rightarrow> asgi_fill n q' (buf @ msg_body b) (msg_more m)
        | HttpDisconnect # q' \<Rightarrow> Some (q', buf, False)
        | OtherMessage t # q' \<Rightarrow> asgi_fill n q' buf go)
      else Some (q, buf, go))"

declare asgi_fill_all.simps [simp del] asgi_fill.simps [simp del]

definition asgi_read :: "int \<Rightarrow> ASGIStreamReader \<Rightarrow> (bytes \<times> ASGIStreamReader) option" where
  "asgi_read n r =
     (if n = -1 then
        (case asgi_fill_all (receive_queue r) (asgi_buffer r) (asgi_more_body r) of
           None \<Rightarrow> None
         | Some (q, result) \<Rightarrow>
             Some (result, r\<lparr>receive_queue := q, asgi_buffer := [], asgi_more_body := False,
               on_read_calls := on_read_calls r @ [length result]\<rparr>))
      else
        (case asgi_fill n (receive_queue r) (asgi_buffer r) (asgi_more_body r) of
           None \<Rightarrow> None
         | Some (q, buf, go) \<Rightarrow>
             (let chunk = slice_to buf n in
              Some (chunk, r\<lparr>receive_queue := q, asgi_buffer := del_to buf n, asgi_more_body := go,
                on_read_calls := on_read_calls r @ [length chunk]\<rparr>))))"

definition asgi_anext :: "ASGIStreamReader \<Rightarrow> (bytes \<times> ASGIStreamReader) option" where
  "asgi_anext r = asgi_read (asgi_chunk_size r) r"

section \<open>AsyncBytesReader and ConcurrentFileStream\<close>

text \<open>The callers pass a chunk size or \<open>-1\<close>, so the offset never becomes negative.\<close>

record AsyncBytesReader =
  abr_data :: bytes
  abr_offset :: nat
  abr_chunk_size :: int

definition abr_read :: "int \<Rightarrow> AsyncBytesReader \<Rightarrow> bytes \<times> AsyncBytesReader" where
  "abr_read n r =
     (if abr_offset r \<ge> length (abr_data r) then ([], r)
      else if n = -1 then
        (drop (abr_offset r) (abr_data r), r\<lparr>abr_offset := length (abr_data r)\<rparr>)
      else
        (let e = min (int (abr_offset r) + n) (int (length (abr_data r)))
         in (drop (abr_offset r) (slice_to (abr_data r) e), r\<lparr>abr_offset := nat e\<rparr>)))"

definition abr_anext :: "AsyncBytesReader \<Rightarrow> (bytes \<times> AsyncBytesReader) option" where
  "abr_anext r = Some (abr_read (abr_chunk_size r) r)"

record ConcurrentFileStream =
  cfs_content :: bytes \<comment> \<open>contents of the file at \<open>filepath\<close>\<close>
  cfs_chunk_size :: int
  cfs_file :: "nat option" \<comment> \<open>position of the open handle, \<open>None\<close> while closed\<close>

definition cfs_ensure_file :: "ConcurrentFileStream \<Rightarrow> ConcurrentFileStream" where
  "cfs_ensure_file r = (if cfs_file r = None then r\<lparr>cfs_file := Some 0\<rparr> else r)"

definition cfs_read :: "int \<Rightarrow> ConcurrentFileStream \<Rightarrow> bytes \<times> ConcurrentFileStream" where
  "cfs_read n r =
     (let r = cfs_ensure_file r;
        pos = (case cfs_file r of None \<Rightarrow> 0 | Some p \<Rightarrow> p);
        chunk = (if n < 0 then drop pos (cfs_content r) else take (nat n) (drop pos (cfs_content r)))
      in (chunk, r\<lparr>cfs_file := Some (pos + length chunk)\<rparr>))"

definition cfs_close :: "ConcurrentFileStream \<Rightarrow> ConcurrentFileStream" where
  "cfs_close r = r\<lparr>cfs_file := None\<rparr>"

text \<open>\<open>__anext__\<close>: an exhausted file is closed before \<open>StopAsyncIteration\<close> (the empty chunk).\<close>

definition cfs_anext :: "ConcurrentFileStream \<Rightarrow> bytes \<times> ConcurrentFileStream" where
  "cfs_anext r =
     (let (chunk, r) = cfs_read (cfs_chunk_size r) r in
      if chunk = [] then ([], cfs_close r) else (chunk, r))"

definition cfs_next :: "ConcurrentFileStream \<Rightarrow> (bytes \<times> ConcurrentFileStream) option" where
  "cfs_next r = Some (cfs_read (cfs_chunk_size r) r)"

section \<open>MultiSyncBodyBuffer\<close>

text \<open>A request body as the strategies find it under \<open>params["Body"]\<close>.\<close>

datatype body =
    BodyAbsent \<comment> \<open>no \<open>Body\<close> key\<close>
  | BodyNone
  | BodyBytes bytes
  | BodyStream "bytes list" \<comment> \<open>an \<open>AsyncIterator\<close> with the chunks it will yield\<close>
  | BodyBuffered BufferedStreamReader
  | BodyMem AsyncBytesReader
  | BodyFile ConcurrentFileStream

record MultiSyncBodyBuffer =
  mb_data :: "bytes option"
  mb_path :: "bytes option" \<comment> \<open>contents of the spilled temporary file, if there is one\<close>
  mb_chunk_size :: int
  mb_readers :: nat \<comment> \<open>readers opened and not yet closed\<close>

text \<open>The \<open>async for chunk in body\<close> loop of \<open>from_body\<close>, with its spill branch.\<close>

fun from_stream :: "bytes list \<Rightarrow> int \<Rightarrow> StreamConfig \<Rightarrow> bytes list \<Rightarrow> MultiSyncBodyBuffer" where
  "from_stream chunks tot cfg [] =
     \<lparr>mb_data = Some (concat chunks), mb_path = None, mb_chunk_size = sc_chunk_size cfg, mb_readers = 0\<rparr>"
| "from_stream chunks tot cfg (chunk # rest) =
     (let tot = tot + int (length chunk) in
      if tot \<le> sc_max_memory_size cfg then from_stream (chunks @ [chunk]) tot cfg rest
      else \<lparr>mb_data = None, mb_path = Some (concat chunks @ chunk @ concat rest),
            mb_chunk_size = sc_chunk_size cfg, mb_readers = 0\<rparr>)"

definition from_body :: "body \<Rightarrow> StreamConfig \<Rightarrow> MultiSyncBodyBuffer option" where
  "from_body b cfg =
     (case b of
        BodyBytes bs \<Rightarrow> Some \<lparr>mb_data = Some bs, mb_path = None, mb_chunk_size = sc_chunk_size cfg, mb_readers = 0\<rparr>
      | BodyStream chunks \<Rightarrow> Some (from_stream [] 0 cfg chunks)
      | _ \<Rightarrow> None)"

definition open_reader :: "MultiSyncBodyBuffer \<Rightarrow> pyexc + (body \<times> MultiSyncBodyBuffer)" where
  "open_reader mb =
     (case mb_data mb of
        Some d \<Rightarrow> Inr (BodyMem \<lparr>abr_data = d, abr_offset = 0, abr_chunk_size = mb_chunk_size mb\<rparr>,
                       mb\<lparr>mb_readers := mb_readers mb + 1\<rparr>)
      | None \<Rightarrow> (case mb_path mb of
            Some c \<Rightarrow> Inr (BodyFile \<lparr>cfs_content = c, cfs_chunk_size = mb_chunk_size mb, cfs_file = None\<rparr>,
                           mb\<lparr>mb_readers := mb_readers mb + 1\<rparr>)
          | None \<Rightarrow> Inl (PyRuntimeError ''MultiSyncBodyBuffer has no data'')))"

definition mb_close :: "MultiSyncBodyBuffer \<Rightarrow> MultiSyncBodyBuffer" where
  "mb_close mb = mb\<lparr>mb_readers := 0, mb_path := None\<rparr>"

section \<open>The contract of a chunk source\<close>

text \<open>
  \<open>R s b\<close> says that a reader in state \<open>s\<close> has the bytes \<open>b\<close> in front of it.  A
  \<open>prefix_source\<close> hands them out in order but may stop early; an \<open>exact_source\<close> only stops when
  there are none left; a \<open>chunk_source\<close> is an exact source whose remaining bytes are a function of
  its state.
\<close>

locale prefix_source =
  fixes rd :: "'s \<Rightarrow> (bytes \<times> 's) option"
    and R :: "'s \<Rightarrow> bytes \<Rightarrow> bool"
  assumes rd_step: "R s b \<Longrightarrow> \<exists>c s' b'. rd s = Some (c, s') \<and> R s' b' \<and> b = c @ b'"
begin

lemma drain_prefix:
  "R s b \<Longrightarrow> \<exists>cs s' s'' b'. drain rd s = Some (cs, s') \<and> R s' b' \<and> b = concat cs @ b' \<and>
     rd s'' = Some ([], s') \<and> R s'' b'"
proof (induction "length b" arbitrary: s b rule: less_induct)
  case less
  obtain c s1 b1 where r: "rd s = Some (c, s1)" "R s1 b1" "b = c @ b1"
    using rd_step [OF less.prems] by blast
  show ?case
  proof (cases "c = []")
    case True
    with r less.prems have "drain rd s = Some ([], s1)" "rd s = Some ([], s1)" "R s b1"
      by (simp_all add: drain.simps [of rd s])
    with r True show ?thesis by force
  next
    case False
    then have "length b1 < length b" by (simp add: r)
    from less.hyps [OF this r(2)] obtain cs s' s'' b' where
      "drain rd s1 = Some (cs, s')" "R s' b'" "b1 = concat cs @ b'" "rd s'' = Some ([], s')" "R s'' b'" by blast
    moreover have "drain rd s = Some (c # cs, s')" using calculation r False by (simp add: drain.simps [of rd s])
    ultimately show ?thesis using r by force
  qed
qed

end

locale exact_source = prefix_source +
  assumes rd_end: "R s b \<Longrightarrow> rd s = Some ([], s') \<Longrightarrow> b = []"
begin

lemma drain_exact:
  "R s b \<Longrightarrow> \<exists>cs s'. drain rd s = Some (cs, s') \<and> concat cs = b \<and> R s' []"
  using drain_prefix [of s b] rd_end by fastforce

end

locale chunk_source =
  fixes rd :: "'s \<Rightarrow> (bytes \<times> 's) option"
    and rest :: "'s \<Rightarrow> bytes"
    and inv :: "'s \<Rightarrow> bool"
  assumes rd_law: "inv s \<Longrightarrow> \<exists>c s'. rd s = Some (c, s') \<and> inv s' \<and> rest s = c @ rest s' \<and>
      (c = [] \<longrightarrow> rest s' = [])"

sublocale chunk_source \<subseteq> exact_source rd "\<lambda>s b. inv s \<and> b = rest s"
  by unfold_locales (use rd_law in fastforce)+

context chunk_source
begin

lemma drain_collects:
  "inv s \<Longrightarrow> \<exists>cs s'. drain rd s = Some (cs, s') \<and> inv s' \<and> concat cs = rest s \<and> rest s' = []"
  using drain_exact [of s "rest s"] by auto

end

section \<open>The readers meet the contract\<close>

subsection \<open>AsyncBytesReader\<close>

definition abr_rest :: "AsyncBytesReader \<Rightarrow> bytes" where
  "abr_rest r = drop (abr_offset r) (abr_data r)"

definition abr_inv :: "AsyncBytesReader \<Rightarrow> bool" where
  "abr_inv r \<longleftrightarrow> 0 < abr_chunk_size r"

lemma abr_read_pos:
  assumes "0 < n" and "abr_offset r < length (abr_data r)"
  shows "abr_read n r =
    (let c = take (nat n) (drop (abr_offset r) (abr_data r))
     in (c, r\<lparr>abr_offset := abr_offset r + length c\<rparr>))"
proof -
  obtain k where k: "n = int k" using assms(1) by (metis zero_less_imp_eq_int)
  have e: "min (int (abr_offset r) + n) (int (length (abr_data r))) =
      int (min (abr_offset r + k) (length (abr_data r)))" by (simp add: k)
  have "abr_offset r + length (take k (drop (abr_offset r) (abr_data r))) =
      min (abr_offset r + k) (length (abr_data r))" using assms(2) by (auto simp: min_def)
  moreover have "drop (abr_offset r) (take (min (abr_offset r + k) (length (abr_data r))) (abr_data r)) =
      take k (drop (abr_offset r) (abr_data r))" by (auto simp: drop_take min_def)
  ultimately show ?thesis using assms
    unfolding abr_read_def Let_def e slice_to_nat nat_int by (simp add: k)
qed

interpretation abr: chunk_source abr_anext abr_rest abr_inv
proof
  fix r assume inv: "abr_inv r"
  show "\<exists>c r'. abr_anext r = Some (c, r') \<and> abr_inv r' \<and> abr_rest r = c @ abr_rest r' \<and>
      (c = [] \<longrightarrow> abr_rest r' = [])"
  proof (cases "abr_offset r < length (abr_data r)")
    case True
    have "0 < nat (abr_chunk_size r)" using inv by (simp add: abr_inv_def)
    note p = take_drop_progress [OF this, of "abr_offset r" "abr_data r"]
    with True inv show ?thesis
      by (simp add: abr_anext_def abr_read_pos abr_rest_def abr_inv_def Let_def del: length_take)
  next
    case False
    with inv show ?thesis by (simp add: abr_anext_def abr_read_def abr_rest_def)
  qed
qed

subsection \<open>ConcurrentFileStream\<close>

definition cfs_rest :: "ConcurrentFileStream \<Rightarrow> bytes" where
  "cfs_rest r = drop (case cfs_file r of None \<Rightarrow> 0 | Some p \<Rightarrow> p) (cfs_content r)"

definition cfs_inv :: "ConcurrentFileStream \<Rightarrow> bool" where
  "cfs_inv r \<longleftrightarrow> 0 < cfs_chunk_size r"

interpretation cfs: chunk_source cfs_next cfs_rest cfs_inv
proof
  fix r assume inv: "cfs_inv r"
  define p where "p = (case cfs_file r of None \<Rightarrow> 0 | Some p \<Rightarrow> p)"
  have "0 < nat (cfs_chunk_size r)" using inv by (simp add: cfs_inv_def)
  note p = take_drop_progress [OF this, of p "cfs_content r"]
  have "cfs_next r = (let c = take (nat (cfs_chunk_size r)) (drop p (cfs_content r))
      in Some (c, r\<lparr>cfs_file := Some (p + length c)\<rparr>))"
    using inv by (simp add: cfs_next_def cfs_read_def cfs_ensure_file_def cfs_inv_def Let_def p_def
        split: option.split)
  with p inv show "\<exists>c r'. cfs_next r = Some (c, r') \<and> cfs_inv r' \<and> cfs_rest r = c @ cfs_rest r' \<and>
      (c = [] \<longrightarrow> cfs_rest r' = [])"
    by (simp add: cfs_rest_def cfs_inv_def Let_def p_def [symmetric] del: length_take)
qed

subsection \<open>ASGIStreamReader\<close>

text \<open>The body the server still has to deliver, and whether it will ever finish delivering it.\<close>

fun asgi_body :: "asgi_msg list \<Rightarrow> bytes" where
  "asgi_body [] = []"
| "asgi_body (HttpRequest b m # q) = msg_body b @ (if msg_more m then asgi_body q else [])"
| "asgi_body (HttpDisconnect # q) = []"
| "asgi_body (OtherMessage t # q) = asgi_body q"

fun asgi_complete :: "asgi_msg list \<Rightarrow> bool" where
  "asgi_complete [] = False"
| "asgi_complete (HttpRequest b m # q) = (msg_more m \<longrightarrow> asgi_complete q)"
| "asgi_complete (HttpDisconnect # q) = True"
| "asgi_complete (OtherMessage t # q) = asgi_complete q"

definition queue_rest :: "asgi_msg list \<Rightarrow> bool \<Rightarrow> bytes" where
  "queue_rest q go = (if go then asgi_body q else [])"

definition asgi_rest :: "ASGIStreamReader \<Rightarrow> bytes" where
  "asgi_rest r = asgi_buffer r @ queue_rest (receive_queue r) (asgi_more_body r)"

definition asgi_ok :: "ASGIStreamReader \<Rightarrow> bool" where
  "asgi_ok r \<longleftrightarrow> (asgi_more_body r \<longrightarrow> asgi_complete (receive_queue r))"

definition asgi_inv :: "ASGIStreamReader \<Rightarrow> bool" where
  "asgi_inv r \<longleftrightarrow> asgi_ok r \<and> 0 < asgi_chunk_size r"

lemma asgi_fill_law:
  "go \<longrightarrow> asgi_complete q \<Longrightarrow>
   \<exists>q' buf' go'. asgi_fill n q buf go = Some (q', buf', go') \<and>
     buf' @ queue_rest q' go' = buf @ queue_rest q go \<and> (go' \<longrightarrow> asgi_complete q') \<and>
     (n \<le> int (length buf') \<or> \<not> go')"
proof (induction q arbitrary: buf go)
  case Nil
  then show ?case by (auto simp: asgi_fill.simps [of n "[]"] queue_rest_def)
next
  case (Cons m q)
  show ?case
  proof (cases "int (length buf) < n \<and> go")
    case True
    show ?thesis
    proof (cases m)
      case (HttpRequest b mb)
      then have "asgi_fill n (m # q) buf go = asgi_fill n q (buf @ msg_body b) (msg_more mb)"
        using True by (subst asgi_fill.simps) simp
      moreover have "queue_rest (m # q) go = msg_body b @ queue_rest q (msg_more mb)"
        using True HttpRequest by (simp add: queue_rest_def)
      moreover have "msg_more mb \<longrightarrow> asgi_complete q" using Cons.prems True HttpRequest by simp
      ultimately show ?thesis using Cons.IH [of "msg_more mb" "buf @ msg_body b"] by simp
    next
      case HttpDisconnect
      then have "asgi_fill n (m # q) buf go = Some (q, buf, False)"
        using True by (subst asgi_fill.simps) simp
      then show ?thesis using HttpDisconnect by (auto simp: queue_rest_def)
    next
      case (OtherMessage t)
      then have "asgi_fill n (m # q) buf go = asgi_fill n q buf go"
        using True by (subst asgi_fill.simps) simp
      moreover have "queue_rest (m # q) go = queue_rest q go"
        using OtherMessage by (simp add: queue_rest_def)
      moreover have "go \<longrightarrow> asgi_complete q" using Cons.prems OtherMessage by simp
      ultimately show ?thesis using Cons.IH [of go buf] by simp
    qed
  next
    case False
    with Cons.prems show ?thesis by (auto simp: asgi_fill.simps [of n "m # q"])
  qed
qed

lemma asgi_read_law:
  assumes "asgi_ok r" and "0 \<le> n"
  shows "\<exists>c r'. asgi_read n r = Some (c, r') \<and> asgi_ok r' \<and> asgi_rest r = c @ asgi_rest r' \<and>
    asgi_chunk_size r' = asgi_chunk_size r \<and> int (length c) \<le> n \<and>
    (int (length c) < n \<longrightarrow> asgi_rest r' = [])"
proof -
  obtain q' buf' go' where
    f: "asgi_fill n (receive_queue r) (asgi_buffer r) (asgi_more_body r) = Some (q', buf', go')"
    and e: "buf' @ queue_rest q' go' = asgi_rest r" and c: "go' \<longrightarrow> asgi_complete q'"
    and d: "n \<le> int (length buf') \<or> \<not> go'"
    using asgi_fill_law [of "asgi_more_body r" "receive_queue r" n "asgi_buffer r"] assms(1)
    by (auto simp: asgi_ok_def asgi_rest_def)
  obtain k where k: "n = int k" using assms(2) nonneg_int_cases by blast
  have "asgi_read n r = Some (take k buf', r\<lparr>receive_queue := q', asgi_buffer := drop k buf',
      asgi_more_body := go', on_read_calls := on_read_calls r @ [length (take k buf')]\<rparr>)"
    using f k by (simp add: asgi_read_def)
  with e c d k show ?thesis
    by (auto simp: asgi_ok_def asgi_rest_def queue_rest_def simp flip: append_assoc)
qed

interpretation asgi: chunk_source asgi_anext asgi_rest asgi_inv
proof
  fix r assume inv: "asgi_inv r"
  then show "\<exists>c r'. asgi_anext r = Some (c, r') \<and> asgi_inv r' \<and> asgi_rest r = c @ asgi_rest r' \<and>
      (c = [] \<longrightarrow> asgi_rest r' = [])"
    using asgi_read_law [of r "asgi_chunk_size r"] by (auto simp: asgi_anext_def asgi_inv_def)
qed

subsection \<open>BufferedStreamReader\<close>

definition bsr_rest :: "BufferedStreamReader \<Rightarrow> bytes" where
  "bsr_rest r = drop (f_pos (tmp_file r)) (f_data (tmp_file r)) @ concat (source r)"

text \<open>Everything the wrapped stream has delivered and will deliver.\<close>

definition bsr_total :: "BufferedStreamReader \<Rightarrow> bytes" where
  "bsr_total r = f_data (tmp_file r) @ concat (source r)"

definition bsr_inv :: "BufferedStreamReader \<Rightarrow> bool" where
  "bsr_inv r \<longleftrightarrow> bsr_chunk_size r \<noteq> 0 \<and> [] \<notin> set (source r) \<and>
     f_pos (tmp_file r) \<le> length (f_data (tmp_file r)) \<and>
     (\<not> read_from_tmp r \<longrightarrow> f_pos (tmp_file r) = length (f_data (tmp_file r))) \<and>
     (eof_reached r \<longrightarrow> source r = [])"

lemma spool_write_end:
  "f_pos f = length (f_data f) \<Longrightarrow>
   spool_write b f = f\<lparr>f_data := f_data f @ b, f_pos := f_pos f + length b\<rparr>"
  by (simp add: spool_write_def)

lemma bsr_read_live_law:
  assumes "bsr_inv r" and "f_pos (tmp_file r) = length (f_data (tmp_file r))"
  shows "bsr_inv (snd (bsr_read_live r)) \<and> bsr_total (snd (bsr_read_live r)) = bsr_total r \<and>
    bsr_rest r = fst (bsr_read_live r) @ bsr_rest (snd (bsr_read_live r)) \<and>
    (fst (bsr_read_live r) = [] \<longrightarrow> bsr_rest (snd (bsr_read_live r)) = [])"
  using assms
  by (auto simp: bsr_read_live_def bsr_inv_def bsr_total_def bsr_rest_def spool_write_end split: list.splits)

lemma spool_read_law:
  assumes "n \<noteq> 0" and "f_pos f \<le> length (f_data f)"
  shows "\<exists>c. spool_read n f = (c, f\<lparr>f_pos := f_pos f + length c\<rparr>) \<and>
    drop (f_pos f) (f_data f) = c @ drop (f_pos f + length c) (f_data f) \<and>
    f_pos f + length c \<le> length (f_data f) \<and> (c = [] \<longrightarrow> f_pos f = length (f_data f))"
proof (cases "n < 0")
  case True
  then show ?thesis using assms by (simp add: spool_read_def)
next
  case False
  then have "0 < nat n" using assms by simp
  note p = take_drop_progress [OF this, of "f_pos f" "f_data f"]
  with False assms show ?thesis by (auto simp: spool_read_def Let_def simp del: length_take) auto
qed

lemma bsr_read_law:
  assumes inv: "bsr_inv r" and n: "n \<noteq> 0"
  shows "bsr_inv (snd (bsr_read n r)) \<and> bsr_total (snd (bsr_read n r)) = bsr_total r \<and>
    bsr_rest r = fst (bsr_read n r) @ bsr_rest (snd (bsr_read n r)) \<and>
    (fst (bsr_read n r) = [] \<longrightarrow> bsr_rest (snd (bsr_read n r)) = [])"
proof (cases "read_from_tmp r")
  case False
  then show ?thesis using inv bsr_read_live_law [of r] by (simp add: bsr_read_def bsr_inv_def)
next
  case True
  obtain c where c: "spool_read n (tmp_file r) = (c, (tmp_file r)\<lparr>f_pos := f_pos (tmp_file r) + length c\<rparr>)"
    "drop (f_pos (tmp_file r)) (f_data (tmp_file r)) = c @ drop (f_pos (tmp_file r) + length c) (f_data (tmp_file r))"
    "f_pos (tmp_file r) + length c \<le> length (f_data (tmp_file r))"
    "c = [] \<longrightarrow> f_pos (tmp_file r) = length (f_data (tmp_file r))"
    using spool_read_law [OF n] inv unfolding bsr_inv_def by blast
  show ?thesis
  proof (cases "c = [] \<and> \<not> eof_reached r")
    case False
    with True c inv show ?thesis
      by (auto simp: bsr_read_def bsr_inv_def bsr_total_def bsr_rest_def)
  next
    case live: True
    define r' where "r' = r\<lparr>tmp_file := (tmp_file r)\<lparr>f_pos := f_pos (tmp_file r) + length c\<rparr>,
      read_from_tmp := False\<rparr>"
    have "bsr_inv r'" "bsr_rest r' = bsr_rest r" "bsr_total r' = bsr_total r"
      "f_pos (tmp_file r') = length (f_data (tmp_file r'))"
      using inv live c by (simp_all add: r'_def bsr_inv_def bsr_rest_def bsr_total_def)
    moreover have "bsr_read n r = bsr_read_live r'"
      using True live c by (simp add: bsr_read_def r'_def)
    ultimately show ?thesis using bsr_read_live_law [of r'] by simp
  qed
qed

interpretation bsr: chunk_source bsr_anext bsr_rest bsr_inv
proof
  fix r assume inv: "bsr_inv r"
  then have "bsr_chunk_size r \<noteq> 0" by (simp add: bsr_inv_def)
  from bsr_read_law [OF inv this] show "\<exists>c r'. bsr_anext r = Some (c, r') \<and> bsr_inv r' \<and>
      bsr_rest r = c @ bsr_rest r' \<and> (c = [] \<longrightarrow> bsr_rest r' = [])"
    by (cases "bsr_read (bsr_chunk_size r) r") (simp add: bsr_anext_def)
qed

lemma seek_to_start_law:
  "bsr_inv r \<Longrightarrow> bsr_inv (seek_to_start r) \<and> bsr_rest (seek_to_start r) = bsr_total r \<and>
   bsr_total (seek_to_start r) = bsr_total r"
  by (auto simp: seek_to_start_def bsr_inv_def bsr_rest_def bsr_total_def Let_def)

text \<open>
  What a backend client may do with the body it is given: read non-empty amounts and rewind to the
  start, any number of times and in any order.
\<close>

inductive bsr_reach :: "BufferedStreamReader \<Rightarrow> BufferedStreamReader \<Rightarrow> bool" for r0 where
  start: "bsr_reach r0 r0"
| read: "bsr_reach r0 r \<Longrightarrow> n \<noteq> 0 \<Longrightarrow> bsr_reach r0 (snd (bsr_read n r))"
| rewind: "bsr_reach r0 r \<Longrightarrow> bsr_reach r0 (seek_to_start r)"

lemma bsr_reach_inv:
  "bsr_reach r0 r \<Longrightarrow> bsr_inv r0 \<Longrightarrow> bsr_inv r \<and> bsr_total r = bsr_total r0"
  by (induction rule: bsr_reach.induct) (use bsr_read_law seek_to_start_law in auto)

lemma new_buffered_inv:
  "[] \<notin> set chunks \<Longrightarrow> sc_chunk_size cfg \<noteq> 0 \<Longrightarrow>
   bsr_inv (new_buffered chunks cfg) \<and> bsr_total (new_buffered chunks cfg) = concat chunks"
  by (simp add: new_buffered_def bsr_inv_def bsr_total_def)

text \<open>
  C27. Replay of a request body.  However much of the wrapped stream earlier attempts have read,
  and however often they have rewound it, after \<open>seek_to_start\<close> the reader delivers the whole body
  again: iterating it ends and collects exactly the bytes of the original stream.
\<close>

theorem replay_delivers_whole_body:
  assumes "[] \<notin> set chunks" and "sc_chunk_size cfg \<noteq> 0"
    and "bsr_reach (new_buffered chunks cfg) r"
  shows "\<exists>cs r'. drain bsr_anext (seek_to_start r) = Some (cs, r') \<and> concat cs = concat chunks"
proof -
  have "bsr_inv r" "bsr_total r = concat chunks"
    using bsr_reach_inv [OF assms(3)] new_buffered_inv [OF assms(1,2)] by auto
  with seek_to_start_law [of r] bsr.drain_collects [of "seek_to_start r"] show ?thesis by auto
qed

theorem replay_delivers_whole_body_witness:
  "\<exists>cs r'. drain bsr_anext (seek_to_start
      (snd (bsr_read 4 (new_buffered [''abc'', ''de''] stream_config_defaults)))) = Some (cs, r') \<and>
     concat cs = ''abcde''"
proof -
  have "bsr_reach (new_buffered [''abc'', ''de''] stream_config_defaults)
      (snd (bsr_read 4 (new_buffered [''abc'', ''de''] stream_config_defaults)))"
    by (rule bsr_reach.read [OF bsr_reach.start]) simp
  from replay_delivers_whole_body [OF _ _ this] show ?thesis
    by (simp add: stream_config_defaults_def DEFAULT_CHUNK_SIZE_def)
qed

text \<open>
  Seeking inside the buffered data while the reader is live does not position the reader: the
  next \<open>read\<close> skips ahead to the next chunk of the source and writes it over the buffered bytes,
  after which a replay no longer delivers the original body.
\<close>

theorem live_seek_corrupts_replay:
  "\<exists>r1 r2. bsr_read 10 (new_buffered [''abcd'', ''xy''] stream_config_defaults) = (''abcd'', r1) \<and>
     bsr_seek 1 0 r1 = Inr (1, r2) \<and>
     fst (bsr_read 10 r2) = ''xy'' \<and>
     bsr_rest (seek_to_start (snd (bsr_read 10 r2))) = ''axyd''"
  by (simp add: new_buffered_def bsr_read_def bsr_read_live_def bsr_seek_def spool_seek_def
      spool_write_def seek_to_start_def bsr_rest_def)

section \<open>Fan-out of one body to several backends\<close>

text \<open>What a reader handed to a backend still delivers.\<close>

fun body_rest :: "body \<Rightarrow> bytes" where
  "body_rest (BodyBytes b) = b"
| "body_rest (BodyStream cs) = concat cs"
| "body_rest (BodyBuffered r) = bsr_rest r"
| "body_rest (BodyMem r) = abr_rest r"
| "body_rest (BodyFile r) = cfs_rest r"
| "body_rest _ = []"

definition mb_content :: "MultiSyncBodyBuffer \<Rightarrow> bytes" where
  "mb_content mb = (case mb_data mb of Some d \<Rightarrow> d
     | None \<Rightarrow> (case mb_path mb of Some c \<Rightarrow> c | None \<Rightarrow> []))"

definition mb_inv :: "MultiSyncBodyBuffer \<Rightarrow> bool" where
  "mb_inv mb \<longleftrightarrow> (mb_data mb = None) \<noteq> (mb_path mb = None)"

lemma mb_readers_frame [simp]:
  "mb_content (mb\<lparr>mb_readers := k\<rparr>) = mb_content mb" "mb_inv (mb\<lparr>mb_readers := k\<rparr>) = mb_inv mb"
  by (simp_all add: mb_content_def mb_inv_def split: option.split)

lemma from_stream_law:
  "mb_inv (from_stream chunks tot cfg rest) \<and>
   mb_content (from_stream chunks tot cfg rest) = concat chunks @ concat rest \<and>
   mb_chunk_size (from_stream chunks tot cfg rest) = sc_chunk_size cfg"
  by (induction rest arbitrary: chunks tot) (simp_all add: mb_inv_def mb_content_def Let_def)

lemma from_stream_in_memory:
  "tot \<le> sc_max_memory_size cfg \<Longrightarrow>
   mb_path (from_stream chunks tot cfg rest) = None \<longleftrightarrow>
     tot + int (length (concat rest)) \<le> sc_max_memory_size cfg"
  by (induction rest arbitrary: chunks tot) (auto simp: Let_def)

lemma open_reader_law:
  "mb_inv mb \<Longrightarrow> \<exists>b mb'. open_reader mb = Inr (b, mb') \<and> body_rest b = mb_content mb \<and>
     mb_inv mb' \<and> mb_content mb' = mb_content mb \<and>
     (\<exists>r. b = BodyMem r \<and> abr_chunk_size r = mb_chunk_size mb \<or>
      (\<exists>r. b = BodyFile r \<and> cfs_chunk_size r = mb_chunk_size mb))"
  by (auto simp: open_reader_def mb_inv_def mb_content_def abr_rest_def cfs_rest_def split: option.splits)



end
