(* ===== verification/Handlers.thy ===== *)
theory Handlers
  imports Classifier Xml_Documents Streaming
begin

text \<open>
  The handlers of the S3 operations and their registry: \<open>src/s3mer/handlers/objects.py\<close>,
  \<open>src/s3mer/handlers/buckets.py\<close>, \<open>src/s3mer/routing/registry.py\<close>.

  A handler gets a context and the state of the proxy, of an arbitrary type \<open>'s\<close>, and returns a
  response and the new state.  The strategies of the context are functions on that state; the
  functions \<open>ET.fromstring\<close> (on text and on bytes) and \<open>bytes.decode("utf-8")\<close> of the standard library,
  the drawing of a fresh request id and the reading of the clock belong to the context too.  Every handler has the form of one \<open>try\<close> block whose
  errors become error responses: \<open>on_write\<close> and \<open>on_read\<close> have that form.

  The values of response metadata that become headers are strings; \<open>encode()\<close> of a string is the
  string itself.
\<close>

section \<open>Contexts and responses\<close>

datatype BodyStyle = STREAM | BUFFERED | EMPTY

datatype response = Plain ASGIResponse | Streamed pdict string "(string \<times> string) list" int

record 's HandlerContext =
  ctx_operation :: S3Operation
  ctx_bucket :: string
  ctx_key :: "string option"
  ctx_read :: "S3Operation \<Rightarrow> pdict \<Rightarrow> 's \<Rightarrow> (pyexc + pdict) \<times> 's"
  ctx_write :: "S3Operation \<Rightarrow> pdict \<Rightarrow> body \<Rightarrow> bool \<Rightarrow> 's \<Rightarrow> (pyexc + pdict) \<times> 's"
  ctx_headers :: "(string \<times> string) list"
  ctx_query :: string
  ctx_body :: body
  ctx_content_length :: "int option"
  ctx_fromstring :: "string \<Rightarrow> pyexc + xml_node"
  ctx_fromstring_bytes :: "bytes \<Rightarrow> pyexc + xml_node"
  ctx_decode_utf8 :: "bytes \<Rightarrow> pyexc + string"
  ctx_fresh_id :: "'s \<Rightarrow> string \<times> 's"
  ctx_now :: "'s \<Rightarrow> int"

type_synonym 's HandlerFunc = "'s HandlerContext \<Rightarrow> 's \<Rightarrow> response \<times> 's"

definition xml_response :: "string \<Rightarrow> response" where
  "xml_response x = Plain \<lparr>content = x, status_code = 200, media_type = ''application/xml'', extra_headers = []\<rparr>"

definition empty_response :: "int \<Rightarrow> (string \<times> string) list \<Rightarrow> response" where
  "empty_response st hs = Plain \<lparr>content = [], status_code = st, media_type = ''application/xml'', extra_headers = hs\<rparr>"

text \<open>\<open>f"/{ctx.bucket}/{ctx.key}"\<close> and \<open>f"/{ctx.bucket}"\<close>.\<close>

definition object_resource :: "'s HandlerContext \<Rightarrow> string" where
  "object_resource ctx = ''/'' @ ctx_bucket ctx @ ''/'' @ (case ctx_key ctx of None \<Rightarrow> ''None'' | Some k \<Rightarrow> k)"

definition bucket_resource :: "'s HandlerContext \<Rightarrow> string" where
  "bucket_resource ctx = ''/'' @ ctx_bucket ctx"

definition fail_with :: "'s HandlerContext \<Rightarrow> string \<Rightarrow> pyexc \<Rightarrow> 's \<Rightarrow> response \<times> 's" where
  "fail_with ctx res e s = (let (rid, s) = ctx_fresh_id ctx s in (Plain (from_handler_error rid e (Some res)), s))"

definition finish_with :: "'s HandlerContext \<Rightarrow> string \<Rightarrow> (pdict \<Rightarrow> pyexc + response) \<Rightarrow> (pyexc + pdict) \<times> 's \<Rightarrow> response \<times> 's" where
  "finish_with ctx res finish rs =
     (case rs of
        (Inl e, s) \<Rightarrow> fail_with ctx res e s
      | (Inr r, s) \<Rightarrow> (case finish r of Inl e \<Rightarrow> fail_with ctx res e s | Inr resp \<Rightarrow> (resp, s)))"

definition on_write ::
  "'s HandlerContext \<Rightarrow> string \<Rightarrow> S3Operation \<Rightarrow> bool \<Rightarrow> body \<Rightarrow> pyexc + pdict \<Rightarrow> (pdict \<Rightarrow> pyexc + response) \<Rightarrow> 's \<Rightarrow> response \<times> 's" where
  "on_write ctx res op repl b params finish s =
     (case params of
        Inl e \<Rightarrow> fail_with ctx res e s
      | Inr ps \<Rightarrow> finish_with ctx res finish (ctx_write ctx op ps b repl s))"

definition on_read ::
  "'s HandlerContext \<Rightarrow> string \<Rightarrow> S3Operation \<Rightarrow> pdict \<Rightarrow> (pdict \<Rightarrow> pyexc + response) \<Rightarrow> 's \<Rightarrow> response \<times> 's" where
  "on_read ctx res op ps finish s = finish_with ctx res finish (ctx_read ctx op ps s)"

text \<open>A header for a key that the response has, and a parameter for a header that is not empty.\<close>

definition header_if :: "string \<Rightarrow> string \<Rightarrow> pdict \<Rightarrow> (string \<times> string) list" where
  "header_if k h r = (case map_of r k of None \<Rightarrow> [] | Some v \<Rightarrow> [(h, py_format v)])"

definition param_if :: "string \<Rightarrow> string \<Rightarrow> (string \<times> string) list \<Rightarrow> pdict" where
  "param_if p h hs = (case map_of hs h of None \<Rightarrow> [] | Some v \<Rightarrow> if v \<noteq> [] then [(p, VStr v)] else [])"

definition param_key :: "'s HandlerContext \<Rightarrow> pyval" where
  "param_key ctx = (case ctx_key ctx of None \<Rightarrow> VNone | Some k \<Rightarrow> VStr k)"

definition object_params :: "'s HandlerContext \<Rightarrow> pdict" where
  "object_params ctx = [(''Bucket'', VStr (ctx_bucket ctx)), (''Key'', param_key ctx)]"

definition bucket_params :: "'s HandlerContext \<Rightarrow> pdict" where
  "bucket_params ctx = [(''Bucket'', VStr (ctx_bucket ctx))]"

definition length_param :: "'s HandlerContext \<Rightarrow> pdict" where
  "length_param ctx = (case ctx_content_length ctx of None \<Rightarrow> [] | Some n \<Rightarrow> [(''ContentLength'', VInt n)])"

definition query_of :: "'s HandlerContext \<Rightarrow> (string \<times> string) list" where
  "query_of ctx = py_dict (parse_qsl (ctx_query ctx))"

definition upload_id_of :: "'s HandlerContext \<Rightarrow> pyval" where
  "upload_id_of ctx = VStr (get_default (query_of ctx) ''uploadId'' [])"

text \<open>The bytes of a buffered body.\<close>

fun body_bytes :: "body \<Rightarrow> bytes" where
  "body_bytes (BodyBytes b) = b"
| "body_bytes _ = []"

text \<open>\<open>ET.fromstring(ctx.body.decode("utf-8"))\<close>.\<close>

definition body_tree :: "'s HandlerContext \<Rightarrow> pyexc + xml_node" where
  "body_tree ctx = ebind (ctx_decode_utf8 ctx (body_bytes (ctx_body ctx))) (ctx_fromstring ctx)"

section \<open>Object handlers (objects.py)\<close>

definition is_user_meta :: "string \<Rightarrow> bool" where
  "is_user_meta k \<longleftrightarrow> take 11 (lower k) = ''x-amz-meta-''"

definition user_metadata :: "(string \<times> string) list \<Rightarrow> pdict" where
  "user_metadata hs = py_dict (map (\<lambda>(k, v). (drop 11 k, VStr v)) (filter (\<lambda>(k, v). is_user_meta k) hs))"

definition put_params :: "'s HandlerContext \<Rightarrow> pdict" where
  "put_params ctx =
     (let hs = ctx_headers ctx; um = user_metadata hs in
      object_params ctx @ [(''ContentType'', VStr (get_default hs ''content-type'' ''application/octet-stream''))] @ length_param ctx @
      param_if ''ContentEncoding'' ''content-encoding'' hs @ param_if ''CacheControl'' ''cache-control'' hs @
      param_if ''ContentDisposition'' ''content-disposition'' hs @ param_if ''ContentLanguage'' ''content-language'' hs @
      (if um \<noteq> [] then [(''Metadata'', VDict um)] else []))"

definition handle_put_object :: "'s HandlerFunc" where
  "handle_put_object ctx =
     on_write ctx (object_resource ctx) PUT_OBJECT True (ctx_body ctx) (Inr (put_params ctx))
       (\<lambda>r. Inr (empty_response 200 (header_if ''ETag'' ''ETag'' r @ header_if ''VersionId'' ''x-amz-version-id'' r)))"

text \<open>\<open>response["LastModified"].strftime(...)\<close>.\<close>

definition last_modified_header :: "pdict \<Rightarrow> pyexc + (string \<times> string) list" where
  "last_modified_header r =
     (case map_of r ''LastModified'' of
        None \<Rightarrow> Inr []
      | Some (VTime t) \<Rightarrow> Inr [(''Last-Modified'', http_date t)]
      | Some _ \<Rightarrow> Inl (PyAttributeError ''strftime''))"

definition handle_get_object :: "'s HandlerFunc" where
  "handle_get_object ctx =
     on_read ctx (object_resource ctx) GET_OBJECT (object_params ctx)
       (\<lambda>r. ebind (last_modified_header r) (\<lambda>lm.
          Inr (Streamed r (py_format (get_default r ''ContentType'' (VStr ''application/octet-stream'')))
            (header_if ''ETag'' ''ETag'' r @ header_if ''ContentLength'' ''Content-Length'' r @ lm @ header_if ''VersionId'' ''x-amz-version-id'' r) 200)))"

definition handle_delete_object :: "'s HandlerFunc" where
  "handle_delete_object ctx =
     on_write ctx (object_resource ctx) DELETE_OBJECT True BodyAbsent (Inr (object_params ctx))
       (\<lambda>r. Inr (empty_response 204 (header_if ''VersionId'' ''x-amz-version-id'' r)))"

definition handle_head_object :: "'s HandlerFunc" where
  "handle_head_object ctx =
     on_read ctx (object_resource ctx) HEAD_OBJECT (object_params ctx)
       (\<lambda>r. ebind (last_modified_header r) (\<lambda>lm.
          Inr (empty_response 200 (header_if ''ETag'' ''ETag'' r @ header_if ''ContentLength'' ''Content-Length'' r @
            header_if ''ContentType'' ''Content-Type'' r @ lm))))"

definition handle_create_multipart_upload :: "'s HandlerFunc" where
  "handle_create_multipart_upload ctx =
     on_write ctx (object_resource ctx) CREATE_MULTIPART_UPLOAD False BodyAbsent
       (Inr (object_params ctx @ param_if ''ContentType'' ''content-type'' (ctx_headers ctx)))
       (\<lambda>r. Inr (xml_response (create_multipart_upload_xml (ctx_bucket ctx) (case ctx_key ctx of None \<Rightarrow> [] | Some k \<Rightarrow> k)
          (py_format (get_default r ''UploadId'' (VStr []))))))"

text \<open>\<open>int(query.get("partNumber", 0))\<close>.\<close>

definition part_number_of :: "'s HandlerContext \<Rightarrow> pyexc + int" where
  "part_number_of ctx =
     (case map_of (query_of ctx) ''partNumber'' of
        None \<Rightarrow> Inr 0
      | Some t \<Rightarrow> (case py_int t of None \<Rightarrow> Inl (PyValueError t) | Some i \<Rightarrow> Inr i))"

definition handle_upload_part :: "'s HandlerFunc" where
  "handle_upload_part ctx =
     on_write ctx (object_resource ctx) UPLOAD_PART False (ctx_body ctx)
       (ebind (part_number_of ctx) (\<lambda>n.
          Inr (object_params ctx @ [(''PartNumber'', VInt n), (''UploadId'', upload_id_of ctx)] @ length_param ctx)))
       (\<lambda>r. Inr (empty_response 200 (header_if ''ETag'' ''ETag'' r)))"

definition endswith :: "string \<Rightarrow> string \<Rightarrow> bool" where
  "endswith s suffix \<longleftrightarrow> take (length suffix) (rev s) = rev suffix"

text \<open>One \<open>Part\<close> of a completion request: the last valid part number and the last ETag in it.\<close>

definition part_of_node :: "xml_node \<Rightarrow> (int \<times> string) option" where
  "part_of_node n =
     (case fold (\<lambda>c (pn, et).
          if endswith (xtag c) ''PartNumber'' \<and> text_or_empty c \<noteq> [] then ((case py_int (text_or_empty c) of Some i \<Rightarrow> Some i | None \<Rightarrow> pn), et)
          else if endswith (xtag c) ''ETag'' \<and> text_or_empty c \<noteq> [] then (pn, Some (py_strip (text_or_empty c)))
          else (pn, et)) (xchildren n) (None, None) of
        (Some i, Some e) \<Rightarrow> Some (i, e)
      | _ \<Rightarrow> None)"

definition completed_parts :: "xml_node \<Rightarrow> pyval list" where
  "completed_parts root =
     concat (map (\<lambda>n. if endswith (xtag n) ''Part'' then
         (case part_of_node n of Some (i, e) \<Rightarrow> [VDict [(''PartNumber'', VInt i), (''ETag'', VStr e)]] | None \<Rightarrow> []) else [])
       (xchildren root))"

definition handle_complete_multipart_upload :: "'s HandlerFunc" where
  "handle_complete_multipart_upload ctx =
     on_write ctx (object_resource ctx) COMPLETE_MULTIPART_UPLOAD True BodyAbsent
       (ebind (if body_bytes (ctx_body ctx) = [] then Inr [] else ebind (body_tree ctx) (\<lambda>root. Inr (completed_parts root)))
         (\<lambda>parts. Inr (object_params ctx @ [(''UploadId'', upload_id_of ctx), (''MultipartUpload'', VDict [(''Parts'', VList parts)])])))
       (\<lambda>r. Inr (xml_response (complete_multipart_upload_xml (ctx_bucket ctx) (case ctx_key ctx of None \<Rightarrow> [] | Some k \<Rightarrow> k)
          (py_format (get_default r ''ETag'' (VStr []))) (py_format (get_default r ''Location'' (VStr (object_resource ctx)))))))"

definition handle_abort_multipart_upload :: "'s HandlerFunc" where
  "handle_abort_multipart_upload ctx =
     on_write ctx (object_resource ctx) ABORT_MULTIPART_UPLOAD False BodyAbsent
       (Inr (object_params ctx @ [(''UploadId'', upload_id_of ctx)])) (\<lambda>r. Inr (empty_response 204 []))"

definition handle_copy_object :: "'s HandlerFunc" where
  "handle_copy_object ctx =
     (let src = dropWhile (\<lambda>c. c = CHR ''/'') (get_default (ctx_headers ctx) ''x-amz-copy-source'' []) in
      on_write ctx (object_resource ctx) COPY_OBJECT True BodyAbsent
        (if src = [] then Inl (PyValueError ''Empty x-amz-copy-source'') else Inr (object_params ctx @ [(''CopySource'', VStr src)]))
        (\<lambda>r. Inr (xml_response (copy_object_result_xml (as_dict (get_default r ''CopyObjectResult'' (VDict r)))))))"

text \<open>A \<open>Tag\<close> of a tagging request: the last \<open>Key\<close> and the last \<open>Value\<close>, each with its text or \<open>None\<close>.\<close>

definition tag_of_node :: "xml_node \<Rightarrow> pyval list" where
  "tag_of_node n =
     (case fold (\<lambda>c (k, v). if endswith (xtag c) ''Key'' then (xtext c, v)
          else if endswith (xtag c) ''Value'' then (k, xtext c) else (k, v)) (xchildren n) (None, None) of
        (Some k, Some v) \<Rightarrow> [VDict [(''Key'', VStr k), (''Value'', VStr v)]]
      | _ \<Rightarrow> [])"

definition tags_of :: "xml_node \<Rightarrow> pyval list" where
  "tags_of root =
     concat (map (\<lambda>ts. if endswith (xtag ts) ''TagSet'' then
         concat (map (\<lambda>t. if endswith (xtag t) ''Tag'' then tag_of_node t else []) (xchildren ts)) else [])
       (xchildren root))"

definition handle_put_object_tagging :: "'s HandlerFunc" where
  "handle_put_object_tagging ctx =
     on_write ctx (object_resource ctx) PUT_OBJECT_TAGGING True BodyAbsent
       (if body_bytes (ctx_body ctx) = [] then Inl (PyValueError ''Empty body in PutObjectTagging'')
        else ebind (body_tree ctx) (\<lambda>root.
          Inr (object_params ctx @ [(''Tagging'', VDict [(''TagSet'', VList (tags_of root))])])))
       (\<lambda>r. Inr (empty_response 200 []))"

definition handle_get_object_tagging :: "'s HandlerFunc" where
  "handle_get_object_tagging ctx =
     on_read ctx (object_resource ctx) GET_OBJECT_TAGGING (object_params ctx) (\<lambda>r. Inr (xml_response (get_object_tagging_xml r)))"

definition handle_delete_object_tagging :: "'s HandlerFunc" where
  "handle_delete_object_tagging ctx =
     on_write ctx (object_resource ctx) DELETE_OBJECT_TAGGING True BodyAbsent (Inr (object_params ctx)) (\<lambda>r. Inr (empty_response 204 []))"

section \<open>Bucket handlers (buckets.py)\<close>

definition handle_create_bucket :: "'s HandlerFunc" where
  "handle_create_bucket ctx =
     on_write ctx (bucket_resource ctx) CREATE_BUCKET True BodyAbsent (Inr (bucket_params ctx))
       (\<lambda>r. Inr (empty_response 200 [(''Location'', bucket_resource ctx)]))"

definition handle_delete_bucket :: "'s HandlerFunc" where
  "handle_delete_bucket ctx =
     on_write ctx (bucket_resource ctx) DELETE_BUCKET True BodyAbsent (Inr (bucket_params ctx)) (\<lambda>r. Inr (empty_response 204 []))"

definition handle_head_bucket :: "'s HandlerFunc" where
  "handle_head_bucket ctx =
     on_read ctx (bucket_resource ctx) HEAD_BUCKET (bucket_params ctx) (\<lambda>r. Inr (empty_response 200 []))"

text \<open>One entry of a bucket listing: \<open>isoformat()\<close> of a datetime, \<open>str\<close> of anything else.\<close>

definition bucket_entry :: "pyval \<Rightarrow> pyexc + pdict" where
  "bucket_entry b =
     ebind (item (as_dict b) ''Name'') (\<lambda>n. ebind (item (as_dict b) ''CreationDate'') (\<lambda>d.
       Inr [(''Name'', n), (''CreationDate'', VStr (format_time d))]))"

definition handle_list_buckets :: "'s HandlerFunc" where
  "handle_list_buckets ctx s =
     on_read ctx ''/'' LIST_BUCKETS []
       (\<lambda>r. ebind (emap bucket_entry (as_list (get_default r ''Buckets'' (VList [])))) (\<lambda>bs.
          ebind (list_buckets_xml (ctx_now ctx s) bs) (\<lambda>x. Inr (xml_response x)))) s"

text \<open>\<open>if name in query: params[param] = query[name]\<close>.\<close>

definition query_param :: "string \<Rightarrow> string \<Rightarrow> (string \<times> string) list \<Rightarrow> pdict" where
  "query_param p name query = (case map_of query name of None \<Rightarrow> [] | Some v \<Rightarrow> [(p, VStr v)])"

definition handle_list_objects_v2 :: "'s HandlerFunc" where
  "handle_list_objects_v2 ctx =
     (let query = query_of ctx in
      on_read ctx (bucket_resource ctx) LIST_OBJECTS_V2
        (bucket_params ctx @ query_param ''Prefix'' ''prefix'' query @ query_param ''MaxKeys'' ''max-keys'' query @
         query_param ''ContinuationToken'' ''continuation-token'' query)
        (\<lambda>r. ebind (list_objects_v2_xml (ctx_bucket ctx) r) (\<lambda>x. Inr (xml_response x))))"

definition handle_list_objects :: "'s HandlerFunc" where
  "handle_list_objects ctx =
     (let query = query_of ctx in
      on_read ctx (bucket_resource ctx) LIST_OBJECTS
        (bucket_params ctx @ query_param ''Prefix'' ''prefix'' query @ query_param ''MaxKeys'' ''max-keys'' query @
         query_param ''Marker'' ''marker'' query)
        (\<lambda>r. ebind (list_objects_xml (ctx_bucket ctx) r) (\<lambda>x. Inr (xml_response x))))"

text \<open>The keys of a delete request: the first \<open>Key\<close> with text of each \<open>Object\<close>.\<close>

definition object_keys :: "xml_node \<Rightarrow> pyval list" where
  "object_keys root =
     concat (map (\<lambda>n. if endswith (xtag n) ''Object'' then
         (case List.find (\<lambda>c. endswith (xtag c) ''Key'' \<and> text_or_empty c \<noteq> []) (xchildren n) of
            None \<Rightarrow> [] | Some c \<Rightarrow> [VDict [(''Key'', VStr (text_or_empty c))]]) else [])
       (xchildren root))"

definition empty_delete_result :: response where
  "empty_delete_result = xml_response (xml_declaration @ ''<DeleteResult></DeleteResult>'')"

definition delete_response :: "pdict \<Rightarrow> pyexc + response" where
  "delete_response r =
     ebind (delete_result_xml
         (map (\<lambda>d. get_default (as_dict d) ''Key'' (VStr [])) (as_list (get_default r ''Deleted'' (VList []))))
         (map as_dict (as_list (get_default r ''Errors'' (VList [])))))
       (\<lambda>x. Inr (xml_response x))"

definition handle_delete_objects :: "'s HandlerFunc" where
  "handle_delete_objects ctx s =
     (if body_bytes (ctx_body ctx) = [] then (empty_delete_result, s)
      else (case body_tree ctx of
          Inl e \<Rightarrow> fail_with ctx (bucket_resource ctx) e s
        | Inr root \<Rightarrow>
            (if object_keys root = [] then (empty_delete_result, s)
             else on_write ctx (bucket_resource ctx) DELETE_OBJECTS True BodyAbsent
               (Inr (bucket_params ctx @ [(''Delete'', VDict [(''Objects'', VList (object_keys root))])])) delete_response s)))"

definition handle_get_bucket_lifecycle :: "'s HandlerFunc" where
  "handle_get_bucket_lifecycle ctx =
     on_read ctx (bucket_resource ctx) GET_BUCKET_LIFECYCLE (bucket_params ctx)
       (\<lambda>r. ebind (get_bucket_lifecycle_xml r) (\<lambda>x. Inr (xml_response x)))"

definition handle_put_bucket_lifecycle :: "'s HandlerFunc" where
  "handle_put_bucket_lifecycle ctx =
     on_write ctx (bucket_resource ctx) PUT_BUCKET_LIFECYCLE True BodyAbsent
       (if body_bytes (ctx_body ctx) = [] then Inl (PyValueError ''Empty request body for PutBucketLifecycleConfiguration'')
        else ebind (parse_lifecycle_configuration_xml (ctx_fromstring_bytes ctx) (body_bytes (ctx_body ctx))) (\<lambda>config.
          Inr (bucket_params ctx @ [(''LifecycleConfiguration'', VDict config)])))
       (\<lambda>r. Inr (empty_response 200 []))"

definition handle_delete_bucket_lifecycle :: "'s HandlerFunc" where
  "handle_delete_bucket_lifecycle ctx =
     on_write ctx (bucket_resource ctx) DELETE_BUCKET_LIFECYCLE True BodyAbsent (Inr (bucket_params ctx)) (\<lambda>r. Inr (empty_response 204 []))"

definition handle_get_bucket_policy :: "'s HandlerFunc" where
  "handle_get_bucket_policy ctx =
     on_read ctx (bucket_resource ctx) GET_BUCKET_POLICY (bucket_params ctx)
       (\<lambda>r. Inr (Plain \<lparr>content = py_format (get_default r ''Policy'' (VStr [])), status_code = 200,
          media_type = ''application/xml'', extra_headers = [(''Content-Type'', ''application/json'')]\<rparr>))"

definition handle_put_bucket_policy :: "'s HandlerFunc" where
  "handle_put_bucket_policy ctx =
     on_write ctx (bucket_resource ctx) PUT_BUCKET_POLICY True BodyAbsent
       (if body_bytes (ctx_body ctx) = [] then Inl (PyValueError ''Empty request body for PutBucketPolicy'')
        else ebind (ctx_decode_utf8 ctx (body_bytes (ctx_body ctx))) (\<lambda>policy. Inr (bucket_params ctx @ [(''Policy'', VStr policy)])))
       (\<lambda>r. Inr (empty_response 200 []))"

definition handle_delete_bucket_policy :: "'s HandlerFunc" where
  "handle_delete_bucket_policy ctx =
     on_write ctx (bucket_resource ctx) DELETE_BUCKET_POLICY True BodyAbsent (Inr (bucket_params ctx)) (\<lambda>r. Inr (empty_response 204 []))"

section \<open>The registry (registry.py)\<close>

record 's HandlerMetadata =
  md_operation :: S3Operation
  md_func :: "'s HandlerFunc"
  md_body_style :: BodyStyle
  md_is_object_op :: bool

type_synonym 's HandlerRegistry = "(S3Operation \<times> 's HandlerMetadata) list"

definition register :: "S3Operation \<Rightarrow> BodyStyle \<Rightarrow> bool \<Rightarrow> 's HandlerFunc \<Rightarrow> 's HandlerRegistry \<Rightarrow> 's HandlerRegistry" where
  "register op style is_object_op f reg =
     AList.update op \<lparr>md_operation = op, md_func = f, md_body_style = style, md_is_object_op = is_object_op\<rparr> reg"

definition registry_get :: "'s HandlerRegistry \<Rightarrow> S3Operation \<Rightarrow> 's HandlerMetadata option" where
  "registry_get reg op = map_of reg op"

text \<open>The decorators of the two handler modules, in their order.\<close>

definition register_bucket_handlers :: "'s HandlerRegistry \<Rightarrow> 's HandlerRegistry" where
  "register_bucket_handlers reg = fold (\<lambda>(op, style, f). register op style False f)
     [(CREATE_BUCKET, EMPTY, handle_create_bucket), (DELETE_BUCKET, EMPTY, handle_delete_bucket),
      (HEAD_BUCKET, EMPTY, handle_head_bucket), (LIST_BUCKETS, EMPTY, handle_list_buckets),
      (LIST_OBJECTS_V2, EMPTY, handle_list_objects_v2), (LIST_OBJECTS, EMPTY, handle_list_objects),
      (DELETE_OBJECTS, BUFFERED, handle_delete_objects), (GET_BUCKET_LIFECYCLE, EMPTY, handle_get_bucket_lifecycle),
      (PUT_BUCKET_LIFECYCLE, BUFFERED, handle_put_bucket_lifecycle), (DELETE_BUCKET_LIFECYCLE, EMPTY, handle_delete_bucket_lifecycle),
      (GET_BUCKET_POLICY, EMPTY, handle_get_bucket_policy), (PUT_BUCKET_POLICY, BUFFERED, handle_put_bucket_policy),
      (DELETE_BUCKET_POLICY, EMPTY, handle_delete_bucket_policy)] reg"

definition register_object_handlers :: "'s HandlerRegistry \<Rightarrow> 's HandlerRegistry" where
  "register_object_handlers reg = fold (\<lambda>(op, style, f). register op style True f)
     [(PUT_OBJECT, STREAM, handle_put_object), (GET_OBJECT, EMPTY, handle_get_object), (DELETE_OBJECT, EMPTY, handle_delete_object),
      (HEAD_OBJECT, EMPTY, handle_head_object), (CREATE_MULTIPART_UPLOAD, EMPTY, handle_create_multipart_upload),
      (UPLOAD_PART, STREAM, handle_upload_part), (COMPLETE_MULTIPART_UPLOAD, BUFFERED, handle_complete_multipart_upload),
      (ABORT_MULTIPART_UPLOAD, EMPTY, handle_abort_multipart_upload), (COPY_OBJECT, EMPTY, handle_copy_object),
      (PUT_OBJECT_TAGGING, BUFFERED, handle_put_object_tagging), (GET_OBJECT_TAGGING, EMPTY, handle_get_object_tagging),
      (DELETE_OBJECT_TAGGING, EMPTY, handle_delete_object_tagging)] reg"

definition handler_registry :: "'s HandlerRegistry" where
  "handler_registry = register_object_handlers (register_bucket_handlers [])"

section \<open>Object tags\<close>

text \<open>The element tree of a tagging document: \<open>ElementTree\<close> gives an empty element no text.\<close>

definition text_node :: "string \<Rightarrow> string \<Rightarrow> xml_node" where
  "text_node t v = XNode t (if v = [] then None else Some v) []"

definition tagging_node :: "string \<Rightarrow> (string \<times> string) list \<Rightarrow> xml_node" where
  "tagging_node ns ts = XNode (ns @ ''Tagging'') None [XNode (ns @ ''TagSet'') None
     (map (\<lambda>(k, v). XNode (ns @ ''Tag'') None [text_node (ns @ ''Key'') k, text_node (ns @ ''Value'') v]) ts)]"

lemma endswith_names [simp]:
  "endswith (ns @ ''TagSet'') ''TagSet''" "endswith (ns @ ''Tag'') ''Tag''" "endswith (ns @ ''Key'') ''Key''"
  "endswith (ns @ ''Value'') ''Value''" "\<not> endswith (ns @ ''Value'') ''Key''"
  by (simp_all add: endswith_def)

lemma tags_of_tagging_node:
  "tags_of (tagging_node ns ts) =
     map (\<lambda>(k, v). VDict [(''Key'', VStr k), (''Value'', VStr v)]) (filter (\<lambda>(k, v). k \<noteq> [] \<and> v \<noteq> []) ts)"
proof -
  have "tag_of_node (XNode (ns @ ''Tag'') None [text_node (ns @ ''Key'') k, text_node (ns @ ''Value'') v]) =
      (if k \<noteq> [] \<and> v \<noteq> [] then [VDict [(''Key'', VStr k), (''Value'', VStr v)]] else [])" for k v
    by (simp add: tag_of_node_def text_node_def)
  then show ?thesis
    by (induction ts) (auto simp: tags_of_def tagging_node_def)
qed

text \<open>
  Tags with an empty value are lost.  When a client sets the tags \<open>ts\<close> of an object, what the handler
  passes to the write strategy are only those whose value is not empty, although S3 allows empty
  values; the response is the one for the whole set, with status 200 when the write succeeds.
\<close>

theorem empty_tag_values_are_dropped:
  assumes "body_bytes (ctx_body ctx) \<noteq> []" and "body_tree ctx = Inr (tagging_node ns ts)"
  shows "handle_put_object_tagging ctx s =
    finish_with ctx (object_resource ctx) (\<lambda>r. Inr (empty_response 200 []))
      (ctx_write ctx PUT_OBJECT_TAGGING (object_params ctx @ [(''Tagging'', VDict [(''TagSet'', VList
         (map (\<lambda>(k, v). VDict [(''Key'', VStr k), (''Value'', VStr v)]) (filter (\<lambda>(k, v). k \<noteq> [] \<and> v \<noteq> []) ts)))])])
        BodyAbsent True s)"
  using assms by (simp add: handle_put_object_tagging_def on_write_def tags_of_tagging_node)

definition sample_context :: "(pdict list) HandlerContext" where
  "sample_context = \<lparr>ctx_operation = PUT_OBJECT_TAGGING, ctx_bucket = ''b'', ctx_key = Some ''k'',
     ctx_read = (\<lambda>op ps s. (Inr [], s)), ctx_write = (\<lambda>op ps b rp s. (Inr [], s @ [ps])),
     ctx_headers = [], ctx_query = ''tagging'', ctx_body = BodyBytes ''<Tagging/>'', ctx_content_length = None,
     ctx_fromstring = (\<lambda>_. Inr (tagging_node [] [(''a'', ''1''), (''b'', [])])), ctx_fromstring_bytes = (\<lambda>_. Inl (PyValueError [])),
     ctx_decode_utf8 = Inr, ctx_fresh_id = Pair ''id'', ctx_now = (\<lambda>_. 0)\<rparr>"

theorem empty_tag_values_are_dropped_witness:
  "handle_put_object_tagging sample_context [] = (empty_response 200 [],
     [[(''Bucket'', VStr ''b''), (''Key'', VStr ''k''),
       (''Tagging'', VDict [(''TagSet'', VList [VDict [(''Key'', VStr ''a''), (''Value'', VStr ''1'')]])])]])"
proof -
  have t: "body_bytes (ctx_body sample_context) \<noteq> []" "body_tree sample_context = Inr (tagging_node [] [(''a'', ''1''), (''b'', [])])"
    by (simp_all add: sample_context_def body_tree_def)
  show ?thesis unfolding empty_tag_values_are_dropped [OF t]
    by (simp add: sample_context_def finish_with_def object_params_def param_key_def)
qed

end
