(* ===== verification/Chunked_Decoder.thy ===== *)
theory Chunked_Decoder
  imports Streaming Decimal
begin

text \<open>
  The aws-chunked decoder (\<open>AWSChunkedDecoder\<close> of \<open>src/s3mer/common/streaming.py\<close>), a state
  machine with the states \<open>READ_HEADER\<close>, \<open>READ_DATA\<close> and \<open>READ_CRLF\<close> over an \<open>ASGIStreamReader\<close>.

  \<open>wf_tail\<close> is the grammar of an aws-chunked stream from each decoder state on, together with the
  payload it carries.  The theorems say what the decoder delivers on a well-formed stream: always a
  prefix of the payload, all of it when the encoded stream fits in one read of \<open>chunk_size\<close> bytes,
  and strictly less on some larger streams (a header cut by a read boundary near the end of the
  stream ends the decoding).
\<close>

section \<open>Parsing the chunk size: Python's \<open>int(text, 16)\<close>\<close>

definition hex_digit :: "char \<Rightarrow> nat option" where
  "hex_digit c =
     (let n = of_char c :: nat in
      if 48 \<le> n \<and> n \<le> 57 then Some (n - 48)
      else if 97 \<le> n \<and> n \<le> 102 then Some (n - 87)
      else if 65 \<le> n \<and> n \<le> 70 then Some (n - 55)
      else None)"

text \<open>
  Digits, with single underscores allowed between them; \<open>d\<close> says that the previous character was a
  digit (or, after a \<open>0x\<close> prefix, that an underscore may come first).
\<close>

fun hex_digits :: "bool \<Rightarrow> int \<Rightarrow> bytes \<Rightarrow> int option" where
  "hex_digits d acc [] = (if d then Some acc else None)"
| "hex_digits d acc (c # cs) =
     (if c = CHR ''_'' then (if d \<and> cs \<noteq> [] then hex_digits False acc cs else None)
      else (case hex_digit c of None \<Rightarrow> None | Some v \<Rightarrow> hex_digits True (16 * acc + int v) cs))"

definition hex_magnitude :: "bytes \<Rightarrow> int option" where
  "hex_magnitude s =
     (if take 2 s = ''0x'' \<or> take 2 s = ''0X'' then
        (if drop 2 s = [] then None else hex_digits True 0 (drop 2 s))
      else if s = [] then None else hex_digits False 0 s)"

definition py_int_hex :: "bytes \<Rightarrow> int option" where
  "py_int_hex text =
     (case py_strip text of
        [] \<Rightarrow> None
      | c # cs \<Rightarrow>
          if c = CHR ''-'' then map_option uminus (hex_magnitude cs)
          else if c = CHR ''+'' then hex_magnitude cs
          else hex_magnitude (c # cs))"

section \<open>The decoder\<close>

datatype DecoderState = READ_HEADER | READ_DATA | READ_CRLF

record AWSChunkedDecoder =
  dec_reader :: ASGIStreamReader
  raw_buffer :: bytes
  decoded_buffer :: bytes
  dec_eof :: bool
  current_chunk_remaining :: int
  dec_state :: DecoderState
  dec_chunk_size :: int

definition new_decoder :: "ASGIStreamReader \<Rightarrow> int \<Rightarrow> AWSChunkedDecoder" where
  "new_decoder r cs = \<lparr>dec_reader = r, raw_buffer = [], decoded_buffer = [], dec_eof = False,
     current_chunk_remaining = 0, dec_state = READ_HEADER, dec_chunk_size = cs\<rparr>"

definition CRLF :: bytes where "CRLF = [CHR 0x0D, CHR 0x0A]"

text \<open>\<open>raw_buffer.find(b"\\r\\n")\<close>.\<close>

fun find_crlf :: "bytes \<Rightarrow> nat option" where
  "find_crlf (a # b # cs) =
     (if a = CHR 0x0D \<and> b = CHR 0x0A then Some 0 else map_option Suc (find_crlf (b # cs)))"
| "find_crlf cs = None"

text \<open>An upper bound on the bytes a reader can still deliver: what makes the loops below end.\<close>

fun msg_size :: "asgi_msg \<Rightarrow> nat" where
  "msg_size (HttpRequest b m) = length (msg_body b)"
| "msg_size _ = 0"

definition pending :: "ASGIStreamReader \<Rightarrow> nat" where
  "pending r = length (asgi_buffer r) + sum_list (map msg_size (receive_queue r))"

lemma asgi_fill_all_pending:
  "asgi_fill_all q buf go = Some (q', buf') \<Longrightarrow>
   length buf' + sum_list (map msg_size q') \<le> length buf + sum_list (map msg_size q)"
proof (induction q buf go rule: asgi_fill_all.induct)
  case (1 q buf go)
  show ?case
  proof (cases go)
    case False
    then show ?thesis using "1.prems" by (simp add: asgi_fill_all.simps)
  next
    case True
    then show ?thesis using "1.prems" "1.IH"
      by (subst (asm) asgi_fill_all.simps) (fastforce split: list.splits asgi_msg.splits)
  qed
qed

lemma asgi_fill_pending:
  "asgi_fill n q buf go = Some (q', buf', go') \<Longrightarrow>
   length buf' + sum_list (map msg_size q') \<le> length buf + sum_list (map msg_size q)"
proof (induction n q buf go rule: asgi_fill.induct)
  case (1 n q buf go)
  show ?case
  proof (cases "int (length buf) < n \<and> go")
    case False
    then show ?thesis using "1.prems" by (subst (asm) asgi_fill.simps) auto
  next
    case True
    then show ?thesis using "1.prems" "1.IH"
      by (subst (asm) asgi_fill.simps) (fastforce split: list.splits asgi_msg.splits)
  qed
qed

lemma length_slice_del: "length (slice_to xs i) + length (del_to xs i) = length xs"
  by (metis length_append slice_to_del_to)

lemma asgi_read_pending:
  assumes "asgi_read n r = Some (c, r')" shows "length c + pending r' \<le> pending r"
proof (cases "n = -1")
  case True
  then obtain q where "asgi_fill_all (receive_queue r) (asgi_buffer r) (asgi_more_body r) = Some (q, c)"
    "receive_queue r' = q" "asgi_buffer r' = []"
    using assms by (auto simp: asgi_read_def split: option.splits)
  then show ?thesis using asgi_fill_all_pending by (fastforce simp: pending_def)
next
  case False
  then obtain q buf go where "asgi_fill n (receive_queue r) (asgi_buffer r) (asgi_more_body r) = Some (q, buf, go)"
    "receive_queue r' = q" "asgi_buffer r' = del_to buf n" "c = slice_to buf n"
    using assms by (auto simp: asgi_read_def Let_def split: option.splits)
  then show ?thesis using asgi_fill_pending length_slice_del [of buf n] by (fastforce simp: pending_def)
qed

lemma asgi_read_progress: "asgi_read n r = Some (c, r') \<Longrightarrow> c \<noteq> [] \<Longrightarrow> pending r' < pending r"
  using asgi_read_pending [of n r c r'] by (cases c) auto

function fill_raw :: "int \<Rightarrow> int \<Rightarrow> ASGIStreamReader \<Rightarrow> bytes \<Rightarrow> (bool \<times> ASGIStreamReader \<times> bytes) option" where
  "fill_raw n cs r raw =
     (if int (length raw) < n then
        (case asgi_read cs r of
           None \<Rightarrow> None
         | Some (chunk, r') \<Rightarrow> if chunk = [] then Some (False, r', raw) else fill_raw n cs r' (raw @ chunk))
      else Some (True, r, raw))"
  by pat_completeness auto
termination
  by (relation "measure (\<lambda>(n, cs, r, raw). pending r)") (auto dest: asgi_read_progress)

declare fill_raw.simps [simp del]

definition fill_raw_buffer :: "int \<Rightarrow> AWSChunkedDecoder \<Rightarrow> (bool \<times> AWSChunkedDecoder) option" where
  "fill_raw_buffer n d =
     (case fill_raw n (dec_chunk_size d) (dec_reader d) (raw_buffer d) of
        None \<Rightarrow> None
      | Some (ok, r, raw) \<Rightarrow> Some (ok, d\<lparr>dec_reader := r, raw_buffer := raw\<rparr>))"

definition handle_read_header :: "AWSChunkedDecoder \<Rightarrow> (bool \<times> AWSChunkedDecoder) option" where
  "handle_read_header d =
     Option.bind (fill_raw_buffer 1 d) (\<lambda>(ok, d).
       if \<not> ok then Some (False, d)
       else (case find_crlf (raw_buffer d) of
           None \<Rightarrow> fill_raw_buffer (int (length (raw_buffer d)) + 128) d
         | Some pos \<Rightarrow>
             (let header = take pos (raw_buffer d);
                d = d\<lparr>raw_buffer := drop (pos + 2) (raw_buffer d)\<rparr>;
                size_hex = takeWhile (\<lambda>c. c \<noteq> CHR '';'') header
              in (case py_int_hex size_hex of
                  None \<Rightarrow> Some (False, d)
                | Some v \<Rightarrow>
                    (let d = d\<lparr>current_chunk_remaining := v\<rparr> in
                     if v = 0 then Some (False, d) else Some (True, d\<lparr>dec_state := READ_DATA\<rparr>))))))"

definition take_data :: "AWSChunkedDecoder \<Rightarrow> AWSChunkedDecoder" where
  "take_data d =
     (let tk = min (int (length (raw_buffer d))) (current_chunk_remaining d);
        d = d\<lparr>decoded_buffer := decoded_buffer d @ slice_to (raw_buffer d) tk,
              raw_buffer := del_to (raw_buffer d) tk,
              current_chunk_remaining := current_chunk_remaining d - tk\<rparr>
      in if current_chunk_remaining d = 0 then d\<lparr>dec_state := READ_CRLF\<rparr> else d)"

definition handle_read_data :: "AWSChunkedDecoder \<Rightarrow> (bool \<times> AWSChunkedDecoder) option" where
  "handle_read_data d =
     Option.bind (fill_raw_buffer 1 d) (\<lambda>(ok, d). if \<not> ok then Some (False, d) else Some (True, take_data d))"

definition handle_read_crlf :: "AWSChunkedDecoder \<Rightarrow> (bool \<times> AWSChunkedDecoder) option" where
  "handle_read_crlf d =
     Option.bind (fill_raw_buffer 2 d) (\<lambda>(ok, d).
       if \<not> ok then Some (False, d)
       else Some (True, d\<lparr>raw_buffer := drop 2 (raw_buffer d), dec_state := READ_HEADER\<rparr>))"

text \<open>One iteration of the \<open>while\<close> loop of \<open>read\<close>.\<close>

definition dec_step :: "AWSChunkedDecoder \<Rightarrow> AWSChunkedDecoder option" where
  "dec_step d =
     map_option (\<lambda>(ok, d). if ok then d else d\<lparr>dec_eof := True\<rparr>)
       (case dec_state d of
          READ_HEADER \<Rightarrow> handle_read_header d
        | READ_DATA \<Rightarrow> handle_read_data d
        | READ_CRLF \<Rightarrow> handle_read_crlf d)"

section \<open>The read loop and why it ends\<close>

definition dec_total :: "AWSChunkedDecoder \<Rightarrow> nat" where
  "dec_total d = length (raw_buffer d) + pending (dec_reader d)"

lemma fill_raw_total:
  "fill_raw n cs r raw = Some (ok, r', raw') \<Longrightarrow>
   length raw' + pending r' \<le> length raw + pending r \<and> pending r' \<le> pending r \<and>
   (ok \<longrightarrow> n \<le> int (length raw')) \<and> (ok \<and> int (length raw) < n \<longrightarrow> pending r' < pending r)"
proof (induction n cs r raw rule: fill_raw.induct)
  case (1 n cs r raw)
  show ?case
  proof (cases "int (length raw) < n")
    case False
    then show ?thesis using "1.prems" by (simp add: fill_raw.simps)
  next
    case True
    then obtain c r1 where c: "asgi_read cs r = Some (c, r1)"
      using "1.prems" by (subst (asm) fill_raw.simps) (auto split: option.splits)
    show ?thesis
    proof (cases "c = []")
      case nil: True
      then show ?thesis using True c "1.prems" asgi_read_pending [OF c]
        by (subst (asm) fill_raw.simps) auto
    next
      case False
      then have "fill_raw n cs r1 (raw @ c) = Some (ok, r', raw')"
        using True c "1.prems" by (subst (asm) fill_raw.simps) simp
      from "1.IH" [OF True c refl False this] False asgi_read_pending [OF c] asgi_read_progress [OF c False]
      show ?thesis by auto
    qed
  qed
qed

lemma fill_raw_buffer_total:
  assumes "fill_raw_buffer n d = Some (ok, d')"
  shows "\<exists>r raw. d' = d\<lparr>dec_reader := r, raw_buffer := raw\<rparr> \<and>
    length raw + pending r \<le> dec_total d \<and> pending r \<le> pending (dec_reader d) \<and>
    (ok \<longrightarrow> n \<le> int (length raw)) \<and>
    (ok \<and> int (length (raw_buffer d)) < n \<longrightarrow> pending r < pending (dec_reader d))"
  using assms fill_raw_total by (fastforce simp: fill_raw_buffer_def dec_total_def split: option.splits)

lemma find_crlf_bound: "find_crlf cs = Some p \<Longrightarrow> p + 2 \<le> length cs"
  by (induction cs arbitrary: p rule: find_crlf.induct) (auto split: if_splits)

text \<open>The loop's variant: an iteration ends the stream, uses bytes up, moves bytes, or leaves \<open>READ_DATA\<close>.\<close>

definition dec_variant :: "AWSChunkedDecoder \<Rightarrow> nat \<times> nat \<times> nat \<times> nat" where
  "dec_variant d = (if dec_eof d then 0 else 1, dec_total d, pending (dec_reader d),
     if dec_state d = READ_DATA then 1 else 0)"

definition dec_rel :: "(AWSChunkedDecoder \<times> AWSChunkedDecoder) set" where
  "dec_rel = inv_image (less_than <*lex*> less_than <*lex*> less_than <*lex*> less_than) dec_variant"

lemma wf_dec_rel: "wf dec_rel"
  by (auto simp: dec_rel_def)

lemma dec_rel_iff:
  "(d', d) \<in> dec_rel \<longleftrightarrow> dec_eof d' \<and> \<not> dec_eof d \<or> dec_eof d' = dec_eof d \<and>
     (dec_total d' < dec_total d \<or> dec_total d' = dec_total d \<and>
       (pending (dec_reader d') < pending (dec_reader d) \<or> pending (dec_reader d') = pending (dec_reader d) \<and>
          dec_state d = READ_DATA \<and> dec_state d' \<noteq> READ_DATA))"
  by (auto simp: dec_rel_def dec_variant_def in_lex_prod)

lemma handle_read_header_dec:
  assumes "handle_read_header d = Some (True, d')" and "\<not> dec_eof d" shows "(d', d) \<in> dec_rel"
proof -
  obtain d1 where f: "fill_raw_buffer 1 d = Some (True, d1)"
    using assms(1) by (auto simp: handle_read_header_def bind_eq_Some_conv split: if_splits)
  obtain r raw where d1: "d1 = d\<lparr>dec_reader := r, raw_buffer := raw\<rparr>"
    "length raw + pending r \<le> dec_total d" "pending r \<le> pending (dec_reader d)" "1 \<le> length raw"
    using fill_raw_buffer_total [OF f] by auto
  show ?thesis
  proof (cases "find_crlf raw")
    case None
    then have g: "fill_raw_buffer (int (length raw) + 128) d1 = Some (True, d')"
      using assms(1) f d1 by (simp add: handle_read_header_def)
    show ?thesis using fill_raw_buffer_total [OF g] d1 assms(2)
      by (auto simp: dec_rel_iff dec_total_def)
  next
    case (Some p)
    then show ?thesis using assms f d1 find_crlf_bound [OF Some]
      by (auto simp: handle_read_header_def dec_rel_iff dec_total_def Let_def split: option.splits if_splits)
  qed
qed

lemma take_data_fields:
  "dec_eof (take_data d) = dec_eof d" "dec_reader (take_data d) = dec_reader d"
  "dec_chunk_size (take_data d) = dec_chunk_size d"
  "raw_buffer (take_data d) = del_to (raw_buffer d) (min (int (length (raw_buffer d))) (current_chunk_remaining d))"
  "decoded_buffer (take_data d) = decoded_buffer d @
     slice_to (raw_buffer d) (min (int (length (raw_buffer d))) (current_chunk_remaining d))"
  "current_chunk_remaining (take_data d) =
     current_chunk_remaining d - min (int (length (raw_buffer d))) (current_chunk_remaining d)"
  "dec_state (take_data d) =
     (if current_chunk_remaining d - min (int (length (raw_buffer d))) (current_chunk_remaining d) = 0
      then READ_CRLF else dec_state d)"
  by (simp_all add: take_data_def Let_def)

lemma handle_read_data_dec:
  assumes "handle_read_data d = Some (True, d')" and "\<not> dec_eof d" and "dec_state d = READ_DATA"
  shows "(d', d) \<in> dec_rel"
proof -
  obtain d1 where f: "fill_raw_buffer 1 d = Some (True, d1)"
    using assms(1) by (auto simp: handle_read_data_def bind_eq_Some_conv split: if_splits)
  obtain r raw where d1: "d1 = d\<lparr>dec_reader := r, raw_buffer := raw\<rparr>"
    "length raw + pending r \<le> dec_total d" "pending r \<le> pending (dec_reader d)" "1 \<le> length raw"
    using fill_raw_buffer_total [OF f] by auto
  define tk where "tk = min (int (length raw)) (current_chunk_remaining d)"
  have len: "length (del_to raw tk) \<le> length raw" using length_slice_del [of raw tk] by simp
  have d'_eq: "d' = take_data d1" using assms(1) f by (simp add: handle_read_data_def)
  have d': "dec_eof d' = dec_eof d" "dec_reader d' = r" "raw_buffer d' = del_to raw tk"
    "dec_state d' = (if current_chunk_remaining d - tk = 0 then READ_CRLF else READ_DATA)"
    by (simp_all add: d'_eq d1(1) take_data_fields assms(3) tk_def)
  show ?thesis
  proof (cases "0 < tk")
    case True
    then have "length (del_to raw tk) < length raw"
      using d1(4) by (simp add: del_to_def slice_end_def)
    then show ?thesis using d' d1 by (auto simp: dec_rel_iff dec_total_def)
  next
    case False
    then have "current_chunk_remaining d = tk" using d1(4) by (simp add: tk_def min_def split: if_splits)
    then show ?thesis using d' d1 len assms by (auto simp: dec_rel_iff dec_total_def)
  qed
qed

lemma handle_read_crlf_dec:
  assumes "handle_read_crlf d = Some (True, d')" and "\<not> dec_eof d" shows "(d', d) \<in> dec_rel"
proof -
  obtain d1 where f: "fill_raw_buffer 2 d = Some (True, d1)"
    using assms(1) by (auto simp: handle_read_crlf_def bind_eq_Some_conv split: if_splits)
  then show ?thesis using fill_raw_buffer_total [OF f] assms
    by (auto simp: handle_read_crlf_def dec_rel_iff dec_total_def)
qed

lemma dec_step_dec:
  assumes "dec_step d = Some d'" and "\<not> dec_eof d" shows "(d', d) \<in> dec_rel"
proof (cases "dec_eof d'")
  case True
  then show ?thesis using assms(2) by (simp add: dec_rel_iff)
next
  case False
  then have "(case dec_state d of READ_HEADER \<Rightarrow> handle_read_header d | READ_DATA \<Rightarrow> handle_read_data d
      | READ_CRLF \<Rightarrow> handle_read_crlf d) = Some (True, d')"
    using assms(1) by (auto simp: dec_step_def split: if_splits)
  then show ?thesis
    using assms(2) handle_read_header_dec handle_read_data_dec handle_read_crlf_dec
    by (cases "dec_state d") auto
qed

function dec_loop :: "int \<Rightarrow> AWSChunkedDecoder \<Rightarrow> AWSChunkedDecoder option" where
  "dec_loop n d =
     (if int (length (decoded_buffer d)) < n \<and> \<not> dec_eof d then
        (case dec_step d of None \<Rightarrow> None | Some d' \<Rightarrow> dec_loop n d')
      else Some d)"
  by pat_completeness auto
termination
  by (relation "inv_image dec_rel snd") (auto intro: wf_dec_rel dest: dec_step_dec)

declare dec_loop.simps [simp del]

text \<open>\<open>read(n)\<close> for \<open>n\<close> other than \<open>-1\<close>, and the iteration protocol.\<close>

definition dec_read_n :: "int \<Rightarrow> AWSChunkedDecoder \<Rightarrow> (bytes \<times> AWSChunkedDecoder) option" where
  "dec_read_n n d =
     (case dec_loop n d of
        None \<Rightarrow> None
      | Some d \<Rightarrow> Some (slice_to (decoded_buffer d) n, d\<lparr>decoded_buffer := del_to (decoded_buffer d) n\<rparr>))"

definition dec_anext :: "AWSChunkedDecoder \<Rightarrow> (bytes \<times> AWSChunkedDecoder) option" where
  "dec_anext d = dec_read_n (dec_chunk_size d) d"

text \<open>
  \<open>read(-1)\<close>: collect chunks while there may be more.  With a configured chunk size of \<open>-1\<close> the
  method calls itself without end, which is the result \<open>None\<close>.
\<close>

partial_function (option) dec_read_all :: "AWSChunkedDecoder \<Rightarrow> (bytes \<times> AWSChunkedDecoder) option" where
  "dec_read_all d =
     (if dec_chunk_size d = -1 then None
      else if \<not> dec_eof d \<or> decoded_buffer d \<noteq> [] then
        Option.bind (dec_read_n (dec_chunk_size d) d) (\<lambda>r.
          if fst r = [] then Some ([], snd r)
          else Option.bind (dec_read_all (snd r)) (\<lambda>t. Some (fst r @ fst t, snd t)))
      else Some ([], d))"

declare dec_read_all.simps [code]

definition dec_read :: "int \<Rightarrow> AWSChunkedDecoder \<Rightarrow> (bytes \<times> AWSChunkedDecoder) option" where
  "dec_read n d = (if n = -1 then dec_read_all d else dec_read_n n d)"

section \<open>Well-formed streams\<close>

text \<open>
  \<open>wf_tail st n bs p\<close>: the bytes \<open>bs\<close> continue a well-formed stream from decoder state \<open>st\<close> (with
  \<open>n\<close> bytes of the current chunk to come) and carry the payload \<open>p\<close>.
\<close>

inductive wf_tail :: "DecoderState \<Rightarrow> int \<Rightarrow> bytes \<Rightarrow> bytes \<Rightarrow> bool" where
  last_header: "CHR 0x0D \<notin> set h \<Longrightarrow> py_int_hex (takeWhile (\<lambda>c. c \<noteq> CHR '';'') h) = Some 0 \<Longrightarrow>
     wf_tail READ_HEADER k (h @ CRLF @ trailer) []"
| header: "CHR 0x0D \<notin> set h \<Longrightarrow> py_int_hex (takeWhile (\<lambda>c. c \<noteq> CHR '';'') h) = Some n \<Longrightarrow> 0 < n \<Longrightarrow>
     wf_tail READ_DATA n bs p \<Longrightarrow> wf_tail READ_HEADER k (h @ CRLF @ bs) p"
| data: "int (length dat) = n \<Longrightarrow> 0 < n \<Longrightarrow> wf_tail READ_CRLF 0 bs p \<Longrightarrow>
     wf_tail READ_DATA n (dat @ bs) (dat @ p)"
| crlf: "wf_tail READ_HEADER 0 bs p \<Longrightarrow> wf_tail READ_CRLF k (CRLF @ bs) p"

inductive_cases wf_headerE: "wf_tail READ_HEADER k bs p"
inductive_cases wf_dataE: "wf_tail READ_DATA k bs p"
inductive_cases wf_crlfE: "wf_tail READ_CRLF k bs p"

lemma wf_header_any: "wf_tail READ_HEADER k bs p \<Longrightarrow> wf_tail READ_HEADER k' bs p"
  by (erule wf_headerE) (auto intro: last_header header)

lemma wf_crlf_any: "wf_tail READ_CRLF k bs p \<Longrightarrow> wf_tail READ_CRLF k' bs p"
  by (erule wf_crlfE) (auto intro: crlf)

lemma find_crlf_take:
  "CHR 0x0D \<notin> set h \<Longrightarrow>
   find_crlf (take k (h @ CRLF @ bs)) = (if length h + 2 \<le> k then Some (length h) else None)"
proof (induction h arbitrary: k)
  case Nil
  show ?case
  proof (cases k)
    case (Suc k')
    then show ?thesis by (cases k') (simp_all add: CRLF_def)
  qed simp
next
  case (Cons a h)
  show ?case
  proof (cases k)
    case (Suc k')
    obtain b cs where b: "h @ CRLF @ bs = b # cs" by (cases "h @ CRLF @ bs") (auto simp: CRLF_def)
    show ?thesis
      using Cons.IH [of k'] Cons.prems Suc b by (cases k') auto
  qed simp
qed

text \<open>Splitting a data segment where the raw buffer ends.\<close>

lemma wf_data_split:
  assumes "wf_tail READ_DATA n (a @ b) p" and "int (length a) \<le> n"
  shows "\<exists>p'. p = a @ p' \<and>
    (if int (length a) = n then wf_tail READ_CRLF 0 b p' else wf_tail READ_DATA (n - int (length a)) b p')"
  using assms(1)
proof (rule wf_dataE)
  fix dat bs q
  assume e: "a @ b = dat @ bs" "p = dat @ q" "int (length dat) = n" "0 < n" "wf_tail READ_CRLF 0 bs q"
  then have "length a \<le> length dat" using assms(2) by simp
  then obtain dat' where d: "dat = a @ dat'" "b = dat' @ bs"
    using e(1) by (auto simp: append_eq_append_conv2)
  show ?thesis
  proof (cases "dat' = []")
    case True
    then show ?thesis using e d by simp
  next
    case False
    then have "wf_tail READ_DATA (n - int (length a)) (dat' @ bs) (dat' @ q)"
      using e d by (intro wf_tail.data) auto
    then show ?thesis using False e d by auto
  qed
qed

section \<open>Simulation\<close>

definition one_read :: "int \<Rightarrow> ASGIStreamReader \<Rightarrow> bytes \<Rightarrow> bool" where
  "one_read cs r raw \<longleftrightarrow> asgi_rest r = [] \<or> raw = [] \<and> int (length (asgi_rest r)) \<le> cs"

lemma fill_raw_law:
  "asgi_ok r \<Longrightarrow> 0 < cs \<Longrightarrow> 1 \<le> n \<Longrightarrow>
   \<exists>ok r' raw'. fill_raw n cs r raw = Some (ok, r', raw') \<and> asgi_ok r' \<and>
     raw' @ asgi_rest r' = raw @ asgi_rest r \<and> (ok \<longleftrightarrow> n \<le> int (length raw')) \<and>
     (\<not> ok \<longrightarrow> asgi_rest r' = []) \<and> (one_read cs r raw \<longrightarrow> asgi_rest r' = [])"
proof (induction n cs r raw rule: fill_raw.induct)
  case (1 n cs r raw)
  show ?case
  proof (cases "int (length raw) < n")
    case False
    then have "fill_raw n cs r raw = Some (True, r, raw)" by (simp add: fill_raw.simps [of n cs r raw])
    then show ?thesis using "1.prems" False by (intro exI) (auto simp: one_read_def)
  next
    case True
    obtain c r1 where c: "asgi_read cs r = Some (c, r1)" "asgi_ok r1" "asgi_rest r = c @ asgi_rest r1"
      "int (length c) < cs \<longrightarrow> asgi_rest r1 = []" "int (length c) \<le> cs"
      using asgi_read_law [of r cs] "1.prems" by auto
    have one: "one_read cs r raw \<Longrightarrow> asgi_rest r1 = []"
      using c by (cases "asgi_rest r1") (auto simp: one_read_def)
    show ?thesis
    proof (cases "c = []")
      case nil: True
      then have "fill_raw n cs r raw = Some (False, r1, raw)"
        using True c by (simp add: fill_raw.simps [of n cs r raw])
      then show ?thesis using nil True c "1.prems" by (intro exI) auto
    next
      case False
      have "fill_raw n cs r raw = fill_raw n cs r1 (raw @ c)"
        using True c False by (simp add: fill_raw.simps [of n cs r raw])
      moreover obtain ok r' raw' where "fill_raw n cs r1 (raw @ c) = Some (ok, r', raw')" "asgi_ok r'"
        "raw' @ asgi_rest r' = (raw @ c) @ asgi_rest r1" "ok \<longleftrightarrow> n \<le> int (length raw')"
        "\<not> ok \<longrightarrow> asgi_rest r' = []" "one_read cs r1 (raw @ c) \<longrightarrow> asgi_rest r' = []"
        using "1.IH" [OF True c(1) refl False c(2) "1.prems"(2,3)] by blast
      moreover have "one_read cs r raw \<longrightarrow> one_read cs r1 (raw @ c)"
        unfolding one_read_def [of cs r1] using one by blast
      ultimately show ?thesis using c(3)
        by (intro exI [of _ ok] exI [of _ r'] exI [of _ raw'] conjI) simp_all
    qed
  qed
qed

text \<open>
  \<open>dec_R x d b\<close>: the decoder \<open>d\<close> is inside a well-formed stream and still owes the bytes \<open>b\<close>; with
  \<open>x\<close>, the stream fits in one read and the decoder owes nothing more once it has ended.
\<close>

definition dec_R :: "bool \<Rightarrow> AWSChunkedDecoder \<Rightarrow> bytes \<Rightarrow> bool" where
  "dec_R x d b \<longleftrightarrow> asgi_ok (dec_reader d) \<and> 0 < dec_chunk_size d \<and>
     (x \<longrightarrow> one_read (dec_chunk_size d) (dec_reader d) (raw_buffer d)) \<and>
     (\<exists>p. b = decoded_buffer d @ p \<and>
        (if dec_eof d then x \<longrightarrow> p = []
         else wf_tail (dec_state d) (current_chunk_remaining d) (raw_buffer d @ asgi_rest (dec_reader d)) p))"

text \<open>A fill before a non-empty rest succeeds and changes nothing but where the bytes are.\<close>

lemma fill_raw_buffer_R:
  assumes "dec_R x d b" and "1 \<le> n"
  shows "\<exists>ok r raw. fill_raw_buffer n d = Some (ok, d\<lparr>dec_reader := r, raw_buffer := raw\<rparr>) \<and>
    asgi_ok r \<and> raw @ asgi_rest r = raw_buffer d @ asgi_rest (dec_reader d) \<and>
    (ok \<longleftrightarrow> n \<le> int (length raw)) \<and> (\<not> ok \<longrightarrow> asgi_rest r = []) \<and> (x \<longrightarrow> asgi_rest r = [])"
proof -
  obtain ok r raw where "fill_raw n (dec_chunk_size d) (dec_reader d) (raw_buffer d) = Some (ok, r, raw)"
    "asgi_ok r" "raw @ asgi_rest r = raw_buffer d @ asgi_rest (dec_reader d)"
    "ok \<longleftrightarrow> n \<le> int (length raw)" "\<not> ok \<longrightarrow> asgi_rest r = []"
    "one_read (dec_chunk_size d) (dec_reader d) (raw_buffer d) \<longrightarrow> asgi_rest r = []"
    using fill_raw_law [of "dec_reader d" "dec_chunk_size d" n "raw_buffer d"] assms
    by (auto simp: dec_R_def)
  then show ?thesis using assms(1) by (auto simp: fill_raw_buffer_def dec_R_def)
qed

lemma step_header:
  assumes R: "dec_R x d b" and ne: "\<not> dec_eof d" and st: "dec_state d = READ_HEADER"
  shows "\<exists>d'. dec_step d = Some d' \<and> dec_R x d' b"
proof -
  obtain p where p: "b = decoded_buffer d @ p"
    "wf_tail READ_HEADER (current_chunk_remaining d) (raw_buffer d @ asgi_rest (dec_reader d)) p"
    using R ne st by (auto simp: dec_R_def)
  have ok0: "0 < dec_chunk_size d" using R by (simp add: dec_R_def)
  obtain h n bs where h: "raw_buffer d @ asgi_rest (dec_reader d) = h @ CRLF @ bs" "CHR 0x0D \<notin> set h"
    "py_int_hex (takeWhile (\<lambda>c. c \<noteq> CHR '';'') h) = Some n"
    "n = 0 \<and> p = [] \<or> 0 < n \<and> wf_tail READ_DATA n bs p"
    using p(2) by (elim wf_headerE) blast+
  obtain ok r raw where f: "fill_raw_buffer 1 d = Some (ok, d\<lparr>dec_reader := r, raw_buffer := raw\<rparr>)"
    "asgi_ok r" "raw @ asgi_rest r = h @ CRLF @ bs" "ok \<longleftrightarrow> 1 \<le> int (length raw)"
    "\<not> ok \<longrightarrow> asgi_rest r = []" "x \<longrightarrow> asgi_rest r = []"
    using fill_raw_buffer_R [OF R, of 1] unfolding h(1) by auto
  have ok: ok using f(3,4,5) by (cases ok) (auto simp: CRLF_def)
  have raw: "raw = take (length raw) (h @ CRLF @ bs)" using f(3) [symmetric] by simp
  let ?d1 = "d\<lparr>dec_reader := r, raw_buffer := raw\<rparr>"
  show ?thesis
  proof (cases "length h + 2 \<le> length raw")
    case True
    then have fc: "find_crlf raw = Some (length h)" using raw find_crlf_take [OF h(2)] by metis
    have tk: "take (length h) raw = h" "drop (length h + 2) raw @ asgi_rest r = bs"
    proof -
      show "take (length h) raw = h" using True raw by (metis append_eq_conv_conj le_add1 le_trans min.absorb1 take_take)
      have "drop (length h + 2) (raw @ asgi_rest r) = bs" by (simp add: f(3) CRLF_def)
      then show "drop (length h + 2) raw @ asgi_rest r = bs" using True by simp
    qed
    show ?thesis
    proof (cases "n = 0")
      case n0: True
      then show ?thesis using f ok fc tk h st ok0 p(1)
        by (auto simp: dec_step_def handle_read_header_def dec_R_def one_read_def)
    next
      case False
      then show ?thesis using f ok fc tk h st ok0 p(1) ne
        by (auto simp: dec_step_def handle_read_header_def dec_R_def one_read_def)
    qed
  next
    case False
    then have fc: "find_crlf raw = None" using raw find_crlf_take [OF h(2)] by metis
    have nx: "\<not> x" using False f(3,6) arg_cong [OF f(3), of length] by (auto simp: CRLF_def)
    have R1: "dec_R x ?d1 b" using f p h(1) ok0 ne st nx by (auto simp: dec_R_def)
    obtain ok' r' raw' where g: "fill_raw_buffer (int (length raw) + 128) ?d1 =
        Some (ok', d\<lparr>dec_reader := r', raw_buffer := raw'\<rparr>)" "asgi_ok r'"
      "raw' @ asgi_rest r' = h @ CRLF @ bs"
      using fill_raw_buffer_R [OF R1, of "int (length raw) + 128"] f(3) by auto
    have "dec_step d = Some (if ok' then d\<lparr>dec_reader := r', raw_buffer := raw'\<rparr>
        else d\<lparr>dec_reader := r', raw_buffer := raw', dec_eof := True\<rparr>)"
      using st f(1) ok fc g(1) by (simp add: dec_step_def handle_read_header_def)
    then show ?thesis using g ok0 p nx ne st h(1) by (auto simp: dec_R_def)
  qed
qed

lemma step_data:
  assumes R: "dec_R x d b" and ne: "\<not> dec_eof d" and st: "dec_state d = READ_DATA"
  shows "\<exists>d'. dec_step d = Some d' \<and> dec_R x d' b"
proof -
  let ?n = "current_chunk_remaining d"
  obtain p where p: "b = decoded_buffer d @ p"
    "wf_tail READ_DATA ?n (raw_buffer d @ asgi_rest (dec_reader d)) p"
    using R ne st by (auto simp: dec_R_def)
  have ok0: "0 < dec_chunk_size d" using R by (simp add: dec_R_def)
  obtain ok r raw where f: "fill_raw_buffer 1 d = Some (ok, d\<lparr>dec_reader := r, raw_buffer := raw\<rparr>)"
    "asgi_ok r" "raw @ asgi_rest r = raw_buffer d @ asgi_rest (dec_reader d)" "ok \<longleftrightarrow> 1 \<le> int (length raw)"
    "\<not> ok \<longrightarrow> asgi_rest r = []" "x \<longrightarrow> asgi_rest r = []"
    using fill_raw_buffer_R [OF R, of 1] by auto
  have w: "wf_tail READ_DATA ?n (raw @ asgi_rest r) p" using p(2) f(3) by simp
  then have n: "0 < ?n" "raw @ asgi_rest r \<noteq> []" by (auto elim!: wf_dataE)
  have ok: ok using f(4,5) n(2) by (cases raw) auto
  define k where "k = min (length raw) (nat ?n)"
  have k: "min (int (length raw)) ?n = int k" "int (length (take k raw)) \<le> ?n" using n by (auto simp: k_def)
  have "wf_tail READ_DATA ?n (take k raw @ drop k raw @ asgi_rest r) p"
    using w by (simp flip: append_assoc)
  from wf_data_split [OF this k(2)] obtain p' where p': "p = take k raw @ p'"
    "if int k = ?n then wf_tail READ_CRLF 0 (drop k raw @ asgi_rest r) p'
     else wf_tail READ_DATA (?n - int k) (drop k raw @ asgi_rest r) p'"
    by (auto simp: k_def min_def split: if_splits)
  have "dec_step d = Some (take_data (d\<lparr>dec_reader := r, raw_buffer := raw\<rparr>))"
    using st f(1) ok by (simp add: dec_step_def handle_read_data_def)
  moreover have "dec_R x (take_data (d\<lparr>dec_reader := r, raw_buffer := raw\<rparr>)) b"
    using f p p' ok0 ne st by (auto simp: dec_R_def take_data_fields k(1) one_read_def)
  ultimately show ?thesis by blast
qed

lemma step_crlf:
  assumes R: "dec_R x d b" and ne: "\<not> dec_eof d" and st: "dec_state d = READ_CRLF"
  shows "\<exists>d'. dec_step d = Some d' \<and> dec_R x d' b"
proof -
  obtain p where p: "b = decoded_buffer d @ p"
    "wf_tail READ_CRLF (current_chunk_remaining d) (raw_buffer d @ asgi_rest (dec_reader d)) p"
    using R ne st by (auto simp: dec_R_def)
  have ok0: "0 < dec_chunk_size d" using R by (simp add: dec_R_def)
  obtain bs where bs: "raw_buffer d @ asgi_rest (dec_reader d) = CRLF @ bs" "wf_tail READ_HEADER 0 bs p"
    using p(2) by (elim wf_crlfE) blast
  obtain ok r raw where f: "fill_raw_buffer 2 d = Some (ok, d\<lparr>dec_reader := r, raw_buffer := raw\<rparr>)"
    "asgi_ok r" "raw @ asgi_rest r = CRLF @ bs" "ok \<longleftrightarrow> 2 \<le> int (length raw)"
    "\<not> ok \<longrightarrow> asgi_rest r = []" "x \<longrightarrow> asgi_rest r = []"
    using fill_raw_buffer_R [OF R, of 2] unfolding bs(1) by auto
  have ok: ok using f(3,4,5) by (cases ok) (auto simp: CRLF_def)
  have "drop 2 (raw @ asgi_rest r) = bs" by (simp add: f(3) CRLF_def)
  then have dr: "drop 2 raw @ asgi_rest r = bs" using f(4) ok by simp
  have "dec_step d = Some (d\<lparr>dec_reader := r, raw_buffer := drop 2 raw, dec_state := READ_HEADER\<rparr>)"
    using st f(1) ok by (simp add: dec_step_def handle_read_crlf_def)
  moreover have "dec_R x (d\<lparr>dec_reader := r, raw_buffer := drop 2 raw, dec_state := READ_HEADER\<rparr>) b"
    using f p dr ok0 ne wf_header_any [OF bs(2)] by (auto simp: dec_R_def one_read_def)
  ultimately show ?thesis by blast
qed

lemma dec_step_R: "dec_R x d b \<Longrightarrow> \<not> dec_eof d \<Longrightarrow> \<exists>d'. dec_step d = Some d' \<and> dec_R x d' b"
  by (cases "dec_state d") (auto intro: step_header step_data step_crlf)

lemma dec_loop_R:
  "dec_R x d b \<Longrightarrow> \<exists>d'. dec_loop n d = Some d' \<and> dec_R x d' b \<and>
     (n \<le> int (length (decoded_buffer d')) \<or> dec_eof d')"
proof (induction n d rule: dec_loop.induct)
  case (1 n d)
  show ?case
  proof (cases "int (length (decoded_buffer d)) < n \<and> \<not> dec_eof d")
    case True
    with dec_step_R "1.prems" obtain d' where d': "dec_step d = Some d'" "dec_R x d' b" by blast
    have "dec_loop n d = dec_loop n d'" using True d'(1) by (simp add: dec_loop.simps [of n d])
    then show ?thesis using "1.IH" [OF True d'] by simp
  next
    case False
    then have "dec_loop n d = Some d" by (subst dec_loop.simps) auto
    then show ?thesis using "1.prems" False by auto
  qed
qed

lemma dec_anext_R:
  assumes "dec_R x d b"
  shows "\<exists>c d' b'. dec_anext d = Some (c, d') \<and> dec_R x d' b' \<and> b = c @ b' \<and> (c = [] \<and> x \<longrightarrow> b' = [])"
proof -
  let ?n = "dec_chunk_size d"
  obtain k where k: "?n = int k" "0 < k" using assms by (metis dec_R_def zero_less_imp_eq_int)
  obtain d1 where d1: "dec_loop ?n d = Some d1" "dec_R x d1 b"
    "?n \<le> int (length (decoded_buffer d1)) \<or> dec_eof d1"
    using dec_loop_R [OF assms] by blast
  obtain p where p: "b = decoded_buffer d1 @ p" "dec_eof d1 \<and> x \<longrightarrow> p = []"
    using d1(2) by (auto simp: dec_R_def split: if_splits)
  let ?d2 = "d1\<lparr>decoded_buffer := drop k (decoded_buffer d1)\<rparr>"
  have "dec_anext d = Some (take k (decoded_buffer d1), ?d2)"
    using d1(1) k by (simp add: dec_anext_def dec_read_n_def)
  moreover have "dec_R x ?d2 (drop k (decoded_buffer d1) @ p)"
    using d1(2) p(1) by (auto simp: dec_R_def)
  ultimately show ?thesis using p k d1(3) by (auto simp flip: append_assoc)
qed

interpretation dec_prefix: prefix_source dec_anext "dec_R False"
  by unfold_locales (use dec_anext_R in blast)

interpretation dec_exact: exact_source dec_anext "dec_R True"
  by unfold_locales (use dec_anext_R in fastforce)+

lemma new_decoder_R:
  assumes "asgi_complete q" and "0 < cs" and "wf_tail READ_HEADER 0 (asgi_body q) p"
    and "x \<longrightarrow> int (length (asgi_body q)) \<le> cs"
  shows "dec_R x (new_decoder (new_asgi q cs) cs) p"
  using assms by (simp add: dec_R_def new_decoder_def new_asgi_def asgi_ok_def asgi_rest_def
      queue_rest_def one_read_def)

text \<open>
  C30. Decoding an aws-chunked upload.  For every complete request whose body is a well-formed
  aws-chunked stream, however the server cuts it into messages, iterating the decoder ends and
  yields a prefix of the payload; it yields the whole payload when the encoded body is no longer
  than one chunk of the reader.
\<close>

theorem chunked_decode_correct:
  assumes "asgi_complete q" and "0 < cs" and "wf_tail READ_HEADER 0 (asgi_body q) payload"
  shows "\<exists>chunks d. drain dec_anext (new_decoder (new_asgi q cs) cs) = Some (chunks, d) \<and>
    (\<exists>lost. payload = concat chunks @ lost \<and> (int (length (asgi_body q)) \<le> cs \<longrightarrow> lost = []))"
proof (cases "int (length (asgi_body q)) \<le> cs")
  case True
  then have "dec_R True (new_decoder (new_asgi q cs) cs) payload" using new_decoder_R [OF assms, of True] by simp
  from dec_exact.drain_exact [OF this] show ?thesis by auto
next
  case False
  have "dec_R False (new_decoder (new_asgi q cs) cs) payload" using new_decoder_R [OF assms, of False] by simp
  from dec_prefix.drain_prefix [OF this] obtain chunks d lost where
    "drain dec_anext (new_decoder (new_asgi q cs) cs) = Some (chunks, d)" "payload = concat chunks @ lost" by blast
  with False show ?thesis by blast
qed

text \<open>Two chunks and the closing chunk, as a signing client sends them (with short signatures).\<close>

definition sample_stream :: bytes where
  "sample_stream =
     ''5;chunk-signature=a1'' @ CRLF @ ''hello'' @ CRLF @
     ''3;chunk-signature=b2'' @ CRLF @ ''abc'' @ CRLF @
     ''0;chunk-signature=c3'' @ CRLF @ CRLF"

lemma sample_stream_wf: "wf_tail READ_HEADER 0 sample_stream (''hello'' @ ''abc'' @ [])"
  unfolding sample_stream_def
  by (rule wf_tail.header [where n = 5], simp, code_simp, simp,
      rule wf_tail.data, simp, simp, rule wf_tail.crlf,
      rule wf_tail.header [where n = 3], simp, code_simp, simp,
      rule wf_tail.data, simp, simp, rule wf_tail.crlf,
      rule wf_tail.last_header, simp, code_simp)

theorem chunked_decode_correct_witness:
  "\<exists>chunks d. drain dec_anext (new_decoder (new_asgi [HttpRequest (Some sample_stream) None] 100) 100) =
     Some (chunks, d) \<and> ''helloabc'' = concat chunks"
proof -
  have len: "int (length (asgi_body [HttpRequest (Some sample_stream) None])) \<le> 100"
    by (simp add: sample_stream_def CRLF_def msg_body_def msg_more_def)
  have "asgi_body [HttpRequest (Some sample_stream) None] = sample_stream"
    by (simp add: msg_body_def msg_more_def)
  then show ?thesis
    using chunked_decode_correct [of "[HttpRequest (Some sample_stream) None]" 100 "''helloabc''"]
      sample_stream_wf len by (auto simp: msg_more_def)
qed


end
