(* ===== verification/Metrics.thy ===== *)
theory Metrics
  imports Prelude
begin

text \<open>
  The calls of the \<open>MetricsTracker\<close> protocol (\<open>src/s3mer/common/metrics.py\<close>) as data: one
  constructor per method, with the method's arguments.  Components append these values to a trace
  in the order in which the code makes the calls.  Durations are numbers of clock ticks.
\<close>

datatype metric =
    record_request string string int nat
  | record_data_transfer string string nat
  | record_replication_task string string
  | record_replication_fanout string nat
  | record_backend_status string bool
  | record_backend_request string string string nat
  | record_active_stream_readers int
  | record_replication_consumer_outcome string string string
  | record_replication_retry string string
  | record_replication_partition_paused string int
  | record_replication_partition_resumed string int
  | set_replication_consumer_concurrency int
  | set_replication_paused_partition string int bool
  | set_replication_background_retries_in_flight string int
  | record_replication_dlq string
  | set_backend_circuit_state string string


end
