(* ===== verification/Http_Front.thy ===== *)
theory Http_Front
  imports Handlers Chunked_Decoder Metrics
begin

text \<open>
  From an HTTP request to an HTTP response: \<open>src/s3mer/routing/dispatcher.py\<close>,
  \<open>src/s3mer/routing/http_handler.py\<close>, \<open>src/s3mer/common/responses.py\<close>,
  \<open>src/s3mer/handlers/internal.py\<close> and \<open>stream_s3_body\<close> of \<open>src/s3mer/common/streaming.py\<close>.

  The state of a request consists of the ASGI messages the server will still deliver, the events sent to
  it, the calls made to the metrics tracker here, and the state \<open>'s\<close> of the rest of the proxy.  Awaiting
  a message when none is left never returns, which is the result \<open>None\<close>.  A streamed request body is handed to
  the strategy as the chunks that the reader will yield; how much of it a strategy reads is decided
  there, so the metrics of these reads are not in the list kept here.

  The libraries are arguments: the XML parser, the UTF-8 decoder, the rendering of the metrics, the
  clock, fresh ids, and the reads of a response stream of the S3 client, which yield chunks and end, or
  raise after some chunks.
\<close>

section \<open>Responses as ASGI events (responses.py)\<close>

datatype asgi_event =
    ResponseStart int "(string \<times> string) list"
  | ResponseBody bytes "bool option" \<comment> \<open>with \<open>more_body\<close>, if present\<close>

record 's http =
  incoming :: "asgi_msg list"
  sent :: "asgi_event list"
  front_metrics :: "metric list"
  proxy :: 's

definition log_metric :: "metric \<Rightarrow> 's http \<Rightarrow> 's http" where
  "log_metric m h = h\<lparr>front_metrics := front_metrics h @ [m]\<rparr>"

definition has_header :: "string \<Rightarrow> (string \<times> string) list \<Rightarrow> bool" where
  "has_header k hs \<longleftrightarrow> list_ex (\<lambda>(h, v). lower h = k) hs"

text \<open>\<open>wrapped_send\<close>: the start event gets the request id, unless it has one.\<close>

definition REQUEST_ID :: string where
  "REQUEST_ID = ''x-s3mer-request-id''"

fun wrapped_send :: "string \<Rightarrow> asgi_event \<Rightarrow> 's http \<Rightarrow> 's http" where
  "wrapped_send rid (ResponseStart st hs) h =
     h\<lparr>sent := sent h @ [ResponseStart st (if has_header REQUEST_ID hs then hs else hs @ [(REQUEST_ID, rid)])]\<rparr>"
| "wrapped_send rid (ResponseBody b m) h = h\<lparr>sent := sent h @ [ResponseBody b m]\<rparr>"

text \<open>The headers of a start event: defaults that the response does not set, then its own in lower case.\<close>

definition start_headers :: "string \<Rightarrow> (string \<times> string) list \<Rightarrow> (string \<times> string) list \<Rightarrow> (string \<times> string) list" where
  "start_headers media defaults extra =
     (if has_header ''content-type'' extra then [] else [(''content-type'', media)]) @
     filter (\<lambda>(k, v). \<not> has_header k extra) defaults @ map (\<lambda>(k, v). (lower k, v)) extra"

text \<open>A response with \<open>on_bytes_sent\<close>: the metric to record for a number of bytes.\<close>

definition count_bytes :: "(nat \<Rightarrow> metric) option \<Rightarrow> bytes \<Rightarrow> 's http \<Rightarrow> 's http" where
  "count_bytes cb b h = (case cb of None \<Rightarrow> h | Some f \<Rightarrow> log_metric (f (length b)) h)"

definition send_plain :: "string \<Rightarrow> (nat \<Rightarrow> metric) option \<Rightarrow> ASGIResponse \<Rightarrow> 's http \<Rightarrow> 's http" where
  "send_plain rid cb r h =
     (let h = wrapped_send rid (ResponseStart (status_code r)
           (start_headers (media_type r) [(''content-length'', py_str (int (length (content r))))] (extra_headers r))) h;
        h = wrapped_send rid (ResponseBody (content r) None) h
      in count_bytes cb (content r) h)"

fun send_chunks :: "string \<Rightarrow> (nat \<Rightarrow> metric) option \<Rightarrow> bytes list \<Rightarrow> 's http \<Rightarrow> 's http" where
  "send_chunks rid cb [] h = h"
| "send_chunks rid cb (c # cs) h = send_chunks rid cb cs (count_bytes cb c (wrapped_send rid (ResponseBody c (Some True)) h))"

text \<open>
  \<open>stream_s3_body\<close>: the chunks it yields and how it ends.  \<open>rd\<close> are the reads of the stream, a
  function of the chunk size and the content.  Anything but a stream has no \<open>content\<close> to read from and
  no \<open>close\<close>.
\<close>

type_synonym body_reads = "int \<Rightarrow> bytes \<Rightarrow> bytes list \<times> pyexc option"

definition stream_s3_body :: "body_reads \<Rightarrow> int \<Rightarrow> pdict \<Rightarrow> bytes list \<times> pyexc option" where
  "stream_s3_body rd chunk_size s3_response =
     (case map_of s3_response ''Body'' of
        None \<Rightarrow> ([], Some (PyKeyError ''Body''))
      | Some (VStreamBody b) \<Rightarrow> rd chunk_size b
      | Some _ \<Rightarrow> ([], Some (PyAttributeError ''close'')))"

definition send_streamed ::
  "string \<Rightarrow> (nat \<Rightarrow> metric) option \<Rightarrow> bytes list \<times> pyexc option \<Rightarrow> string \<Rightarrow> (string \<times> string) list \<Rightarrow> int \<Rightarrow> 's http \<Rightarrow> pyexc option \<times> 's http" where
  "send_streamed rid cb generator media hs st h =
     (let h = wrapped_send rid (ResponseStart st (start_headers media [] hs)) h;
        h = send_chunks rid cb (fst generator) h
      in case snd generator of
          Some e \<Rightarrow> (Some e, h)
        | None \<Rightarrow> (None, wrapped_send rid (ResponseBody [] (Some False)) h))"

fun response_status :: "response \<Rightarrow> int" where
  "response_status (Plain r) = status_code r"
| "response_status (Streamed r media hs st) = st"

fun set_header :: "string \<Rightarrow> string \<Rightarrow> response \<Rightarrow> response" where
  "set_header k v (Plain r) = Plain (r\<lparr>extra_headers := AList.update k v (extra_headers r)\<rparr>)"
| "set_header k v (Streamed r media hs st) = Streamed r media (AList.update k v hs) st"

fun send_response ::
  "body_reads \<Rightarrow> int \<Rightarrow> string \<Rightarrow> (nat \<Rightarrow> metric) option \<Rightarrow> response \<Rightarrow> 's http \<Rightarrow> pyexc option \<times> 's http" where
  "send_response rd cs rid cb (Plain r) h = (None, send_plain rid cb r h)"
| "send_response rd cs rid cb (Streamed r media hs st) h = send_streamed rid cb (stream_s3_body rd cs r) media hs st h"

section \<open>The dispatcher (dispatcher.py)\<close>

record 's RequestDispatcher =
  read_strategy :: "S3Operation \<Rightarrow> pdict \<Rightarrow> 's \<Rightarrow> (pyexc + pdict) \<times> 's"
  write_strategy :: "S3Operation \<Rightarrow> pdict \<Rightarrow> body \<Rightarrow> bool \<Rightarrow> 's \<Rightarrow> (pyexc + pdict) \<times> 's"
  stream_config :: StreamConfig
  lib_fromstring :: "string \<Rightarrow> pyexc + xml_node"
  lib_fromstring_bytes :: "bytes \<Rightarrow> pyexc + xml_node"
  lib_decode_utf8 :: "bytes \<Rightarrow> pyexc + string"
  lib_fresh_id :: "'s \<Rightarrow> string \<times> 's"
  lib_now :: "'s \<Rightarrow> int"

text \<open>\<open>int(text) if text else None\<close>.\<close>

definition length_header :: "string option \<Rightarrow> pyexc + int option" where
  "length_header v =
     (case v of
        None \<Rightarrow> Inr None
      | Some t \<Rightarrow> if t = [] then Inr None else (case py_int t of None \<Rightarrow> Inl (PyValueError t) | Some i \<Rightarrow> Inr (Some i)))"

definition STREAMING_PAYLOAD :: string where
  "STREAMING_PAYLOAD = ''STREAMING-AWS4-HMAC-SHA256-PAYLOAD''"

text \<open>The reader of a streamed body, by the chunks it will yield.\<close>

definition streamed_chunks :: "bool \<Rightarrow> int \<Rightarrow> asgi_msg list \<Rightarrow> bytes list option" where
  "streamed_chunks encoded cs q =
     (if encoded then map_option fst (drain dec_anext (new_decoder (new_asgi q cs) cs))
      else map_option fst (drain asgi_anext (new_asgi q cs)))"

definition prepare_streaming_body ::
  "StreamConfig \<Rightarrow> (string \<times> string) list \<Rightarrow> asgi_msg list \<Rightarrow> (pyexc + (body \<times> int option)) option" where
  "prepare_streaming_body cfg headers q =
     (let encoded = (map_of headers ''x-amz-content-sha256'' = Some STREAMING_PAYLOAD);
        decoded_length = map_of headers ''x-amz-decoded-content-length''
      in case ebind (length_header (map_of headers ''content-length'')) (\<lambda>n.
           if encoded \<and> truthy_str decoded_length then length_header decoded_length else Inr n) of
          Inl e \<Rightarrow> Some (Inl e)
        | Inr n \<Rightarrow> map_option (\<lambda>cs. Inr (BodyStream cs, n)) (streamed_chunks encoded (sc_chunk_size cfg) q))"

text \<open>\<open>_read_body\<close>: the body, the messages left, and the metrics recorded on the way.\<close>

fun read_body :: "string \<Rightarrow> asgi_msg list \<Rightarrow> bytes \<Rightarrow> (bytes \<times> asgi_msg list \<times> metric list) option" where
  "read_body op [] body = None"
| "read_body op (HttpRequest b m # q) body =
     (let chunk = msg_body b;
        ms = (if chunk \<noteq> [] then [record_data_transfer ''in'' op (length chunk)] else [])
      in if \<not> msg_more m then Some (body @ chunk, q, ms)
         else map_option (\<lambda>(r, q, ms'). (r, q, ms @ ms')) (read_body op q (body @ chunk)))"
| "read_body op (HttpDisconnect # q) body = Some (body, q, [])"
| "read_body op (OtherMessage t # q) body = read_body op q body"

definition make_context ::
  "'s RequestDispatcher \<Rightarrow> S3Request \<Rightarrow> (string \<times> string) list \<Rightarrow> string \<Rightarrow> body \<Rightarrow> int option \<Rightarrow> 's HandlerContext" where
  "make_context d req headers query_string body n =
     \<lparr>ctx_operation = req_operation req, ctx_bucket = (case req_bucket req of None \<Rightarrow> [] | Some b \<Rightarrow> b), ctx_key = req_key req,
      ctx_read = read_strategy d, ctx_write = write_strategy d, ctx_headers = headers, ctx_query = query_string,
      ctx_body = body, ctx_content_length = n, ctx_fromstring = lib_fromstring d, ctx_fromstring_bytes = lib_fromstring_bytes d,
      ctx_decode_utf8 = lib_decode_utf8 d, ctx_fresh_id = lib_fresh_id d, ctx_now = lib_now d\<rparr>"

text \<open>An error response with a request id of its own.\<close>

definition own_error :: "'s RequestDispatcher \<Rightarrow> S3ErrorCode \<Rightarrow> string \<Rightarrow> string option \<Rightarrow> 's http \<Rightarrow> response \<times> 's http" where
  "own_error d ec msg res h =
     (let (rid, s) = lib_fresh_id d (proxy h) in
      (Plain (error_to_response \<lparr>error_code = ec, err_msg = Some msg, err_resource = res, err_request_id = rid\<rparr>), h\<lparr>proxy := s\<rparr>))"

definition call_handler :: "'s HandlerMetadata \<Rightarrow> 's HandlerContext \<Rightarrow> 's http \<Rightarrow> (pyexc + response) \<times> 's http" where
  "call_handler md ctx h = (case md_func md ctx (proxy h) of (resp, s) \<Rightarrow> (Inr resp, h\<lparr>proxy := s\<rparr>))"

definition dispatch_request ::
  "'s RequestDispatcher \<Rightarrow> S3Request \<Rightarrow> (string \<times> string) list \<Rightarrow> string \<Rightarrow> 's http \<Rightarrow> ((pyexc + response) \<times> 's http) option" where
  "dispatch_request d req headers query_string h =
     (case registry_get handler_registry (req_operation req) of
        None \<Rightarrow> (let (r, h) = own_error d METHOD_NOT_ALLOWED (''Operation '' @ op_value (req_operation req) @ '' not implemented'') None h in Some (Inr r, h))
      | Some md \<Rightarrow>
          if md_is_object_op md \<and> req_key req = None then
            (let (r, h) = own_error d NO_SUCH_KEY ''Object key is required''
                (Some (''/'' @ (case req_bucket req of None \<Rightarrow> ''None'' | Some b \<Rightarrow> b))) h in Some (Inr r, h))
          else
            (case md_body_style md of
               STREAM \<Rightarrow>
                 (case prepare_streaming_body (stream_config d) headers (incoming h) of
                    None \<Rightarrow> None
                  | Some (Inl e) \<Rightarrow> Some (Inl e, h)
                  | Some (Inr (body, n)) \<Rightarrow> Some (call_handler md (make_context d req headers query_string body n) h))
             | BUFFERED \<Rightarrow>
                 (case read_body (op_value (req_operation req)) (incoming h) [] of
                    None \<Rightarrow> None
                  | Some (body, q, ms) \<Rightarrow>
                      Some (call_handler md (make_context d req headers query_string (BodyBytes body) None)
                        (h\<lparr>incoming := q, front_metrics := front_metrics h @ ms\<rparr>)))
             | EMPTY \<Rightarrow> Some (call_handler md (make_context d req headers query_string BodyNone None) h)))"

section \<open>The HTTP handler (http\_handler.py, internal.py)\<close>

record 's S3HTTPHandler =
  dispatcher :: "'s RequestDispatcher option"
  lib_generate_latest :: "'s \<Rightarrow> bytes"
  CONTENT_TYPE_LATEST :: string
  lib_uuid :: "'s \<Rightarrow> string \<times> 's"
  lib_clock :: "'s \<Rightarrow> nat"
  lib_body_reads :: body_reads
  response_chunk_size :: int

record http_scope =
  sc_method :: string
  sc_path :: string
  sc_query_string :: string
  sc_headers :: "(string \<times> string) list"

definition request_headers :: "http_scope \<Rightarrow> (string \<times> string) list" where
  "request_headers sc = py_dict (map (\<lambda>(k, v). (lower k, v)) (sc_headers sc))"

definition metrics_handler :: "'s S3HTTPHandler \<Rightarrow> string \<Rightarrow> 's http \<Rightarrow> 's http" where
  "metrics_handler H rid h =
     send_plain rid None \<lparr>content = lib_generate_latest H (proxy h), status_code = 200, media_type = CONTENT_TYPE_LATEST H, extra_headers = []\<rparr> h"

definition health_handler :: "string \<Rightarrow> 's http \<Rightarrow> 's http" where
  "health_handler rid h =
     send_plain rid None \<lparr>content = ''{\"status\":\"ok\"}'', status_code = 200, media_type = ''application/json'', extra_headers = []\<rparr> h"

definition front_error :: "S3ErrorCode \<Rightarrow> string option \<Rightarrow> string option \<Rightarrow> string \<Rightarrow> ASGIResponse" where
  "front_error ec msg res rid =
     error_to_response \<lparr>error_code = ec, err_msg = msg, err_resource = res, err_request_id = rid\<rparr>"

definition with_request_id :: "string \<Rightarrow> ASGIResponse \<Rightarrow> ASGIResponse" where
  "with_request_id rid r = r\<lparr>extra_headers := AList.update REQUEST_ID rid (extra_headers r)\<rparr>"

definition handle_internal_routes :: "'s S3HTTPHandler \<Rightarrow> http_scope \<Rightarrow> string \<Rightarrow> 's http \<Rightarrow> 's http" where
  "handle_internal_routes H sc rid h =
     (if sc_method sc = ''GET'' \<and> sc_path sc = ''/.internal/metrics'' then metrics_handler H rid h
      else if sc_method sc = ''GET'' \<and> sc_path sc = ''/.internal/health'' then health_handler rid h
      else send_plain rid None (with_request_id rid (front_error ACCESS_DENIED (Some ''Unknown internal endpoint'') (Some (sc_path sc)) rid)) h)"

text \<open>\<open>_dispatch_request\<close>: whatever the dispatcher raises becomes an error response.\<close>

definition run_dispatcher ::
  "'s S3HTTPHandler \<Rightarrow> S3Request \<Rightarrow> (string \<times> string) list \<Rightarrow> string \<Rightarrow> string \<Rightarrow> string \<Rightarrow> 's http \<Rightarrow> (response \<times> 's http) option" where
  "run_dispatcher H req headers query_string rid path h =
     (case dispatcher H of
        None \<Rightarrow> Some (Plain (front_error INTERNAL_ERROR (Some ''Proxy not initialized'') None rid), h)
      | Some d \<Rightarrow>
          (case dispatch_request d req headers query_string h of
             None \<Rightarrow> None
           | Some (Inl e, h) \<Rightarrow> Some (Plain (error_to_response ((from_client_error rid e (Some path))\<lparr>err_request_id := rid\<rparr>)), h)
           | Some (Inr r, h) \<Rightarrow> Some (r, h)))"

definition needs_close :: "S3Operation \<Rightarrow> response \<Rightarrow> bool" where
  "needs_close op resp \<longleftrightarrow> op_value op \<in> {''put_object'', ''upload_part''} \<and> 400 \<le> response_status resp"

text \<open>The \<open>finally\<close> block: one \<open>record_request\<close>, with status 500 when none was set.\<close>

definition finish_request :: "'s S3HTTPHandler \<Rightarrow> string \<Rightarrow> string \<Rightarrow> int \<Rightarrow> nat \<Rightarrow> pyexc option \<times> 's http \<Rightarrow> pyexc option \<times> 's http" where
  "finish_request H mth op st start r =
     (fst r, log_metric (record_request mth op (if st = 0 then 500 else st) (lib_clock H (proxy (snd r)) - start)) (snd r))"

definition handle_s3_request ::
  "'s S3HTTPHandler \<Rightarrow> http_scope \<Rightarrow> (string \<times> string) list \<Rightarrow> string \<Rightarrow> 's http \<Rightarrow> (pyexc option \<times> 's http) option" where
  "handle_s3_request H sc headers rid h =
     (let start = lib_clock H (proxy h) in
      case classify_request (sc_method sc) (sc_path sc) (sc_query_string sc) (Some headers) of
        Inl e \<Rightarrow>
          Some (finish_request H (sc_method sc) ''unknown'' 405 start
            (None, send_plain rid None (with_request_id rid (front_error METHOD_NOT_ALLOWED None (Some (sc_path sc)) rid)) h))
      | Inr req \<Rightarrow>
          (case run_dispatcher H req headers (sc_query_string sc) rid (sc_path sc) h of
             None \<Rightarrow> None
           | Some (resp, h) \<Rightarrow>
               (let op = op_value (req_operation req);
                  resp = set_header REQUEST_ID rid resp;
                  resp = (if needs_close (req_operation req) resp then set_header ''connection'' ''close'' resp else resp)
                in Some (finish_request H (sc_method sc) op (response_status resp) start
                  (send_response (lib_body_reads H) (response_chunk_size H) rid (Some (record_data_transfer ''out'' op)) resp h)))))"

definition http_call :: "'s S3HTTPHandler \<Rightarrow> http_scope \<Rightarrow> 's http \<Rightarrow> (pyexc option \<times> 's http) option" where
  "http_call H sc h =
     (let headers = request_headers sc;
        (rid, h) = (case map_of headers REQUEST_ID of
            Some (c # cs) \<Rightarrow> (c # cs, h)
          | _ \<Rightarrow> (let (rid, s) = lib_uuid H (proxy h) in (rid, h\<lparr>proxy := s\<rparr>)))
      in if take 11 (sc_path sc) = ''/.internal/'' then Some (None, handle_internal_routes H sc rid h)
         else handle_s3_request H sc headers rid h)"

end
