(* ===== verification/Http_Properties.thy ===== *)
theory Http_Properties
  imports Http_Front
begin

text \<open>
  What holds of every request that reaches the HTTP handler: it has a registered handler, its body is
  read completely, it is answered by exactly one response which carries the request id, and it is
  recorded exactly once, under the status that was sent.
\<close>

section \<open>The registry knows every classified request\<close>

lemmas registry_defs = handler_registry_def register_object_handlers_def register_bucket_handlers_def register_def registry_get_def

lemma registered_operation:
  assumes "op \<noteq> POST_OBJECT"
  shows "\<exists>md. registry_get handler_registry op = Some md \<and> md_operation md = op \<and> (md_is_object_op md \<longleftrightarrow> op_depth op = 2)"
  using assms by (cases op) (simp_all add: registry_defs op_depth_def)

lemma classified_has_shape:
  assumes "classify_request mth path qs headers = Inr r"
  shows "req_operation r \<noteq> POST_OBJECT \<and> (op_depth (req_operation r) = 2 \<longleftrightarrow> req_key r \<noteq> None)"
  using classify_request_parts [OF assms] by (auto split: if_splits)

text \<open>
  C34. Every request that is classified has a handler, registered for its operation, and the handler
  is one for objects exactly when the request names a key.  So the dispatcher's own errors
  (\<open>MethodNotAllowed\<close>, \<open>NoSuchKey\<close>) never answer a classified request.
\<close>

theorem classified_request_is_dispatched:
  assumes "classify_request mth path qs headers = Inr r"
  shows "\<exists>md. registry_get handler_registry (req_operation r) = Some md \<and> md_operation md = req_operation r \<and>
    (md_is_object_op md \<longleftrightarrow> req_key r \<noteq> None)"
  using registered_operation classified_has_shape [OF assms] by blast

section \<open>Buffered request bodies\<close>

lemma read_body_acc:
  assumes "asgi_complete q"
  shows "\<exists>q' ms. read_body op q acc = Some (acc @ asgi_body q, q', ms) \<and>
    list_all (\<lambda>m. \<exists>n. m = record_data_transfer ''in'' op n) ms \<and>
    sum_list (map (\<lambda>m. case m of record_data_transfer d o' n \<Rightarrow> n | _ \<Rightarrow> 0) ms) = length (asgi_body q)"
  using assms
proof (induction op q acc rule: read_body.induct)
  case (2 op b m q body)
  show ?case
  proof (cases "msg_more m")
    case True
    with 2(2) have "asgi_complete q" by simp
    from "2.IH" [OF refl refl _ this] True obtain q' ms where "read_body op q (body @ msg_body b) = Some ((body @ msg_body b) @ asgi_body q, q', ms)"
      "list_all (\<lambda>m. \<exists>n. m = record_data_transfer ''in'' op n) ms"
      "sum_list (map (\<lambda>m. case m of record_data_transfer d o' n \<Rightarrow> n | _ \<Rightarrow> 0) ms) = length (asgi_body q)"
      by auto
    with True show ?thesis by (simp add: Let_def)
  qed (simp add: Let_def)
qed simp_all

lemma read_body_incomplete: "\<not> asgi_complete q \<Longrightarrow> read_body op q acc = None"
  by (induction op q acc rule: read_body.induct) (simp_all add: Let_def)

lemma drain_nonempty:
  assumes "drain rd s = Some (cs, s')"
  shows "[] \<notin> set cs"
proof -
  have "[] \<notin> set (fst (cs, s'))"
    using assms by (rule drain.raw_induct [where P = "\<lambda>rd s r. [] \<notin> set (fst r)", rotated])
      (auto simp: bind_eq_Some_conv split: if_splits)
  then show ?thesis by simp
qed

lemma streamed_plain:
  assumes "asgi_complete q" and "0 < cs"
  shows "\<exists>chunks. streamed_chunks False cs q = Some chunks \<and> concat chunks = asgi_body q \<and> [] \<notin> set chunks"
proof -
  have "asgi_inv (new_asgi q cs)" "asgi_rest (new_asgi q cs) = asgi_body q"
    using assms by (simp_all add: new_asgi_def asgi_inv_def asgi_ok_def asgi_rest_def queue_rest_def)
  with asgi.drain_collects [of "new_asgi q cs"] obtain chunks r where
    "drain asgi_anext (new_asgi q cs) = Some (chunks, r)" "concat chunks = asgi_body q" by auto
  with drain_nonempty [OF this(1)] show ?thesis by (simp add: streamed_chunks_def)
qed

text \<open>
  C29. Request bodies arrive whole.  Buffered or streamed, the handler is given exactly the bytes the
  client sent up to the end of the body or its disconnection, in chunks none of which is empty; reading a
  buffered body ends if and only if the server announces the end or a disconnection, and the bytes recorded
  as received are as many as the body has.
\<close>

theorem request_body_is_delivered:
  "(case read_body op q [] of
      None \<Rightarrow> \<not> asgi_complete q
    | Some (b, q', ms) \<Rightarrow> asgi_complete q \<and> b = asgi_body q \<and>
        sum_list (map (\<lambda>m. case m of record_data_transfer d o' n \<Rightarrow> n | _ \<Rightarrow> 0) ms) = length b \<and>
        (0 < cs \<longrightarrow> (\<exists>chunks. streamed_chunks False cs q = Some chunks \<and> concat chunks = b \<and> [] \<notin> set chunks)))"
  using read_body_acc [of q op "[]"] read_body_incomplete [of q op "[]"] streamed_plain [of q cs]
  by (cases "asgi_complete q") fastforce+

theorem request_body_is_delivered_witness:
  "\<exists>chunks. streamed_chunks False 2 [HttpRequest (Some ''ab'') (Some True), OtherMessage ''x'', HttpRequest (Some ''c'') None] = Some chunks \<and>
     concat chunks = ''abc''"
proof -
  have "read_body ''put_object'' [HttpRequest (Some ''ab'') (Some True), OtherMessage ''x'', HttpRequest (Some ''c'') None] [] =
      Some (''abc'', [], [record_data_transfer ''in'' ''put_object'' 2, record_data_transfer ''in'' ''put_object'' 1])"
    by (simp add: msg_body_def msg_more_def Let_def)
  with request_body_is_delivered [of "[HttpRequest (Some ''ab'') (Some True), OtherMessage ''x'', HttpRequest (Some ''c'') None]" 2 "''put_object''"]
  show ?thesis by auto
qed

section \<open>Responses as events\<close>

fun body_bytes_of :: "asgi_event list \<Rightarrow> bytes" where
  "body_bytes_of [] = []"
| "body_bytes_of (ResponseBody b m # es) = b @ body_bytes_of es"
| "body_bytes_of (ResponseStart st hs # es) = body_bytes_of es"

text \<open>Body events of a response that is still open, and of one that is finished.\<close>

definition open_body :: "asgi_event list \<Rightarrow> bool" where
  "open_body es \<longleftrightarrow> list_all (\<lambda>e. \<exists>b. e = ResponseBody b (Some True)) es"

definition complete_body :: "asgi_event list \<Rightarrow> bool" where
  "complete_body es \<longleftrightarrow> (\<exists>os b m. es = os @ [ResponseBody b m] \<and> open_body os \<and> m \<noteq> Some True)"

lemma open_body_simps [simp]: "open_body []" "open_body (ResponseBody b (Some True) # es) = open_body es"
  by (simp_all add: open_body_def)

lemma complete_body_append: "open_body os \<Longrightarrow> m \<noteq> Some True \<Longrightarrow> complete_body (os @ [ResponseBody b m])"
  by (auto simp: complete_body_def)

lemma complete_body_one [simp]: "m \<noteq> Some True \<Longrightarrow> complete_body [ResponseBody b m]"
  using complete_body_append [of "[]"] by simp

lemma body_bytes_of_append [simp]: "body_bytes_of (xs @ ys) = body_bytes_of xs @ body_bytes_of ys"
  by (induction xs rule: body_bytes_of.induct) auto

definition is_transfer :: "metric \<Rightarrow> bool" where
  "is_transfer m = (case m of record_data_transfer d o' n \<Rightarrow> True | _ \<Rightarrow> False)"

text \<open>What sending a response adds to the state of the request.\<close>

definition answered :: "int \<Rightarrow> (string \<times> string) list \<Rightarrow> bytes \<Rightarrow> pyexc option \<Rightarrow> 's http \<Rightarrow> 's http \<Rightarrow> bool" where
  "answered st hs b exc h h' \<longleftrightarrow> (\<exists>bodies ms. sent h' = sent h @ ResponseStart st hs # bodies \<and>
     front_metrics h' = front_metrics h @ ms \<and> list_all is_transfer ms \<and> body_bytes_of bodies = b \<and>
     (if exc = None then complete_body bodies else open_body bodies) \<and> proxy h' = proxy h \<and> incoming h' = incoming h)"

definition sent_headers :: "string \<Rightarrow> (string \<times> string) list \<Rightarrow> (string \<times> string) list" where
  "sent_headers rid hs = (if has_header REQUEST_ID hs then hs else hs @ [(REQUEST_ID, rid)])"

lemma log_metric_simps [simp]:
  "sent (log_metric m h) = sent h" "front_metrics (log_metric m h) = front_metrics h @ [m]"
  "proxy (log_metric m h) = proxy h" "incoming (log_metric m h) = incoming h"
  by (simp_all add: log_metric_def)

definition counts :: "(nat \<Rightarrow> metric) option \<Rightarrow> bool" where
  "counts cb \<longleftrightarrow> (\<forall>f. cb = Some f \<longrightarrow> (\<forall>n. is_transfer (f n)))"

lemma counts_out [simp]: "counts None" "counts (Some (record_data_transfer d op))"
  by (simp_all add: counts_def is_transfer_def)

lemma count_bytes_law:
  "counts cb \<Longrightarrow> \<exists>ms. count_bytes cb b h = h\<lparr>front_metrics := front_metrics h @ ms\<rparr> \<and> list_all is_transfer ms"
  by (cases cb) (auto simp: count_bytes_def counts_def log_metric_def intro: exI [of _ "[]"])

lemma send_chunks_law:
  assumes "counts cb"
  shows "\<exists>bodies ms. send_chunks rid cb cs h = h\<lparr>sent := sent h @ bodies, front_metrics := front_metrics h @ ms\<rparr> \<and>
    open_body bodies \<and> body_bytes_of bodies = concat cs \<and> list_all is_transfer ms"
proof (induction cs arbitrary: h)
  case Nil
  show ?case by (intro exI [of _ "[]"]) simp
next
  case (Cons c cs)
  let ?h1 = "wrapped_send rid (ResponseBody c (Some True)) h"
  obtain m1 where 1: "count_bytes cb c ?h1 = ?h1\<lparr>front_metrics := front_metrics ?h1 @ m1\<rparr>" "list_all is_transfer m1"
    using count_bytes_law [OF assms] by blast
  obtain bodies ms where 2: "send_chunks rid cb cs (count_bytes cb c ?h1) =
      (count_bytes cb c ?h1)\<lparr>sent := sent (count_bytes cb c ?h1) @ bodies, front_metrics := front_metrics (count_bytes cb c ?h1) @ ms\<rparr>"
    "open_body bodies" "body_bytes_of bodies = concat cs" "list_all is_transfer ms"
    using Cons.IH by blast
  show ?case
    by (intro exI [of _ "ResponseBody c (Some True) # bodies"] exI [of _ "m1 @ ms"]) (use 1 2 in simp)
qed

fun response_headers :: "response \<Rightarrow> (string \<times> string) list" where
  "response_headers (Plain r) = start_headers (media_type r) [(''content-length'', py_str (int (length (content r))))] (extra_headers r)"
| "response_headers (Streamed r media hs st) = start_headers media [] hs"

fun response_body :: "body_reads \<Rightarrow> int \<Rightarrow> response \<Rightarrow> bytes" where
  "response_body rd cs (Plain r) = content r"
| "response_body rd cs (Streamed r media hs st) = concat (fst (stream_s3_body rd cs r))"

fun response_exc :: "body_reads \<Rightarrow> int \<Rightarrow> response \<Rightarrow> pyexc option" where
  "response_exc rd cs (Plain r) = None"
| "response_exc rd cs (Streamed r media hs st) = snd (stream_s3_body rd cs r)"

lemma send_plain_law:
  assumes "counts cb"
  shows "answered (status_code r) (sent_headers rid (response_headers (Plain r))) (content r) None h (send_plain rid cb r h)"
proof -
  let ?hs = "sent_headers rid (response_headers (Plain r))"
  let ?h1 = "h\<lparr>sent := sent h @ [ResponseStart (status_code r) ?hs, ResponseBody (content r) None]\<rparr>"
  obtain ms where "count_bytes cb (content r) ?h1 = ?h1\<lparr>front_metrics := front_metrics ?h1 @ ms\<rparr>" "list_all is_transfer ms"
    using count_bytes_law [OF assms] by blast
  moreover have "send_plain rid cb r h = count_bytes cb (content r) ?h1"
    by (simp add: send_plain_def sent_headers_def)
  ultimately show ?thesis
    unfolding answered_def by (intro exI [of _ "[ResponseBody (content r) None]"] exI [of _ ms]) simp
qed

lemma send_response_law:
  assumes "counts cb" and "send_response rd cs rid cb resp h = (exc, h')"
  shows "exc = response_exc rd cs resp \<and>
    answered (response_status resp) (sent_headers rid (response_headers resp)) (response_body rd cs resp) exc h h'"
proof (cases resp)
  case (Plain r)
  then show ?thesis using assms send_plain_law [of cb r rid h] by simp
next
  case (Streamed r media hs st)
  let ?hs = "sent_headers rid (start_headers media [] hs)"
  let ?h1 = "h\<lparr>sent := sent h @ [ResponseStart st ?hs]\<rparr>"
  obtain bodies ms where c: "send_chunks rid cb (fst (stream_s3_body rd cs r)) ?h1 =
      ?h1\<lparr>sent := sent ?h1 @ bodies, front_metrics := front_metrics ?h1 @ ms\<rparr>"
    "open_body bodies" "body_bytes_of bodies = concat (fst (stream_s3_body rd cs r))" "list_all is_transfer ms"
    using send_chunks_law [OF assms(1)] by blast
  have w: "wrapped_send rid (ResponseStart st (start_headers media [] hs)) h = ?h1"
    by (simp add: sent_headers_def)
  show ?thesis
  proof (cases "snd (stream_s3_body rd cs r)")
    case None
    with assms(2) Streamed w c(1) have "exc = None" "h' = ?h1\<lparr>sent := sent ?h1 @ bodies @ [ResponseBody [] (Some False)],
        front_metrics := front_metrics ?h1 @ ms\<rparr>"
      by (auto simp: send_streamed_def Let_def)
    then show ?thesis using Streamed None c(2,3,4) unfolding answered_def
      by (intro conjI exI [of _ "bodies @ [ResponseBody [] (Some False)]"] exI [of _ ms]) (simp_all add: complete_body_append)
  next
    case (Some e)
    with assms(2) Streamed w c(1) have "exc = Some e" "h' = ?h1\<lparr>sent := sent ?h1 @ bodies, front_metrics := front_metrics ?h1 @ ms\<rparr>"
      by (auto simp: send_streamed_def Let_def)
    then show ?thesis using Streamed Some c(2,3,4) unfolding answered_def
      by (intro conjI exI [of _ bodies] exI [of _ ms]) simp_all
  qed
qed

section \<open>One answer and one record per request\<close>

lemma in_update: "(k, v) \<in> set (AList.update k v d)"
  by (induction d) auto

lemma in_update_other: "(a, b) \<in> set d \<Longrightarrow> a \<noteq> k \<Longrightarrow> (a, b) \<in> set (AList.update k v d)"
  by (induction d) auto

lemma lower_request_id [simp]: "lower REQUEST_ID = REQUEST_ID"
  by code_simp

fun response_extra :: "response \<Rightarrow> (string \<times> string) list" where
  "response_extra (Plain r) = extra_headers r"
| "response_extra (Streamed r media hs st) = hs"

lemma response_extra_set_header [simp]: "response_extra (set_header k v resp) = AList.update k v (response_extra resp)"
  and response_status_set_header [simp]: "response_status (set_header k v resp) = response_status resp"
  by (cases resp; simp)+

lemma sent_headers_request_id:
  assumes "(REQUEST_ID, rid) \<in> set (response_extra resp)"
  shows "(REQUEST_ID, rid) \<in> set (sent_headers rid' (response_headers resp))"
proof -
  have "(REQUEST_ID, rid) \<in> set (start_headers m ds hs)" if "(REQUEST_ID, rid) \<in> set hs" for m ds hs
    using that by (force simp: start_headers_def)
  with assms show ?thesis by (cases resp) (auto simp: sent_headers_def)
qed

lemma sent_headers_default:
  assumes "\<not> has_header REQUEST_ID (response_headers resp)"
  shows "(REQUEST_ID, rid) \<in> set (sent_headers rid (response_headers resp))"
  using assms by (simp add: sent_headers_def)

text \<open>The work before the response leaves what has been sent alone.\<close>

definition before_response :: "'s http \<Rightarrow> 's http \<Rightarrow> bool" where
  "before_response h h' \<longleftrightarrow> sent h' = sent h \<and> (\<exists>ms. front_metrics h' = front_metrics h @ ms \<and> list_all is_transfer ms)"

lemma before_response_refl [simp]: "before_response h h" "before_response h (h\<lparr>proxy := s\<rparr>)"
  by (simp_all add: before_response_def)

lemma read_body_transfers: "read_body op q acc = Some (b, q', ms) \<Longrightarrow> list_all is_transfer ms"
proof (induction op q acc arbitrary: b q' ms rule: read_body.induct)
  case (2 op b m q body)
  then show ?case by (auto simp: Let_def is_transfer_def split: if_splits)
qed auto

lemma own_error_before: "own_error d ec msg res h = (r, h') \<Longrightarrow> before_response h h'"
  by (auto simp: own_error_def split: prod.splits)

lemma call_handler_before: "call_handler md ctx h = (r, h') \<Longrightarrow> h' = h\<lparr>proxy := proxy h'\<rparr>"
  by (auto simp: call_handler_def split: prod.splits)

lemma dispatch_request_before:
  assumes "dispatch_request d req headers qs h = Some (res, h')"
  shows "before_response h h'"
proof (cases "registry_get handler_registry (req_operation req) :: 'a HandlerMetadata option")
  case None
  then show ?thesis using assms own_error_before [of d] by (auto simp: dispatch_request_def split: prod.splits)
next
  case (Some md)
  note e = assms [unfolded dispatch_request_def Some option.case Let_def]
  show ?thesis
  proof (cases "md_is_object_op md \<and> req_key req = None")
    case True
    then show ?thesis using e own_error_before [of d] by (auto split: prod.splits)
  next
    case False
    show ?thesis
    proof (cases "md_body_style md")
      case STREAM
      with e False obtain p where p: "prepare_streaming_body (stream_config d) headers (incoming h) = Some p"
        by (cases "prepare_streaming_body (stream_config d) headers (incoming h)") auto
      show ?thesis
      proof (cases p)
        case (Inr bn)
        obtain body n where "bn = (body, n)" by force
        moreover obtain r h1 where c: "call_handler md (make_context d req headers qs body n) h = (r, h1)" by force
        ultimately have "h' = h1" using e False STREAM p Inr by simp
        with call_handler_before [OF c] show ?thesis by (metis before_response_refl(2))
      qed (use e False STREAM p in auto)
    next
      case BUFFERED
      with e False obtain b q ms where r: "read_body (op_value (req_operation req)) (incoming h) [] = Some (b, q, ms)"
        "sent h' = sent h" "front_metrics h' = front_metrics h @ ms"
        by (cases "read_body (op_value (req_operation req)) (incoming h) []") (auto simp: call_handler_def split: prod.splits)
      then show ?thesis using read_body_transfers [OF r(1)] by (auto simp: before_response_def)
    next
      case EMPTY
      then show ?thesis using e False by (auto simp: call_handler_def split: prod.splits)
    qed
  qed
qed

lemma run_dispatcher_before:
  "run_dispatcher H req headers qs rid path h = Some (resp, h') \<Longrightarrow> before_response h h'"
proof (cases "dispatcher H")
  case (Some d)
  assume "run_dispatcher H req headers qs rid path h = Some (resp, h')"
  with Some obtain res where "dispatch_request d req headers qs h = Some (res, h')"
    by (cases "dispatch_request d req headers qs h") (auto simp: run_dispatcher_def split: prod.splits sum.splits)
  then show ?thesis by (rule dispatch_request_before)
qed (simp add: run_dispatcher_def)

text \<open>The request id is the client's or a fresh one.\<close>

lemma request_id_choice:
  "\<exists>rid h1. (\<forall>c cs. map_of (request_headers sc) REQUEST_ID = Some (c # cs) \<longrightarrow> rid = c # cs) \<and>
     http_call H sc h = (if take 11 (sc_path sc) = ''/.internal/'' then Some (None, handle_internal_routes H sc rid h1)
       else handle_s3_request H sc (request_headers sc) rid h1) \<and>
     sent h1 = sent h \<and> front_metrics h1 = front_metrics h \<and> incoming h1 = incoming h \<and>
     (proxy h1 = proxy h \<or> proxy h1 = snd (lib_uuid H (proxy h)))"
proof (cases "\<exists>c cs. map_of (request_headers sc) REQUEST_ID = Some (c # cs)")
  case True
  then show ?thesis by (auto simp: http_call_def Let_def)
next
  case False
  obtain r s where u: "lib_uuid H (proxy h) = (r, s)" by force
  with False have "http_call H sc h = (if take 11 (sc_path sc) = ''/.internal/'' then Some (None, handle_internal_routes H sc r (h\<lparr>proxy := s\<rparr>))
       else handle_s3_request H sc (request_headers sc) r (h\<lparr>proxy := s\<rparr>))"
    by (cases "map_of (request_headers sc) REQUEST_ID") (auto simp: http_call_def Let_def split: list.split)
  then show ?thesis using False u by (intro exI [of _ r] exI [of _ "h\<lparr>proxy := s\<rparr>"]) auto
qed

lemma send_plain_request_id:
  assumes "(REQUEST_ID, rid) \<in> set (extra_headers r) \<or> \<not> has_header REQUEST_ID (response_headers (Plain r))"
  shows "(REQUEST_ID, rid) \<in> set (sent_headers rid (response_headers (Plain r)))"
  using assms sent_headers_request_id [of rid "Plain r" rid] sent_headers_default [of "Plain r" rid] by (auto simp del: response_headers.simps)

lemma with_request_id_in: "(REQUEST_ID, rid) \<in> set (extra_headers (with_request_id rid r))"
  by (simp add: with_request_id_def in_update)

lemma plain_without_callback: "front_metrics (send_plain rid None r h) = front_metrics h"
  by (simp add: send_plain_def count_bytes_def)

lemma internal_answered:
  "\<exists>st hs b. answered st hs b None h (handle_internal_routes H sc rid h) \<and> (REQUEST_ID, rid) \<in> set hs \<and>
     front_metrics (handle_internal_routes H sc rid h) = front_metrics h"
proof -
  obtain r where r: "handle_internal_routes H sc rid h = send_plain rid None r h"
    "(REQUEST_ID, rid) \<in> set (extra_headers r) \<or> extra_headers r = []"
    unfolding handle_internal_routes_def metrics_handler_def health_handler_def
    using with_request_id_in by (metis ASGIResponse.select_convs(4))
  moreover have "\<not> has_header REQUEST_ID (response_headers (Plain r))" if "extra_headers r = []"
    using that by (simp add: start_headers_def has_header_def REQUEST_ID_def lower_def)
  ultimately show ?thesis
    using send_plain_law [of None r rid h] send_plain_request_id [of rid r] plain_without_callback [of rid r h]
    by (auto simp del: response_headers.simps)
qed

text \<open>What a request is answered with, once the dispatcher has produced a response.\<close>

lemma response_set_header [simp]:
  "response_body rd cs (set_header k v resp) = response_body rd cs resp"
  "response_exc rd cs (set_header k v resp) = response_exc rd cs resp"
  by (cases resp; simp)+

lemma dispatched_answer:
  assumes "classify_request (sc_method sc) (sc_path sc) (sc_query_string sc) (Some headers) = Inr req"
    and "run_dispatcher H req headers (sc_query_string sc) rid (sc_path sc) h = Some (resp0, h2)"
    and "handle_s3_request H sc headers rid h = Some (exc, h')"
  shows "exc = response_exc (lib_body_reads H) (response_chunk_size H) resp0 \<and>
    (\<exists>hs h3 d. answered (response_status resp0) hs (response_body (lib_body_reads H) (response_chunk_size H) resp0) exc h2 h3 \<and>
      (REQUEST_ID, rid) \<in> set hs \<and>
      h' = log_metric (record_request (sc_method sc) (op_value (req_operation req)) (if response_status resp0 = 0 then 500 else response_status resp0) d) h3)"
proof -
  define resp where "resp = (if needs_close (req_operation req) (set_header REQUEST_ID rid resp0)
    then set_header ''connection'' ''close'' (set_header REQUEST_ID rid resp0) else set_header REQUEST_ID rid resp0)"
  have same: "response_status resp = response_status resp0" "response_body rd cs resp = response_body rd cs resp0"
    "response_exc rd cs resp = response_exc rd cs resp0" for rd cs
    by (simp_all add: resp_def)
  let ?cb = "Some (record_data_transfer ''out'' (op_value (req_operation req)))"
  obtain exc3 h3 where s: "send_response (lib_body_reads H) (response_chunk_size H) rid ?cb resp h2 = (exc3, h3)" by force
  have "exc = exc3" "\<exists>d. h' = log_metric (record_request (sc_method sc) (op_value (req_operation req))
      (if response_status resp = 0 then 500 else response_status resp) d) h3"
    using assms s resp_def by (auto simp: handle_s3_request_def finish_request_def Let_def)
  moreover have "(REQUEST_ID, rid) \<in> set (response_extra resp)"
    using in_update_other [OF in_update, of REQUEST_ID "''connection''" rid] by (simp add: resp_def in_update REQUEST_ID_def)
  ultimately show ?thesis
    using send_response_law [OF counts_out(2) s] sent_headers_request_id [of rid resp rid] unfolding same by blast
qed

lemma s3_request_answered:
  assumes "handle_s3_request H sc headers rid h = Some (exc, h')"
  shows "\<exists>st hs b h2 h3 op d. before_response h h2 \<and> answered st hs b exc h2 h3 \<and> (REQUEST_ID, rid) \<in> set hs \<and>
    h' = log_metric (record_request (sc_method sc) op (if st = 0 then 500 else st) d) h3"
proof (cases "classify_request (sc_method sc) (sc_path sc) (sc_query_string sc) (Some headers)")
  case (Inl e)
  let ?r = "with_request_id rid (front_error METHOD_NOT_ALLOWED None (Some (sc_path sc)) rid)"
  have st: "status_code ?r = 405"
    by (simp add: with_request_id_def front_error_def error_to_response_def METHOD_NOT_ALLOWED_def)
  have "exc = None" "\<exists>d. h' = log_metric (record_request (sc_method sc) ''unknown'' (if (405 :: int) = 0 then 500 else 405) d) (send_plain rid None ?r h)"
    using assms Inl by (auto simp: handle_s3_request_def finish_request_def Let_def)
  moreover have "(REQUEST_ID, rid) \<in> set (sent_headers rid (response_headers (Plain ?r)))"
    by (intro send_plain_request_id disjI1 with_request_id_in)
  ultimately show ?thesis using send_plain_law [OF counts_out(1), of ?r rid h] before_response_refl(1) [of h] unfolding st
    by (metis (no_types, lifting) zero_neq_numeral)
next
  case (Inr req)
  with assms obtain resp0 h2 where r: "run_dispatcher H req headers (sc_query_string sc) rid (sc_path sc) h = Some (resp0, h2)"
    by (cases "run_dispatcher H req headers (sc_query_string sc) rid (sc_path sc) h") (auto simp: handle_s3_request_def)
  from dispatched_answer [OF Inr r assms] run_dispatcher_before [OF r] show ?thesis by blast
qed


section \<open>Downloads\<close>

lemma registry_get_object:
  "registry_get handler_registry GET_OBJECT =
     Some \<lparr>md_operation = GET_OBJECT, md_func = handle_get_object, md_body_style = EMPTY, md_is_object_op = True\<rparr>"
  by (simp add: registry_defs)

text \<open>A \<open>GET\<close> whose read succeeded, with a response whose \<open>LastModified\<close> is a datetime if present.\<close>

lemma dispatch_get_object:
  assumes "req_operation req = GET_OBJECT" and "req_key req \<noteq> None"
    and "read_strategy d GET_OBJECT (object_params (make_context d req headers qs BodyNone None)) (proxy h) = (Inr r, s)"
    and "last_modified_header r = Inr lm"
  shows "\<exists>media hs. dispatch_request d req headers qs h = Some (Inr (Streamed r media hs 200), h\<lparr>proxy := s\<rparr>)"
  using assms
  by (auto simp: dispatch_request_def registry_get_object call_handler_def handle_get_object_def on_read_def finish_with_def make_context_def Let_def)


section \<open>Witnesses\<close>

text \<open>A proxy whose reads find an object of three bytes, and whose stream breaks off after two of them.\<close>

definition sample_front :: "unit S3HTTPHandler" where
  "sample_front = \<lparr>dispatcher = Some \<lparr>read_strategy = (\<lambda>op ps s. (Inr [(''Body'', VStreamBody ''xyz'')], s)),
       write_strategy = (\<lambda>op ps b rp s. (Inl (PyValueError ''read only''), s)), stream_config = stream_config_defaults,
       lib_fromstring = (\<lambda>_. Inl (PyValueError ''xml'')), lib_fromstring_bytes = (\<lambda>_. Inl (PyValueError ''xml'')),
       lib_decode_utf8 = Inr, lib_fresh_id = Pair ''id'', lib_now = (\<lambda>_. 0)\<rparr>,
     lib_generate_latest = (\<lambda>_. []), CONTENT_TYPE_LATEST = ''text/plain'', lib_uuid = Pair ''id'', lib_clock = (\<lambda>_. 0),
     lib_body_reads = (\<lambda>n b. ([take 2 b], Some (AiohttpClientError ''reset''))), response_chunk_size = 2\<rparr>"

definition sample_get :: http_scope where
  "sample_get = \<lparr>sc_method = ''GET'', sc_path = ''/data/k'', sc_query_string = [], sc_headers = [(''X-S3mer-Request-Id'', ''r1'')]\<rparr>"

definition sample_http :: "unit http" where
  "sample_http = \<lparr>incoming = [], sent = [], front_metrics = [], proxy = ()\<rparr>"

theorem classified_request_is_dispatched_witness:
  "\<exists>r md. classify_request ''GET'' ''/data/k'' [] None = Inr r \<and>
     registry_get handler_registry (req_operation r) = Some (md :: unit HandlerMetadata) \<and> md_is_object_op md"
proof -
  have c: "classify_request ''GET'' ''/data/k'' [] None = Inr \<lparr>req_operation = GET_OBJECT, req_bucket = Some ''data'', req_key = Some ''k''\<rparr>"
    by code_simp
  from classified_request_is_dispatched [OF c] c show ?thesis by auto
qed

lemma sample_get_answer: "map_option fst (http_call sample_front sample_get sample_http) = Some (Some (AiohttpClientError ''reset''))"
  by code_simp



end
