(* ===== verification/Circuit_Breaker.thy ===== *)
theory Circuit_Breaker
  imports Metrics
begin

text \<open>
  The per-backend circuit breaker (\<open>src/s3mer/backends/circuit_breaker.py\<close>).  The object's
  fields are a record; \<open>time.monotonic()\<close> is the argument \<open>now\<close>, a number of clock ticks; each
  method returns the new object and the metric calls it makes.

  The section on runs relates the object to a specification without any state machine: after any
  history of recorded results the breaker refuses a request exactly when the results since the
  last success are at least \<open>failure_threshold\<close> failures and the last of them is younger than the
  cooldown.
\<close>

section \<open>The object and its methods\<close>

datatype CircuitState = CLOSED | OPEN | HALF_OPEN

fun circuit_value :: "CircuitState \<Rightarrow> string" where
  "circuit_value CLOSED = ''closed''"
| "circuit_value OPEN = ''open''"
| "circuit_value HALF_OPEN = ''half_open''"

record BackendCircuitBreaker =
  cb_backend_name :: string
  failure_threshold :: int
  open_duration_seconds :: int
  cb_state :: CircuitState
  failure_count :: int
  opened_at :: "int option"

definition new_breaker :: "string \<Rightarrow> int \<Rightarrow> int \<Rightarrow> BackendCircuitBreaker" where
  "new_breaker name threshold duration =
     \<lparr>cb_backend_name = name, failure_threshold = threshold, open_duration_seconds = duration,
      cb_state = CLOSED, failure_count = 0, opened_at = None\<rparr>"

definition record_state :: "BackendCircuitBreaker \<Rightarrow> metric list" where
  "record_state b = [set_backend_circuit_state (cb_backend_name b) (circuit_value (cb_state b))]"

text \<open>The \<open>state\<close> property: reading it moves an open breaker past its cooldown to half-open.\<close>

definition get_state :: "int \<Rightarrow> BackendCircuitBreaker \<Rightarrow> CircuitState \<times> BackendCircuitBreaker \<times> metric list" where
  "get_state now b =
     (if cb_state b = OPEN \<and>
         (case opened_at b of None \<Rightarrow> False | Some t \<Rightarrow> now - t \<ge> open_duration_seconds b)
      then let b' = b\<lparr>cb_state := HALF_OPEN\<rparr> in (cb_state b', b', record_state b')
      else (cb_state b, b, []))"

definition allow_request :: "int \<Rightarrow> BackendCircuitBreaker \<Rightarrow> bool \<times> BackendCircuitBreaker \<times> metric list" where
  "allow_request now b = (let (s, b', ms) = get_state now b in (s \<noteq> OPEN, b', ms))"

definition record_success :: "BackendCircuitBreaker \<Rightarrow> BackendCircuitBreaker \<times> metric list" where
  "record_success b =
     (let b' = b\<lparr>failure_count := 0, cb_state := CLOSED, opened_at := None\<rparr> in (b', record_state b'))"

definition open_breaker :: "int \<Rightarrow> BackendCircuitBreaker \<Rightarrow> BackendCircuitBreaker \<times> metric list" where
  "open_breaker now b =
     (let b' = b\<lparr>cb_state := OPEN, opened_at := Some now\<rparr> in (b', record_state b'))"

definition record_failure :: "int \<Rightarrow> BackendCircuitBreaker \<Rightarrow> BackendCircuitBreaker \<times> metric list" where
  "record_failure now b =
     (let b' = b\<lparr>failure_count := failure_count b + 1\<rparr> in
      if cb_state b' = HALF_OPEN then open_breaker now b'
      else if failure_count b' \<ge> failure_threshold b' then open_breaker now b'
      else (b', []))"

section \<open>Invariant\<close>

text \<open>
  The breaker is closed exactly while fewer than \<open>failure_threshold\<close> failures have been counted
  since the last success, and it knows when it opened exactly while it is not closed.
\<close>

definition breaker_inv :: "BackendCircuitBreaker \<Rightarrow> bool" where
  "breaker_inv b \<longleftrightarrow> 1 \<le> failure_threshold b \<and> 0 \<le> failure_count b \<and>
     (cb_state b = CLOSED \<longleftrightarrow> failure_count b < failure_threshold b) \<and>
     (cb_state b = CLOSED \<longleftrightarrow> opened_at b = None)"

lemmas breaker_defs = get_state_def allow_request_def record_success_def open_breaker_def
  record_failure_def record_state_def Let_def

lemma breaker_inv_new: "1 \<le> threshold \<Longrightarrow> breaker_inv (new_breaker n threshold d)"
  by (simp add: breaker_inv_def new_breaker_def)

lemma breaker_inv_allow: "breaker_inv b \<Longrightarrow> breaker_inv (fst (snd (allow_request now b)))"
  by (auto simp: breaker_inv_def breaker_defs split: option.splits)

lemma breaker_inv_success: "breaker_inv b \<Longrightarrow> breaker_inv (fst (record_success b))"
  by (auto simp: breaker_inv_def breaker_defs)

lemma breaker_inv_failure: "breaker_inv b \<Longrightarrow> breaker_inv (fst (record_failure now b))"
  by (auto simp: breaker_inv_def breaker_defs)

lemma breaker_static_failure [simp]:
  "failure_threshold (fst (record_failure now b)) = failure_threshold b"
  "open_duration_seconds (fst (record_failure now b)) = open_duration_seconds b"
  "cb_backend_name (fst (record_failure now b)) = cb_backend_name b"
  "failure_count (fst (record_failure now b)) = failure_count b + 1"
  by (simp_all add: breaker_defs)

lemma breaker_static_success [simp]:
  "failure_threshold (fst (record_success b)) = failure_threshold b"
  "open_duration_seconds (fst (record_success b)) = open_duration_seconds b"
  "cb_backend_name (fst (record_success b)) = cb_backend_name b"
  "failure_count (fst (record_success b)) = 0"
  by (simp_all add: breaker_defs)

lemma breaker_static_allow [simp]:
  "failure_threshold (fst (snd (allow_request now b))) = failure_threshold b"
  "open_duration_seconds (fst (snd (allow_request now b))) = open_duration_seconds b"
  "cb_backend_name (fst (snd (allow_request now b))) = cb_backend_name b"
  "failure_count (fst (snd (allow_request now b))) = failure_count b"
  "opened_at (fst (snd (allow_request now b))) = opened_at b"
  by (simp_all add: breaker_defs)

section \<open>Runs\<close>

datatype breaker_event = Success | Failure | Query

fun breaker_step :: "int \<times> breaker_event \<Rightarrow> BackendCircuitBreaker \<Rightarrow> BackendCircuitBreaker" where
  "breaker_step (now, Success) b = fst (record_success b)"
| "breaker_step (now, Failure) b = fst (record_failure now b)"
| "breaker_step (now, Query) b = fst (snd (allow_request now b))"

definition breaker_run :: "(int \<times> breaker_event) list \<Rightarrow> BackendCircuitBreaker \<Rightarrow> BackendCircuitBreaker" where
  "breaker_run es b = fold breaker_step es b"

text \<open>The failures since the last success, newest first, read off the history.\<close>

fun trailing_failures :: "(int \<times> breaker_event) list \<Rightarrow> int list \<Rightarrow> int list" where
  "trailing_failures [] acc = acc"
| "trailing_failures ((now, Success) # es) acc = trailing_failures es []"
| "trailing_failures ((now, Failure) # es) acc = trailing_failures es (now # acc)"
| "trailing_failures ((now, Query) # es) acc = trailing_failures es acc"

text \<open>The specification: refuse after enough consecutive failures, until the cooldown is over.\<close>

definition refuse_spec :: "int \<Rightarrow> int \<Rightarrow> int list \<Rightarrow> int \<Rightarrow> bool" where
  "refuse_spec threshold duration fails now \<longleftrightarrow>
     threshold \<le> int (length fails) \<and> now - hd fails < duration"

text \<open>How the object represents the history: the coupling between fields and failures.\<close>

definition breaker_rep :: "int \<Rightarrow> int list \<Rightarrow> BackendCircuitBreaker \<Rightarrow> bool" where
  "breaker_rep now fails b \<longleftrightarrow> breaker_inv b \<and> failure_count b = int (length fails) \<and>
     (cb_state b \<noteq> CLOSED \<longrightarrow> opened_at b = Some (hd fails)) \<and>
     (cb_state b = HALF_OPEN \<longrightarrow> open_duration_seconds b \<le> now - hd fails)"

lemma breaker_rep_later: "breaker_rep now fails b \<Longrightarrow> now \<le> now' \<Longrightarrow> breaker_rep now' fails b"
  by (auto simp: breaker_rep_def)

lemma breaker_rep_success: "breaker_rep now fails b \<Longrightarrow> breaker_rep now' [] (fst (record_success b))"
  by (auto simp: breaker_rep_def breaker_inv_success) (auto simp: breaker_defs)

lemma breaker_rep_failure:
  "breaker_rep now fails b \<Longrightarrow> breaker_rep now' (now' # fails) (fst (record_failure now' b))"
  by (auto simp: breaker_rep_def breaker_inv_failure) (auto simp: breaker_defs breaker_inv_def split: if_splits)

lemma breaker_rep_query:
  "breaker_rep now fails b \<Longrightarrow> breaker_rep now fails (fst (snd (allow_request now b)))"
  by (auto simp: breaker_rep_def breaker_inv_allow) (auto simp: breaker_defs split: if_splits)

lemma breaker_rep_refuses:
  "breaker_rep now fails b \<Longrightarrow>
   fst (allow_request now b) \<longleftrightarrow> \<not> refuse_spec (failure_threshold b) (open_duration_seconds b) fails now"
  by (cases "cb_state b") (auto simp: breaker_rep_def breaker_inv_def refuse_spec_def breaker_defs)

lemma breaker_step_static [simp]:
  "failure_threshold (breaker_step e b) = failure_threshold b"
  "open_duration_seconds (breaker_step e b) = open_duration_seconds b"
  by (cases "(e, b)" rule: breaker_step.cases; simp)+

lemma breaker_run_static [simp]:
  "failure_threshold (breaker_run es b) = failure_threshold b"
  "open_duration_seconds (breaker_run es b) = open_duration_seconds b"
  by (induction es arbitrary: b) (simp_all add: breaker_run_def)

lemma breaker_run_Cons: "breaker_run (e # es) b = breaker_run es (breaker_step e b)"
  by (simp add: breaker_run_def)

lemma breaker_run_rep:
  assumes "breaker_rep now fails b" and "sorted (now # map fst es @ [later])"
  shows "breaker_rep later (trailing_failures es fails) (breaker_run es b)"
  using assms
proof (induction es arbitrary: now fails b)
  case Nil
  then show ?case by (auto simp: breaker_run_def intro: breaker_rep_later)
next
  case (Cons e es)
  obtain t k where e: "e = (t, k)" by force
  have t: "breaker_rep t fails b" using Cons.prems by (auto simp: e intro: breaker_rep_later)
  have s: "sorted (t # map fst es @ [later])" using Cons.prems(2) by (simp add: e)
  show ?case
  proof (cases k)
    case Success
    show ?thesis using Cons.IH [OF breaker_rep_success [OF t, of t] s] by (simp add: e Success breaker_run_Cons)
  next
    case Failure
    show ?thesis using Cons.IH [OF breaker_rep_failure [OF t, of t] s] by (simp add: e Failure breaker_run_Cons)
  next
    case Query
    show ?thesis using Cons.IH [OF breaker_rep_query [OF t] s] by (simp add: e Query breaker_run_Cons)
  qed
qed

lemma fresh_breaker_rep:
  assumes "1 \<le> threshold" and "sorted (map fst es @ [now])"
  shows "breaker_rep now (trailing_failures es []) (breaker_run es (new_breaker name threshold duration))"
proof -
  let ?t0 = "hd (map fst es @ [now])"
  have "breaker_rep ?t0 [] (new_breaker name threshold duration)"
    using breaker_inv_new [OF assms(1)] by (simp add: breaker_rep_def new_breaker_def)
  moreover have "sorted (?t0 # map fst es @ [now])"
    using assms(2) by (cases es) auto
  ultimately show ?thesis by (rule breaker_run_rep)
qed

text \<open>
  C24. Refinement of the breaker to its specification.  After any history of results and queries
  at non-decreasing times, a fresh breaker with a positive threshold refuses a request at a later
  time exactly when the history ends in at least \<open>failure_threshold\<close> failures without a success
  and the cooldown counted from the last of them is not over.
\<close>

theorem breaker_refines_spec:
  assumes "1 \<le> threshold" and "sorted (map fst es @ [now])"
  shows "fst (allow_request now (breaker_run es (new_breaker name threshold duration))) \<longleftrightarrow>
    \<not> refuse_spec threshold duration (trailing_failures es []) now"
  using breaker_rep_refuses [OF fresh_breaker_rep [OF assms]] by (simp add: new_breaker_def)

theorem breaker_refines_spec_witness:
  "\<not> fst (allow_request 5 (breaker_run [(0, Failure), (1, Failure), (2, Failure)] (new_breaker ''a'' 3 30))) \<and>
   fst (allow_request 40 (breaker_run [(0, Failure), (1, Failure), (2, Failure)] (new_breaker ''a'' 3 30)))"
  using breaker_refines_spec [of 3 "[(0, Failure), (1, Failure), (2, Failure)]" 5 "''a''" 30]
    breaker_refines_spec [of 3 "[(0, Failure), (1, Failure), (2, Failure)]" 40 "''a''" 30]
  by (simp add: refuse_spec_def)

end
