(* ===== verification/World.thy ===== *)
theory World
  imports Circuit_Breaker Streaming "HOL-Library.Extended_Nat"
begin

text \<open>
  The state the components share, and the code outside the repository they call.

  \<^item> \<open>services\<close> holds what is not in the repository: the S3 call of the client library, the Kafka
    producer and \<open>uuid.uuid4\<close>.  An S3 call returns its result, the body object as the call left it
    and the time it took.
  \<^item> \<open>world\<close> is the mutable state: the state of those services, the clock, the circuit breakers
    and measured latencies of the backends, the data of in-memory backends
    (\<open>_MEMORY_STORE\<close>), and the trace of the effects performed so far.
  \<^item> \<open>ReplicationMessage\<close> and \<open>ReplicationDeadLetter\<close> are the Kafka payloads
    (\<open>src/s3mer/kafka/messages.py\<close>, \<open>src/s3mer/kafka/dlq.py\<close>).
\<close>

record ReplicationMessage =
  message_id :: string
  msg_timestamp :: int
  msg_operation :: string
  msg_bucket :: string
  msg_key :: "string option"
  source_backend :: string
  target_backends :: "string list"
  msg_metadata :: pdict
  retry_count :: int

record ReplicationDeadLetter =
  original_message :: ReplicationMessage
  dl_reason :: string
  dl_error :: "string option"
  dl_target_backend :: string
  dl_partition :: int
  dl_offset :: int
  dl_timestamp :: int

datatype kafka_payload = ReplMsg ReplicationMessage | DeadLetter ReplicationDeadLetter

datatype event =
    Metric metric
  | BackendCall string S3Operation pdict body "pyexc + pdict" \<comment> \<open>with the body handed over\<close>
  | KafkaPublish string string kafka_payload "pyexc option"
  | Slept int

record 'w services =
  s3_call :: "string \<Rightarrow> S3Operation \<Rightarrow> pdict \<Rightarrow> body \<Rightarrow> 'w \<Rightarrow> (pyexc + pdict) \<times> body \<times> nat \<times> 'w"
  kafka_publish :: "string \<Rightarrow> string \<Rightarrow> kafka_payload \<Rightarrow> 'w \<Rightarrow> pyexc option \<times> 'w"
  uuid4 :: "nat \<Rightarrow> string"

type_synonym memory_store = "(string \<times> (string \<times> (string \<times> pdict) list) list) list"

record 'w world =
  ext :: 'w
  clock :: int
  breakers :: "string \<Rightarrow> BackendCircuitBreaker option"
  last_latency :: "string \<Rightarrow> enat"
  mem_store :: memory_store
  uuids_drawn :: nat
  trace :: "event list"

definition emit :: "event list \<Rightarrow> 'w world \<Rightarrow> 'w world" where
  "emit es w = w\<lparr>trace := trace w @ es\<rparr>"

abbreviation emit_metric :: "metric \<Rightarrow> 'w world \<Rightarrow> 'w world" where
  "emit_metric m w \<equiv> emit [Metric m] w"

definition draw_uuid :: "'w services \<Rightarrow> 'w world \<Rightarrow> string \<times> 'w world" where
  "draw_uuid E w = (uuid4 E (uuids_drawn w), w\<lparr>uuids_drawn := uuids_drawn w + 1\<rparr>)"

text \<open>The messages handed to Kafka successfully, and those handed to it at all.\<close>

fun published_of :: "event list \<Rightarrow> (string \<times> string \<times> kafka_payload) list" where
  "published_of [] = []"
| "published_of (KafkaPublish t k p None # es) = (t, k, p) # published_of es"
| "published_of (e # es) = published_of es"

text \<open>The backend calls: backend, operation, the bytes the call could read as its body, and the result.\<close>

type_synonym call = "string \<times> S3Operation \<times> bytes \<times> (pyexc + pdict)"

fun calls_of :: "event list \<Rightarrow> call list" where
  "calls_of [] = []"
| "calls_of (BackendCall n op ps b r # es) = (n, op, body_rest b, r) # calls_of es"
| "calls_of (e # es) = calls_of es"

lemma published_of_append [simp]: "published_of (xs @ ys) = published_of xs @ published_of ys"
  by (induction xs rule: published_of.induct) auto

lemma calls_of_append [simp]: "calls_of (xs @ ys) = calls_of xs @ calls_of ys"
  by (induction xs rule: calls_of.induct) auto

lemma published_of_metrics [simp]: "published_of (map Metric ms) = []"
  by (induction ms) auto

lemma calls_of_metrics [simp]: "calls_of (map Metric ms) = []"
  by (induction ms) auto

lemma emit_fields [simp]:
  "ext (emit es w) = ext w" "clock (emit es w) = clock w" "breakers (emit es w) = breakers w"
  "last_latency (emit es w) = last_latency w" "mem_store (emit es w) = mem_store w"
  "uuids_drawn (emit es w) = uuids_drawn w" "trace (emit es w) = trace w @ es"
  by (simp_all add: emit_def)

lemma emit_emit [simp]: "emit es (emit ds w) = emit (ds @ es) w"
  by (simp add: emit_def)

lemma emit_Nil [simp]: "emit [] w = w"
  by (simp add: emit_def)

text \<open>How far the trace has grown between two states.\<close>

definition effects :: "'w world \<Rightarrow> 'w world \<Rightarrow> event list" where
  "effects w w' = drop (length (trace w)) (trace w')"

lemma effects_emit [simp]: "effects w (emit es w) = es"
  by (simp add: effects_def)

end
