(* ===== verification/Memory_Backend.thy ===== *)
theory Memory_Backend
  imports World
begin

text \<open>
  The in-memory backend (\<open>src/s3mer/backends/memory_backend.py\<close>).  \<open>_MEMORY_STORE\<close> is the field
  \<open>mem_store\<close> of the world: per backend name a dictionary of buckets, per bucket a dictionary of
  objects.  \<open>dispatch\<close> is \<open>_dispatch\<close>; reading a bucket through \<open>_bucket_objects\<close> creates it.
\<close>

section \<open>Store access\<close>

definition mem_buckets :: "memory_store \<Rightarrow> string \<Rightarrow> (string \<times> (string \<times> pdict) list) list" where
  "mem_buckets st name = get_default st name []"

text \<open>\<open>_bucket_objects\<close>: two \<open>setdefault\<close> calls.\<close>

definition setdefault :: "string \<Rightarrow> 'v \<Rightarrow> (string \<times> 'v) list \<Rightarrow> (string \<times> 'v) list" where
  "setdefault k v d = (if has_key d k then d else AList.update k v d)"

definition bucket_objects ::
  "string \<Rightarrow> string \<Rightarrow> memory_store \<Rightarrow> (string \<times> pdict) list \<times> memory_store" where
  "bucket_objects name bucket st =
     (let st = setdefault name [] st;
        bs = setdefault bucket [] (mem_buckets st name);
        st = AList.update name bs st
      in (get_default bs bucket [], st))"

definition put_bucket :: "string \<Rightarrow> string \<Rightarrow> (string \<times> pdict) list \<Rightarrow> memory_store \<Rightarrow> memory_store" where
  "put_bucket name bucket objs st =
     AList.update name (AList.update bucket objs (mem_buckets st name)) st"

definition client_error :: "string \<Rightarrow> int \<Rightarrow> pyexc" where
  "client_error c status =
     ClientError (''An error occurred ('' @ c @ '') when calling the MemoryBackend operation: '' @ c)
       (Some \<lparr>resp_code = Some c, resp_message = Some c, resp_status = Some status\<rparr>)"

text \<open>
  The bytes \<open>put_object\<close> stores.  Every asynchronous reader has \<open>__aiter__\<close>, so it takes a branch
  that joins an empty list.
\<close>

fun put_body_bytes :: "body \<Rightarrow> bytes" where
  "put_body_bytes BodyAbsent = []"
| "put_body_bytes BodyNone = []"
| "put_body_bytes (BodyBytes b) = b"
| "put_body_bytes _ = concat []"

definition put_meta_keys :: "string list" where
  "put_meta_keys = [''ContentEncoding'', ''CacheControl'', ''ContentDisposition'', ''ContentLanguage'', ''Metadata'']"

definition copy_keys :: "string list \<Rightarrow> pdict \<Rightarrow> pdict \<Rightarrow> pdict" where
  "copy_keys ks from_d d =
     fold (\<lambda>k d. case map_of from_d k of None \<Rightarrow> d | Some v \<Rightarrow> AList.update k v d) ks d"

section \<open>The operations\<close>

text \<open>\<open>params["Key"]\<close> raises \<open>KeyError\<close> when the key is missing.\<close>

definition with_str :: "pdict \<Rightarrow> string \<Rightarrow> (string \<Rightarrow> 'st \<Rightarrow> (pyexc + 'a) \<times> 'st) \<Rightarrow> 'st \<Rightarrow> (pyexc + 'a) \<times> 'st" where
  "with_str ps k f st =
     (case map_of ps k of
        Some (VStr s) \<Rightarrow> f s st
      | Some _ \<Rightarrow> (Inl (PyTypeError k), st)
      | None \<Rightarrow> (Inl (PyKeyError k), st))"

definition mem_put_object ::
  "string \<Rightarrow> string \<Rightarrow> int \<Rightarrow> string \<Rightarrow> pdict \<Rightarrow> body \<Rightarrow> string \<Rightarrow> memory_store \<Rightarrow> (pyexc + pdict) \<times> memory_store" where
  "mem_put_object name etag now bucket ps b key st =
     (let data = put_body_bytes b;
        obj = [(''Body'', VBytes data), (''ContentLength'', VInt (int (length data))),
               (''ETag'', VStr etag), (''LastModified'', VTime now),
               (''ContentType'', get_default ps ''ContentType'' (VStr ''application/octet-stream''))];
        obj = copy_keys put_meta_keys ps obj;
        (objs, st) = bucket_objects name bucket st
      in (Inr [(''ETag'', VStr etag)], put_bucket name bucket (AList.update key obj objs) st))"

definition mem_get_object :: "string \<Rightarrow> string \<Rightarrow> string \<Rightarrow> memory_store \<Rightarrow> (pyexc + pdict) \<times> memory_store" where
  "mem_get_object name bucket key st =
     (let (objs, st) = bucket_objects name bucket st in
      case map_of objs key of
        None \<Rightarrow> (Inl (client_error ''NoSuchKey'' 404), st)
      | Some obj \<Rightarrow> (Inr obj, st))"

definition mem_head_object :: "string \<Rightarrow> string \<Rightarrow> string \<Rightarrow> memory_store \<Rightarrow> (pyexc + pdict) \<times> memory_store" where
  "mem_head_object name bucket key st =
     (let (objs, st) = bucket_objects name bucket st in
      case map_of objs key of
        None \<Rightarrow> (Inl (client_error ''NoSuchKey'' 404), st)
      | Some obj \<Rightarrow> (Inr (filter (\<lambda>(k, v). k \<noteq> ''Body'') obj), st))"

definition mem_delete_object :: "string \<Rightarrow> string \<Rightarrow> string \<Rightarrow> memory_store \<Rightarrow> (pyexc + pdict) \<times> memory_store" where
  "mem_delete_object name bucket key st =
     (let (objs, st) = bucket_objects name bucket st in
      if \<not> has_key objs key then (Inl (client_error ''NoSuchKey'' 404), st)
      else (Inr [], put_bucket name bucket (AList.delete key objs) st))"

definition mem_delete_bucket :: "string \<Rightarrow> string \<Rightarrow> memory_store \<Rightarrow> (pyexc + pdict) \<times> memory_store" where
  "mem_delete_bucket name bucket st =
     (let bs = get_default st name [] in
      case map_of bs bucket of
        None \<Rightarrow> (Inl (client_error ''NoSuchBucket'' 404), st)
      | Some objs \<Rightarrow>
          if objs \<noteq> [] then (Inl (client_error ''BucketNotEmpty'' 409), st)
          else (Inr [], AList.update name (AList.delete bucket bs) st))"

definition dispatch ::
  "string \<Rightarrow> string \<Rightarrow> int \<Rightarrow> S3Operation \<Rightarrow> pdict \<Rightarrow> body \<Rightarrow> memory_store \<Rightarrow> (pyexc + pdict) \<times> memory_store" where
  "dispatch name etag now op ps b st =
     with_str ps ''Bucket'' (\<lambda>bucket st.
       case op of
         CREATE_BUCKET \<Rightarrow> (Inr [], snd (bucket_objects name bucket st))
       | DELETE_BUCKET \<Rightarrow> mem_delete_bucket name bucket st
       | PUT_OBJECT \<Rightarrow> with_str ps ''Key'' (mem_put_object name etag now bucket ps b) st
       | GET_OBJECT \<Rightarrow> with_str ps ''Key'' (mem_get_object name bucket) st
       | HEAD_OBJECT \<Rightarrow> with_str ps ''Key'' (mem_head_object name bucket) st
       | DELETE_OBJECT \<Rightarrow> with_str ps ''Key'' (mem_delete_object name bucket) st
       | LIST_BUCKETS \<Rightarrow>
           (Inr [(''Buckets'', VList (map (\<lambda>p. VDict [(''Name'', VStr (fst p))]) (get_default st name [])))], st)
       | _ \<Rightarrow> (Inl (client_error ''NotImplemented'' 501), st)) st"

section \<open>Object semantics\<close>

text \<open>The object stored under a backend, bucket and key.\<close>

definition stored :: "memory_store \<Rightarrow> string \<Rightarrow> string \<Rightarrow> string \<Rightarrow> pdict option" where
  "stored st name bucket key =
     Option.bind (map_of st name) (\<lambda>bs. Option.bind (map_of bs bucket) (\<lambda>os. map_of os key))"

lemma get_default_setdefault [simp]: "get_default (setdefault k [] d) k [] = get_default d k []"
  by (simp add: setdefault_def get_default_def has_key_def split: option.splits)

lemma bucket_objects_fst: "map_of (fst (bucket_objects name bucket st)) key = stored st name bucket key"
  by (simp add: bucket_objects_def mem_buckets_def stored_def Let_def get_default_def setdefault_def
      has_key_def split: option.splits)

lemma stored_bucket_objects [simp]:
  "stored (snd (bucket_objects name bucket st)) n b k = stored st n b k"
  by (auto simp: bucket_objects_def mem_buckets_def stored_def Let_def get_default_def setdefault_def
      has_key_def bind_eq_Some_conv split: option.splits)

lemma stored_put_bucket:
  "stored (put_bucket name bucket objs st) n b k =
     (if n = name \<and> b = bucket then map_of objs k else stored st n b k)"
  by (auto simp: put_bucket_def stored_def mem_buckets_def get_default_def split: option.splits)

lemma mem_put_law:
  assumes "mem_put_object name etag now bucket ps b key st = (r, st')"
  shows "\<exists>obj. stored st' name bucket key = Some obj \<and> map_of obj ''Body'' = Some (VBytes (put_body_bytes b)) \<and>
    map_of obj ''ETag'' = Some (VStr etag) \<and>
    (\<forall>n b k. (n, b, k) \<noteq> (name, bucket, key) \<longrightarrow> stored st' n b k = stored st n b k)"
proof -
  obtain objs st1 where o: "bucket_objects name bucket st = (objs, st1)" by force
  have objs: "\<And>k. map_of objs k = stored st name bucket k" and st1: "\<And>n b k. stored st1 n b k = stored st n b k"
    using bucket_objects_fst [of name bucket st] stored_bucket_objects [of name bucket st] by (auto simp: o)
  have keep: "map_of (copy_keys put_meta_keys ps d) ''Body'' = map_of d ''Body''"
    "map_of (copy_keys put_meta_keys ps d) ''ETag'' = map_of d ''ETag''" for d
    by (auto simp: copy_keys_def put_meta_keys_def split: option.splits)
  show ?thesis using assms
    by (auto simp: mem_put_object_def Let_def o stored_put_bucket objs st1 keep)
qed

text \<open>
  The in-memory backend is a key-value store: a successful \<open>PUT_OBJECT\<close> of a byte string is
  what the next \<open>GET_OBJECT\<close> of that key returns, and it leaves every other object of every backend
  and bucket as it was.
\<close>

theorem memory_put_then_get:
  assumes "dispatch name etag now PUT_OBJECT ps (BodyBytes data) st = (Inr r, st')"
    and "map_of ps ''Bucket'' = Some (VStr bucket)" and "map_of ps ''Key'' = Some (VStr key)"
  shows "\<exists>obj. fst (dispatch name etag2 now2 GET_OBJECT ps BodyAbsent st') = Inr obj \<and>
    map_of obj ''Body'' = Some (VBytes data) \<and>
    (\<forall>n b k. (n, b, k) \<noteq> (name, bucket, key) \<longrightarrow> stored st' n b k = stored st n b k)"
proof -
  have "mem_put_object name etag now bucket ps (BodyBytes data) key st = (Inr r, st')"
    using assms by (simp add: dispatch_def with_str_def)
  from mem_put_law [OF this] obtain obj where "stored st' name bucket key = Some obj"
    "map_of obj ''Body'' = Some (VBytes data)"
    "\<forall>n b k. (n, b, k) \<noteq> (name, bucket, key) \<longrightarrow> stored st' n b k = stored st n b k" by auto
  moreover have "fst (dispatch name etag2 now2 GET_OBJECT ps BodyAbsent st') = Inr obj"
    using calculation(1) assms(2,3) bucket_objects_fst [of name bucket st' key]
    by (cases "bucket_objects name bucket st'") (simp add: dispatch_def with_str_def mem_get_object_def)
  ultimately show ?thesis by blast
qed

theorem memory_put_then_get_witness:
  "\<exists>obj. fst (dispatch ''m'' ''e2'' 0 GET_OBJECT [(''Bucket'', VStr ''b''), (''Key'', VStr ''k'')] BodyAbsent
       (snd (dispatch ''m'' ''e1'' 0 PUT_OBJECT [(''Bucket'', VStr ''b''), (''Key'', VStr ''k'')] (BodyBytes ''x'') []))) = Inr obj \<and>
     map_of obj ''Body'' = Some (VBytes ''x'')"
  using memory_put_then_get [of "''m''" "''e1''" 0 "[(''Bucket'', VStr ''b''), (''Key'', VStr ''k'')]" "''x''" "[]"
      "[(''ETag'', VStr ''e1'')]"
      "snd (dispatch ''m'' ''e1'' 0 PUT_OBJECT [(''Bucket'', VStr ''b''), (''Key'', VStr ''k'')] (BodyBytes ''x'') [])"
      "''b''" "''k''" "''e2''" 0]
  by (auto simp: dispatch_def with_str_def mem_put_object_def bucket_objects_def Let_def)

text \<open>
  A streamed upload to an in-memory backend is acknowledged and stored empty: whatever the
  reader would deliver, the object written has an empty body and length zero.
\<close>

theorem memory_put_drops_stream:
  "\<exists>obj. fst (dispatch name etag now PUT_OBJECT [(''Bucket'', VStr bucket), (''Key'', VStr key)] (BodyStream chunks) st) =
       Inr [(''ETag'', VStr etag)] \<and>
     stored (snd (dispatch name etag now PUT_OBJECT [(''Bucket'', VStr bucket), (''Key'', VStr key)] (BodyStream chunks) st))
       name bucket key = Some obj \<and> map_of obj ''Body'' = Some (VBytes [])"
proof -
  let ?ps = "[(''Bucket'', VStr bucket), (''Key'', VStr key)]"
  obtain r st' where p: "mem_put_object name etag now bucket ?ps (BodyStream chunks) key st = (r, st')" by force
  moreover have "r = Inr [(''ETag'', VStr etag)]"
    using p by (auto simp: mem_put_object_def Let_def split: prod.splits)
  ultimately show ?thesis using mem_put_law [OF p] by (auto simp: dispatch_def with_str_def)
qed

end
