(* ===== verification/Backend_Pool.thy ===== *)
theory Backend_Pool
  imports Memory_Backend "HOL-Library.Product_Lexorder" "HOL-Library.Multiset"
begin

text \<open>
  Backend clients and the pool: \<open>src/s3mer/backends/client.py\<close>, the \<open>execute\<close> wrapper of
  \<open>src/s3mer/backends/memory_backend.py\<close>, \<open>src/s3mer/backends/pool.py\<close> and
  \<open>src/s3mer/backends/prober.py\<close>.

  A client object is its configuration; its circuit breaker (shared by reference with the pool's
  dictionary of breakers) and its \<open>last_latency\<close> live in the world, indexed by backend name.
\<close>

section \<open>Clients\<close>

datatype BackendType = BT_S3 | BT_MEMORY

record BackendConfig =
  backend_type :: BackendType
  cfg_is_primary :: bool
  cfg_priority :: int

record BackendClient =
  bc_name :: string
  is_primary :: bool
  priority :: int
  bc_type :: BackendType
  started :: bool \<comment> \<open>whether \<open>start\<close> has created the library client\<close>

definition client_start :: "BackendClient \<Rightarrow> BackendClient" where
  "client_start c = c\<lparr>started := True\<rparr>"

definition client_close :: "BackendClient \<Rightarrow> BackendClient" where
  "client_close c = c\<lparr>started := False\<rparr>"

text \<open>Metrics and breaker bookkeeping after a call, for both kinds of client.\<close>

definition breaker_failure :: "string \<Rightarrow> 'w world \<Rightarrow> 'w world" where
  "breaker_failure name w =
     (case breakers w name of
        None \<Rightarrow> w
      | Some b \<Rightarrow> (let (b', ms) = record_failure (clock w) b
                   in emit (map Metric ms) (w\<lparr>breakers := (breakers w)(name \<mapsto> b')\<rparr>)))"

definition breaker_success :: "string \<Rightarrow> 'w world \<Rightarrow> 'w world" where
  "breaker_success name w =
     (case breakers w name of
        None \<Rightarrow> w
      | Some b \<Rightarrow> (let (b', ms) = record_success b
                   in emit (map Metric ms) (w\<lparr>breakers := (breakers w)(name \<mapsto> b')\<rparr>)))"

definition after_call ::
  "string \<Rightarrow> S3Operation \<Rightarrow> pdict \<Rightarrow> body \<Rightarrow> nat \<Rightarrow> pyexc + pdict \<Rightarrow> 'w world \<Rightarrow> 'w world" where
  "after_call name op ps b dur res w =
     (case res of
        Inl e \<Rightarrow> breaker_failure name
          (emit [BackendCall name op ps b res, Metric (record_backend_request name (op_value op) ''error'' dur),
                 Metric (record_backend_status name False)] w)
      | Inr r \<Rightarrow> breaker_success name
          (emit [BackendCall name op ps b res, Metric (record_backend_request name (op_value op) ''success'' dur),
                 Metric (record_backend_status name True)] w))"

text \<open>\<open>S3BackendClient.execute\<close>.\<close>

definition s3_execute ::
  "'w services \<Rightarrow> BackendClient \<Rightarrow> S3Operation \<Rightarrow> pdict \<Rightarrow> body \<Rightarrow> 'w world \<Rightarrow> (pyexc + pdict) \<times> body \<times> 'w world" where
  "s3_execute E c op ps b w =
     (if \<not> started c then (Inl (PyRuntimeError (''Backend client '' @ bc_name c @ '' not started'')), b, w)
      else
        (let (res, b', dur, x) = s3_call E (bc_name c) op ps b (ext w);
           w = w\<lparr>ext := x, clock := clock w + int dur\<rparr>
         in (res, b', after_call (bc_name c) op ps b dur res w)))"

text \<open>\<open>MemoryS3BackendClient.execute\<close>.\<close>

definition memory_execute ::
  "'w services \<Rightarrow> BackendClient \<Rightarrow> S3Operation \<Rightarrow> pdict \<Rightarrow> body \<Rightarrow> 'w world \<Rightarrow> (pyexc + pdict) \<times> body \<times> 'w world" where
  "memory_execute E c op ps b w =
     (let (u, w) = (if op = PUT_OBJECT then draw_uuid E w else ([], w));
        etag = ''\"'' @ filter (\<lambda>c. c \<noteq> CHR ''-'') u @ ''\"'';
        (res, st) = dispatch (bc_name c) etag (clock w) op ps b (mem_store w)
      in (res, b, after_call (bc_name c) op ps b 0 res (w\<lparr>mem_store := st\<rparr>)))"

definition execute ::
  "'w services \<Rightarrow> BackendClient \<Rightarrow> S3Operation \<Rightarrow> pdict \<Rightarrow> body \<Rightarrow> 'w world \<Rightarrow> (pyexc + pdict) \<times> body \<times> 'w world" where
  "execute E c op ps b w =
     (case bc_type c of BT_S3 \<Rightarrow> s3_execute E c op ps b w | BT_MEMORY \<Rightarrow> memory_execute E c op ps b w)"

section \<open>The pool\<close>

record CircuitBreakerConfig =
  cb_enabled :: bool
  cb_failure_threshold :: int
  cb_open_duration :: int

record BackendPool =
  clients :: "BackendClient list" \<comment> \<open>the values of \<open>_clients\<close>, in insertion order\<close>
  pool_primary :: "BackendClient option"

definition make_client :: "string \<times> BackendConfig \<Rightarrow> BackendClient" where
  "make_client nc = \<lparr>bc_name = fst nc, is_primary = cfg_is_primary (snd nc),
     priority = cfg_priority (snd nc), bc_type = backend_type (snd nc),
     started = (backend_type (snd nc) = BT_MEMORY)\<rparr>"

text \<open>The loop of \<open>__init__\<close>: the last primary configured wins.\<close>

definition new_pool :: "(string \<times> BackendConfig) list \<Rightarrow> BackendPool" where
  "new_pool configs =
     \<lparr>clients = map make_client configs,
      pool_primary = fold (\<lambda>nc p. if cfg_is_primary (snd nc) then Some (make_client nc) else p) configs None\<rparr>"

definition new_breakers ::
  "(string \<times> BackendConfig) list \<Rightarrow> CircuitBreakerConfig \<Rightarrow> string \<Rightarrow> BackendCircuitBreaker option" where
  "new_breakers configs cb name =
     (if cb_enabled cb \<and> has_key configs name
      then Some (new_breaker name (cb_failure_threshold cb) (cb_open_duration cb)) else None)"

text \<open>\<open>start\<close> and \<open>close\<close>, on the clients (an in-memory client needs neither).\<close>

definition pool_start :: "BackendPool \<Rightarrow> BackendPool" where
  "pool_start pool = \<lparr>clients = map client_start (clients pool), pool_primary = map_option client_start (pool_primary pool)\<rparr>"

definition pool_close :: "BackendPool \<Rightarrow> BackendPool" where
  "pool_close pool =
     (let close = (\<lambda>c. if bc_type c = BT_S3 then client_close c else c)
      in \<lparr>clients = map close (clients pool), pool_primary = map_option close (pool_primary pool)\<rparr>)"

definition primary :: "BackendPool \<Rightarrow> pyexc + BackendClient" where
  "primary pool = (case pool_primary pool of
      None \<Rightarrow> Inl (PyRuntimeError ''No primary backend configured'') | Some c \<Rightarrow> Inr c)"

definition pool_get :: "BackendPool \<Rightarrow> string \<Rightarrow> pyexc + BackendClient" where
  "pool_get pool name =
     (case List.find (\<lambda>c. bc_name c = name) (clients pool) of
        None \<Rightarrow> Inl (PyKeyError (''Unknown backend: '' @ name)) | Some c \<Rightarrow> Inr c)"

definition get_secondaries :: "BackendPool \<Rightarrow> BackendClient list" where
  "get_secondaries pool = filter (\<lambda>c. \<not> is_primary c) (clients pool)"

text \<open>\<open>_filter_available\<close>: asking a breaker can move it to half-open, so the filter changes state.\<close>

fun filter_available :: "BackendClient list \<Rightarrow> 'w world \<Rightarrow> BackendClient list \<times> 'w world" where
  "filter_available [] w = ([], w)"
| "filter_available (c # cs) w =
     (case breakers w (bc_name c) of
        None \<Rightarrow> (let (rest, w') = filter_available cs w in (c # rest, w'))
      | Some b \<Rightarrow>
          (let (ok, b', ms) = allow_request (clock w) b;
             w' = emit (map Metric ms) (w\<lparr>breakers := (breakers w)(bc_name c \<mapsto> b')\<rparr>);
             (rest, w'') = filter_available cs w'
           in (if ok then c # rest else rest, w'')))"

definition get_write_candidates :: "BackendPool \<Rightarrow> 'w world \<Rightarrow> (pyexc + BackendClient list) \<times> 'w world" where
  "get_write_candidates pool w =
     (case primary pool of
        Inl e \<Rightarrow> (Inl e, w)
      | Inr p \<Rightarrow>
          (let candidates = p # sort_key priority (get_secondaries pool);
             (cs, w') = filter_available candidates w
           in (Inr cs, w')))"

definition all_by_latency :: "BackendPool \<Rightarrow> 'w world \<Rightarrow> (pyexc + BackendClient list) \<times> 'w world" where
  "all_by_latency pool w =
     (let secondaries = sort_key (\<lambda>c. (last_latency w (bc_name c), priority c)) (get_secondaries pool) in
      case primary pool of
        Inl e \<Rightarrow> (Inl e, w)
      | Inr p \<Rightarrow> (let (cs, w') = filter_available (p # secondaries) w in (Inr cs, w')))"

section \<open>The latency prober\<close>

text \<open>One client of one round of \<open>_run_loop\<close>, and the round over all clients.\<close>

definition probe :: "'w services \<Rightarrow> BackendClient \<Rightarrow> 'w world \<Rightarrow> 'w world" where
  "probe E c w =
     (let start_time = clock w; (res, _, w') = execute E c LIST_BUCKETS [] BodyAbsent w in
      case res of
        Inr r \<Rightarrow> w'\<lparr>last_latency := (last_latency w')(bc_name c := enat (nat (clock w' - start_time)))\<rparr>
      | Inl e \<Rightarrow> w'\<lparr>last_latency := (last_latency w')(bc_name c := \<infinity>)\<rparr>)"

definition probe_round :: "'w services \<Rightarrow> BackendClient list \<Rightarrow> 'w world \<Rightarrow> 'w world" where
  "probe_round E cs w = fold (probe E) cs w"

section \<open>What a call changes\<close>

text \<open>Every breaker of the world satisfies the breaker invariant.\<close>

definition world_inv :: "'w world \<Rightarrow> bool" where
  "world_inv w \<longleftrightarrow> (\<forall>n b. breakers w n = Some b \<longrightarrow> breaker_inv b)"

text \<open>
  \<open>extends w w' cs\<close>: \<open>w'\<close> continues \<open>w\<close> by effects that make the backend calls \<open>cs\<close>, publish
  nothing and keep the breaker invariant.
\<close>

definition extends :: "'w world \<Rightarrow> 'w world \<Rightarrow> call list \<Rightarrow> bool" where
  "extends w w' cs \<longleftrightarrow> (\<exists>es. trace w' = trace w @ es \<and> calls_of es = cs \<and> published_of es = []) \<and>
     (world_inv w \<longrightarrow> world_inv w')"

lemma extends_refl [simp, intro]: "extends w w []"
  by (auto simp: extends_def)

lemma extends_trans: "extends w w' cs \<Longrightarrow> extends w' w'' cs' \<Longrightarrow> extends w w'' (cs @ cs')"
  by (fastforce simp: extends_def)

lemma extends_emit:
  "calls_of es = [] \<Longrightarrow> published_of es = [] \<Longrightarrow> extends w (emit es w) []"
  by (auto simp: extends_def world_inv_def)

lemma extends_breaker_failure: "extends w (breaker_failure n w) []"
  using breaker_inv_failure [of _ "clock w"]
  by (auto simp: extends_def breaker_failure_def world_inv_def Let_def split: option.splits prod.splits) (metis fst_conv)

lemma extends_breaker_success: "extends w (breaker_success n w) []"
  using breaker_inv_success
  by (auto simp: extends_def breaker_success_def world_inv_def Let_def split: option.splits prod.splits) (metis fst_conv)

lemma extends_after_call: "extends w (after_call n op ps b dur res w) [(n, op, body_rest b, res)]"
proof -
  have "extends w (emit (BackendCall n op ps b res # map Metric ms) w) [(n, op, body_rest b, res)]" for ms
    by (auto simp: extends_def world_inv_def)
  note this [of "[_, _]", simplified] extends_trans [OF this [of "[_, _]", simplified]]
  then show ?thesis
    using extends_breaker_failure extends_breaker_success
    by (fastforce simp: after_call_def split: sum.splits)
qed

lemma extends_frame:
  "trace v = trace w \<Longrightarrow> breakers v = breakers w \<Longrightarrow> extends v w' cs \<Longrightarrow> extends w w' cs"
  by (auto simp: extends_def world_inv_def)

lemma execute_extends:
  assumes "execute E c op ps b w = (res, b', w')"
  shows "extends w w' (if bc_type c = BT_S3 \<and> \<not> started c then [] else [(bc_name c, op, body_rest b, res)])"
proof (cases "bc_type c")
  case BT_S3
  show ?thesis
  proof (cases "started c")
    case True
    obtain r b1 d x where k: "s3_call E (bc_name c) op ps b (ext w) = (r, b1, d, x)"
      by (metis prod_cases4)
    show ?thesis
      by (rule extends_frame [where v = "w\<lparr>ext := x, clock := clock w + int d\<rparr>"])
        (use assms BT_S3 True k extends_after_call in \<open>auto simp: execute_def s3_execute_def Let_def\<close>)
  next
    case False
    then show ?thesis using assms BT_S3 by (auto simp: execute_def s3_execute_def)
  qed
next
  case BT_MEMORY
  obtain u w1 where u: "(if op = PUT_OBJECT then draw_uuid E w else ([], w)) = (u, w1)" by force
  obtain r st where d: "dispatch (bc_name c) (''\"'' @ filter (\<lambda>c. c \<noteq> CHR ''-'') u @ ''\"'') (clock w1) op ps b
      (mem_store w1) = (r, st)" by force
  have w': "w' = after_call (bc_name c) op ps b 0 res (w1\<lparr>mem_store := st\<rparr>)"
    using assms BT_MEMORY u d by (auto simp: execute_def memory_execute_def Let_def)
  have "trace w1 = trace w" "breakers w1 = breakers w"
    using u by (auto simp: draw_uuid_def split: if_splits)
  then have "extends w w' [(bc_name c, op, body_rest b, res)]" unfolding w'
    using extends_frame [OF _ _ extends_after_call, of "w1\<lparr>mem_store := st\<rparr>" w] by simp
  then show ?thesis using BT_MEMORY by simp
qed

section \<open>Order of the candidates\<close>

definition wf_pool :: "BackendPool \<Rightarrow> bool" where
  "wf_pool pool \<longleftrightarrow> distinct (map bc_name (clients pool)) \<and>
     (\<exists>p. pool_primary pool = Some p \<and> p \<in> set (clients pool) \<and>
        (\<forall>c \<in> set (clients pool). is_primary c \<longleftrightarrow> c = p))"

definition breaker_allows :: "'w world \<Rightarrow> BackendClient \<Rightarrow> bool" where
  "breaker_allows w c =
     (case breakers w (bc_name c) of None \<Rightarrow> True | Some b \<Rightarrow> fst (allow_request (clock w) b))"

lemma breaker_allows_other [simp]:
  "bc_name d \<noteq> n \<Longrightarrow> breaker_allows (emit es (w\<lparr>breakers := (breakers w)(n \<mapsto> b)\<rparr>)) d = breaker_allows w d"
  by (simp add: breaker_allows_def split: option.split)

lemma filter_available_fst:
  "distinct (map bc_name cs) \<Longrightarrow> fst (filter_available cs w) = filter (breaker_allows w) cs"
proof (induction cs arbitrary: w)
  case (Cons c cs)
  show ?case
  proof (cases "breakers w (bc_name c)")
    case None
    then show ?thesis using Cons.IH [of w] Cons.prems
      by (simp add: breaker_allows_def [of w c] split: prod.split) (metis fst_conv)
  next
    case (Some b)
    obtain ok b' ms where a: "allow_request (clock w) b = (ok, b', ms)" by (metis prod_cases3)
    let ?w = "emit (map Metric ms) (w\<lparr>breakers := (breakers w)(bc_name c \<mapsto> b')\<rparr>)"
    have "bc_name d \<noteq> bc_name c" if "d \<in> set cs" for d
      using Cons.prems that by (metis distinct.simps(2) image_eqI list.set_map list.simps(9))
    then have "filter (breaker_allows ?w) cs = filter (breaker_allows w) cs"
      by (intro filter_cong) auto
    then show ?thesis using Cons.IH [of ?w] Cons.prems Some a
      by (cases "filter_available cs ?w") (simp add: breaker_allows_def [of w c])
  qed
qed simp

lemma filter_available_extends: "extends w (snd (filter_available cs w)) []"
proof (induction cs arbitrary: w)
  case (Cons c cs)
  show ?case
  proof (cases "breakers w (bc_name c)")
    case None
    then show ?thesis using Cons.IH [of w] by (cases "filter_available cs w") simp
  next
    case (Some b)
    obtain ok b' ms where a: "allow_request (clock w) b = (ok, b', ms)" by (metis prod_cases3)
    let ?w = "emit (map Metric ms) (w\<lparr>breakers := (breakers w)(bc_name c \<mapsto> b')\<rparr>)"
    have "extends w ?w []"
      using breaker_inv_allow [of b "clock w"] Some a by (auto simp: extends_def world_inv_def)
    from extends_trans [OF this Cons.IH [of ?w]] show ?thesis
      using Some a by (cases "filter_available cs ?w") simp
  qed
qed simp

lemma mset_split_primary:
  assumes "wf_pool pool" and "pool_primary pool = Some p"
  shows "mset (p # get_secondaries pool) = mset (clients pool)"
proof -
  have "distinct (clients pool)" "p \<in> set (clients pool)" "\<forall>c \<in> set (clients pool). is_primary c \<longleftrightarrow> c = p"
    using assms by (auto simp: wf_pool_def distinct_map)
  then show ?thesis
    by (intro set_eq_iff_mset_eq_distinct [THEN iffD1]) (auto simp: get_secondaries_def)
qed

lemma distinct_candidates:
  assumes "wf_pool pool" and "pool_primary pool = Some p"
  shows "distinct (map bc_name (p # sort_key f (get_secondaries pool)))"
proof -
  have "mset (map bc_name (p # sort_key f (get_secondaries pool))) = mset (map bc_name (clients pool))"
    using mset_split_primary [OF assms] by (metis mset.simps(2) mset_map mset_sort)
  then show ?thesis using assms(1) mset_eq_imp_distinct_iff by (fastforce simp: wf_pool_def)
qed

text \<open>What both candidate lists have in common: the available clients, the primary in front.\<close>

lemma candidates_law:
  assumes "wf_pool pool" and "pool_primary pool = Some p"
    and "filter_available (p # sort_key f (get_secondaries pool)) w = (cs, w')"
  shows "mset cs = filter_mset (breaker_allows w) (mset (clients pool)) \<and>
    (breaker_allows w p \<longrightarrow> cs \<noteq> [] \<and> hd cs = p) \<and>
    sorted (map f (filter (\<lambda>c. c \<noteq> p) cs)) \<and> distinct (map bc_name cs) \<and> extends w w' []"
proof -
  let ?s = "sort_key f (get_secondaries pool)"
  have cs: "cs = filter (breaker_allows w) (p # ?s)"
    using filter_available_fst [OF distinct_candidates [OF assms(1,2)]] assms(3) by (metis fst_conv)
  have p: "p \<notin> set (get_secondaries pool)" using assms(1,2) by (auto simp: wf_pool_def get_secondaries_def)
  have "mset cs = filter_mset (breaker_allows w) (mset (clients pool))"
    using mset_split_primary [OF assms(1,2)] by (metis cs mset.simps(2) mset_filter mset_sort)
  moreover have "filter (\<lambda>c. c \<noteq> p) cs = filter (breaker_allows w) ?s"
    using p by (auto simp: cs intro: filter_cong)
  moreover have "sorted (map f (filter (breaker_allows w) ?s))" by (simp add: sorted_filter)
  moreover have "distinct (map bc_name cs)"
    unfolding cs by (rule filter_key_distinct [OF distinct_candidates [OF assms(1,2)]])
  moreover have "extends w w' []"
    using filter_available_extends [of w "p # ?s"] assms(3) by simp
  moreover have "breaker_allows w p \<longrightarrow> cs \<noteq> [] \<and> hd cs = p" by (simp add: cs)
  ultimately show ?thesis by simp
qed

text \<open>
  C38. Order of write attempts.  The write candidates are exactly the backends whose circuit breaker
  admits a request, each once: the primary first when it is admitted, then the secondaries by
  ascending priority.  Computing them calls no backend.
\<close>

theorem write_candidates_order:
  assumes "wf_pool pool" and "pool_primary pool = Some p"
  shows "\<exists>cs w'. get_write_candidates pool w = (Inr cs, w') \<and>
    mset cs = filter_mset (breaker_allows w) (mset (clients pool)) \<and>
    (breaker_allows w p \<longrightarrow> cs \<noteq> [] \<and> hd cs = p) \<and>
    sorted (map priority (filter (\<lambda>c. c \<noteq> p) cs)) \<and> distinct (map bc_name cs) \<and> extends w w' []"
proof -
  obtain cs w' where f: "filter_available (p # sort_key priority (get_secondaries pool)) w = (cs, w')" by force
  then have "get_write_candidates pool w = (Inr cs, w')"
    using assms(2) by (simp add: get_write_candidates_def primary_def)
  with candidates_law [OF assms f] show ?thesis by blast
qed

text \<open>
  Order of read attempts: the same for reads, with the secondaries by ascending measured
  latency and, among equal latencies, ascending priority.  The primary is asked first whatever its
  latency, which is what makes a read after a write to the primary see that write.
\<close>

theorem read_candidates_order:
  assumes "wf_pool pool" and "pool_primary pool = Some p"
  shows "\<exists>cs w'. all_by_latency pool w = (Inr cs, w') \<and>
    mset cs = filter_mset (breaker_allows w) (mset (clients pool)) \<and>
    (breaker_allows w p \<longrightarrow> cs \<noteq> [] \<and> hd cs = p) \<and>
    sorted (map (\<lambda>c. (last_latency w (bc_name c), priority c)) (filter (\<lambda>c. c \<noteq> p) cs)) \<and>
    distinct (map bc_name cs) \<and> extends w w' []"
proof -
  let ?f = "\<lambda>c. (last_latency w (bc_name c), priority c)"
  obtain cs w' where f: "filter_available (p # sort_key ?f (get_secondaries pool)) w = (cs, w')" by force
  then have "all_by_latency pool w = (Inr cs, w')"
    using assms(2) by (simp add: all_by_latency_def primary_def)
  with candidates_law [OF assms f] show ?thesis by blast
qed

definition sample_pool :: BackendPool where
  "sample_pool = pool_start (new_pool
     [(''p'', \<lparr>backend_type = BT_S3, cfg_is_primary = True, cfg_priority = 0\<rparr>),
      (''s2'', \<lparr>backend_type = BT_S3, cfg_is_primary = False, cfg_priority = 2\<rparr>),
      (''s1'', \<lparr>backend_type = BT_S3, cfg_is_primary = False, cfg_priority = 1\<rparr>)])"

definition sample_primary :: BackendClient where
  "sample_primary = \<lparr>bc_name = ''p'', is_primary = True, priority = 0, bc_type = BT_S3, started = True\<rparr>"

definition sample_world :: "unit world" where
  "sample_world = \<lparr>ext = (), clock = 0, breakers = Map.empty, last_latency = (\<lambda>_. 0),
     mem_store = [], uuids_drawn = 0, trace = []\<rparr>"

text \<open>A concrete environment: every S3 call succeeds in one tick, Kafka accepts everything.\<close>

definition sample_services :: "unit services" where
  "sample_services = \<lparr>s3_call = (\<lambda>n op ps b x. (Inr [(''ETag'', VStr ''e'')], b, 1, x)),
     kafka_publish = (\<lambda>t k p x. (None, x)), uuid4 = (\<lambda>n. replicate n CHR ''a'')\<rparr>"

lemma sample_pool_wf: "wf_pool sample_pool" "pool_primary sample_pool = Some sample_primary"
  by (simp_all add: sample_pool_def new_pool_def pool_start_def client_start_def make_client_def wf_pool_def sample_primary_def)

theorem write_candidates_order_witness:
  "\<exists>cs w'. get_write_candidates sample_pool sample_world = (Inr cs, w') \<and> hd cs = sample_primary \<and>
     mset cs = filter_mset (breaker_allows sample_world) (mset (clients sample_pool))"
  using write_candidates_order [OF sample_pool_wf, of sample_world]
  by (auto simp: breaker_allows_def sample_world_def)

theorem read_candidates_order_witness:
  "\<exists>cs w'. all_by_latency sample_pool sample_world = (Inr cs, w') \<and> hd cs = sample_primary \<and>
     mset cs = filter_mset (breaker_allows sample_world) (mset (clients sample_pool))"
  using read_candidates_order [OF sample_pool_wf, of sample_world]
  by (auto simp: breaker_allows_def sample_world_def)

section \<open>Probing an in-memory backend\<close>

lemma probe_memory:
  assumes "bc_type c = BT_MEMORY" and "breakers w (bc_name c) = Some b"
  shows "last_latency (probe E c w) (bc_name c) = \<infinity> \<and> clock (probe E c w) = clock w \<and>
    breakers (probe E c w) (bc_name c) = Some (breaker_step (clock w, Failure) b)"
  using assms
  by (simp add: probe_def execute_def memory_execute_def dispatch_def with_str_def after_call_def
      breaker_failure_def split: prod.split)

lemma probe_memory_rounds:
  assumes "bc_type c = BT_MEMORY" and "breakers w (bc_name c) = Some b"
  shows "clock ((probe E c ^^ n) w) = clock w \<and>
    breakers ((probe E c ^^ n) w) (bc_name c) = Some (breaker_run (replicate n (clock w, Failure)) b)"
proof (induction n)
  case (Suc n)
  have "breaker_run (replicate (Suc n) (clock w, Failure)) b =
      breaker_step (clock w, Failure) (breaker_run (replicate n (clock w, Failure)) b)"
    by (simp add: breaker_run_def replicate_append_same [symmetric] del: replicate_Suc)
  then show ?case using Suc probe_memory [OF assms(1), of "(probe E c ^^ n) w"] by simp
qed (simp add: assms breaker_run_def)

lemma trailing_failures_replicate:
  "trailing_failures (replicate n (t, Failure)) acc = replicate n t @ acc"
  by (induction n arbitrary: acc) (simp_all add: replicate_app_Cons_same)

text \<open>
  Probing takes a healthy in-memory backend out of service.  \<open>LIST_BUCKETS\<close> is sent without
  a bucket, \<open>_dispatch\<close> reads \<open>params["Bucket"]\<close> first and raises, so every probe counts as a
  failure: after \<open>failure_threshold\<close> probes the backend's latency is infinite and the pool skips it.
\<close>

theorem probing_disables_memory_backend:
  assumes "bc_type c = BT_MEMORY" and "1 \<le> threshold" and "0 < duration"
    and "breakers w (bc_name c) = Some (new_breaker (bc_name c) threshold duration)"
  shows "last_latency ((probe E c ^^ nat threshold) w) (bc_name c) = \<infinity> \<and>
    fst (filter_available [c] ((probe E c ^^ nat threshold) w)) = []"
proof -
  obtain k where k: "nat threshold = Suc k" using assms(2) by (cases "nat threshold") auto
  let ?w = "(probe E c ^^ nat threshold) w"
  let ?es = "replicate (nat threshold) (clock w, Failure)"
  let ?b = "breaker_run ?es (new_breaker (bc_name c) threshold duration)"
  have b: "clock ?w = clock w" "breakers ?w (bc_name c) = Some ?b"
    using probe_memory_rounds [OF assms(1,4)] by simp_all
  have "sorted (map fst ?es @ [clock w])" by (simp add: sorted_append)
  from breaker_rep_refuses [OF fresh_breaker_rep [OF assms(2) this]] have "\<not> fst (allow_request (clock w) ?b)"
    using assms(2,3) by (simp add: trailing_failures_replicate refuse_spec_def hd_replicate new_breaker_def)
  then have "fst (filter_available [c] ?w) = []"
    using filter_available_fst [of "[c]" ?w] b by (simp add: breaker_allows_def)
  moreover have "last_latency ?w (bc_name c) = \<infinity>"
    using probe_memory [OF assms(1), of "(probe E c ^^ k) w"] probe_memory_rounds [OF assms(1,4), where E = E and n = k]
    by (simp add: k)
  ultimately show ?thesis by simp
qed

theorem probing_disables_memory_backend_witness:
  "last_latency ((probe sample_services (make_client (''m'', \<lparr>backend_type = BT_MEMORY,
       cfg_is_primary = True, cfg_priority = 0\<rparr>)) ^^ nat 3)
     (sample_world\<lparr>breakers := [''m'' \<mapsto> new_breaker ''m'' 3 30]\<rparr>)) ''m'' = \<infinity>"
  using probing_disables_memory_backend [of "make_client (''m'', \<lparr>backend_type = BT_MEMORY,
       cfg_is_primary = True, cfg_priority = 0\<rparr>)" 3 30 "sample_world\<lparr>breakers := [''m'' \<mapsto> new_breaker ''m'' 3 30]\<rparr>" sample_services]
  by (simp add: make_client_def)

end
