(* ===== verification/Replication_Manager.thy ===== *)
theory Replication_Manager
  imports Backend_Pool
begin

text \<open>
  Publishing replication tasks: \<open>src/s3mer/kafka/publisher.py\<close> and \<open>src/s3mer/kafka/manager.py\<close>.
  A publish that raises ends the scheduling with that exception, so a result is an optional
  exception.  (The tracing header that carries the request id is not modelled.)

  The locale \<open>replication_scheduler\<close> is what a write strategy relies on: scheduling that returns
  normally has published, for every key and every target, a message that tells the worker to copy
  the key from the source to the target.  Both managers are interpretations of it.
\<close>

section \<open>Publisher\<close>

definition partition_key :: "ReplicationMessage \<Rightarrow> string" where
  "partition_key m = join ''/'' (msg_bucket m # (if truthy_str (msg_key m) then [the (msg_key m)] else []))"

definition publish :: "'w services \<Rightarrow> string \<Rightarrow> ReplicationMessage \<Rightarrow> string option \<Rightarrow> 'w world \<Rightarrow> pyexc option \<times> 'w world" where
  "publish E base_topic m topic w =
     (let target_topic = (if truthy_str topic then the topic else base_topic);
        (r, x) = kafka_publish E target_topic (partition_key m) (ReplMsg m) (ext w)
      in (r, emit [KafkaPublish target_topic (partition_key m) (ReplMsg m) r] (w\<lparr>ext := x\<rparr>)))"

section \<open>BaseReplicationManager\<close>

definition REPLICATED_OBJECT_METADATA :: "string list" where
  "REPLICATED_OBJECT_METADATA = [''ContentType'', ''ContentEncoding'', ''CacheControl'',
     ''ContentDisposition'', ''ContentLanguage'', ''Expires'', ''Metadata'']"

definition BUCKET_LEVEL_OPERATIONS :: "S3Operation set" where
  "BUCKET_LEVEL_OPERATIONS = {CREATE_BUCKET, DELETE_BUCKET, PUT_BUCKET_LIFECYCLE, DELETE_BUCKET_LIFECYCLE,
     PUT_BUCKET_POLICY, DELETE_BUCKET_POLICY}"

definition map_operation :: "S3Operation \<Rightarrow> string" where
  "map_operation op =
     (if op \<in> {COMPLETE_MULTIPART_UPLOAD, COPY_OBJECT} then op_value PUT_OBJECT
      else if op = DELETE_OBJECTS then op_value DELETE_OBJECT
      else op_value op)"

text \<open>\<open>[d["Key"] for d in items]\<close>.\<close>

fun item_keys :: "pyval list \<Rightarrow> pyexc + string option list" where
  "item_keys [] = Inr []"
| "item_keys (d # ds) =
     (case map_of (as_dict d) ''Key'' of
        Some (VStr k) \<Rightarrow> ebind (item_keys ds) (\<lambda>ks. Inr (Some k # ks))
      | Some _ \<Rightarrow> Inl (PyTypeError ''Key'')
      | None \<Rightarrow> Inl (PyKeyError ''Key''))"

definition extract_keys :: "S3Operation \<Rightarrow> pdict \<Rightarrow> pdict \<Rightarrow> pyexc + string option list" where
  "extract_keys op ps resp =
     (if op = DELETE_OBJECTS then
        (let deleted = as_list (get_default resp ''Deleted'' (VList [])) in
         if deleted \<noteq> [] then item_keys deleted
         else item_keys (as_list (get_default (as_dict (get_default ps ''Delete'' (VDict []))) ''Objects'' (VList []))))
      else if op \<in> BUCKET_LEVEL_OPERATIONS then Inr [None]
      else (case map_of ps ''Key'' of
          Some (VStr k) \<Rightarrow> (if k \<noteq> [] then Inr [Some k] else Inr [])
        | _ \<Rightarrow> Inr []))"

definition build_metadata :: "pdict \<Rightarrow> pdict \<Rightarrow> pdict" where
  "build_metadata ps resp =
     fold (\<lambda>k md. case map_of resp k of
              Some v \<Rightarrow> AList.update k v md
            | None \<Rightarrow> (case map_of ps k of Some v \<Rightarrow> AList.update k v md | None \<Rightarrow> md))
       (''ETag'' # ''ContentLength'' # REPLICATED_OBJECT_METADATA) []"

definition new_message ::
  "'w services \<Rightarrow> string \<Rightarrow> string \<Rightarrow> string option \<Rightarrow> string \<Rightarrow> string list \<Rightarrow> pdict \<Rightarrow> 'w world \<Rightarrow> ReplicationMessage \<times> 'w world" where
  "new_message E op bucket key src targets md w =
     (let (u, w) = draw_uuid E w in
      (\<lparr>message_id = u, msg_timestamp = clock w, msg_operation = op, msg_bucket = bucket, msg_key = key,
        source_backend = src, target_backends = targets, msg_metadata = md, retry_count = 0\<rparr>, w))"

section \<open>The two managers\<close>

text \<open>\<open>params["Bucket"]\<close>.\<close>

definition bucket_param :: "pdict \<Rightarrow> pyexc + string" where
  "bucket_param ps = (case map_of ps ''Bucket'' of Some (VStr b) \<Rightarrow> Inr b
     | Some _ \<Rightarrow> Inl (PyTypeError ''Bucket'') | None \<Rightarrow> Inl (PyKeyError ''Bucket''))"

fun batch_loop ::
  "'w services \<Rightarrow> string \<Rightarrow> string \<Rightarrow> pdict \<Rightarrow> string \<Rightarrow> string list \<Rightarrow> pdict \<Rightarrow> string option list \<Rightarrow> 'w world \<Rightarrow> pyexc option \<times> 'w world" where
  "batch_loop E topic op ps src targets md [] w = (None, w)"
| "batch_loop E topic op ps src targets md (key # keys) w =
     (case bucket_param ps of
        Inl e \<Rightarrow> (Some e, w)
      | Inr bucket \<Rightarrow>
          (let (m, w) = new_message E op bucket key src targets md w;
             w = emit (map (\<lambda>t. Metric (record_replication_task op t)) targets) w;
             (r, w) = publish E topic m None w
           in case r of Some e \<Rightarrow> (Some e, w) | None \<Rightarrow> batch_loop E topic op ps src targets md keys w))"

definition batch_schedule ::
  "'w services \<Rightarrow> string \<Rightarrow> S3Operation \<Rightarrow> pdict \<Rightarrow> pdict \<Rightarrow> string \<Rightarrow> string list \<Rightarrow> 'w world \<Rightarrow> pyexc option \<times> 'w world" where
  "batch_schedule E topic op ps resp src targets w =
     (if targets = [] then (None, w)
      else (case extract_keys op ps resp of
          Inl e \<Rightarrow> (Some e, w)
        | Inr keys \<Rightarrow>
            batch_loop E topic (map_operation op) ps src targets (build_metadata ps resp) keys
              (emit_metric (record_replication_fanout (op_value op) (length keys)) w)))"

text \<open>The inner loop over the targets of one key, and the outer loop over the keys.\<close>

fun per_target_loop ::
  "'w services \<Rightarrow> string \<Rightarrow> string \<Rightarrow> pdict \<Rightarrow> string \<Rightarrow> pdict \<Rightarrow> string option \<Rightarrow> string list \<Rightarrow> 'w world \<Rightarrow> pyexc option \<times> 'w world" where
  "per_target_loop E topic op ps src md key [] w = (None, w)"
| "per_target_loop E topic op ps src md key (t # ts) w =
     (case bucket_param ps of
        Inl e \<Rightarrow> (Some e, w)
      | Inr bucket \<Rightarrow>
          (let (m, w) = new_message E op bucket key src [t] md w;
             w = emit_metric (record_replication_task op t) w;
             (r, w) = publish E topic m (Some (topic @ ''.'' @ t)) w
           in case r of Some e \<Rightarrow> (Some e, w) | None \<Rightarrow> per_target_loop E topic op ps src md key ts w))"

fun per_key_loop ::
  "'w services \<Rightarrow> string \<Rightarrow> string \<Rightarrow> pdict \<Rightarrow> string \<Rightarrow> string list \<Rightarrow> pdict \<Rightarrow> string option list \<Rightarrow> 'w world \<Rightarrow> pyexc option \<times> 'w world" where
  "per_key_loop E topic op ps src targets md [] w = (None, w)"
| "per_key_loop E topic op ps src targets md (key # keys) w =
     (case per_target_loop E topic op ps src md key targets w of
        (Some e, w) \<Rightarrow> (Some e, w)
      | (None, w) \<Rightarrow> per_key_loop E topic op ps src targets md keys w)"

definition per_backend_schedule ::
  "'w services \<Rightarrow> string \<Rightarrow> S3Operation \<Rightarrow> pdict \<Rightarrow> pdict \<Rightarrow> string \<Rightarrow> string list \<Rightarrow> 'w world \<Rightarrow> pyexc option \<times> 'w world" where
  "per_backend_schedule E topic op ps resp src targets w =
     (if targets = [] then (None, w)
      else (case extract_keys op ps resp of
          Inl e \<Rightarrow> (Some e, w)
        | Inr keys \<Rightarrow>
            per_key_loop E topic (map_operation op) ps src targets (build_metadata ps resp) keys
              (emit_metric (record_replication_fanout (op_value op) (length keys)) w)))"

section \<open>The contract of a scheduler\<close>

text \<open>
  The replication tasks among the successful publishes of a trace: topic, operation, bucket, key,
  source and targets of each, in order.
\<close>

fun tasks_of :: "event list \<Rightarrow> (string \<times> string \<times> string \<times> string option \<times> string \<times> string list) list" where
  "tasks_of [] = []"
| "tasks_of (KafkaPublish topic pk (ReplMsg m) None # es) =
     (topic, msg_operation m, msg_bucket m, msg_key m, source_backend m, target_backends m) # tasks_of es"
| "tasks_of (e # es) = tasks_of es"

text \<open>
  \<open>task es op b k src t\<close>: among the effects \<open>es\<close> is a successful publish that asks for operation
  \<open>op\<close> on bucket \<open>b\<close> and key \<open>k\<close> to be copied from \<open>src\<close> to \<open>t\<close>.
\<close>

definition task :: "event list \<Rightarrow> string \<Rightarrow> string \<Rightarrow> string option \<Rightarrow> string \<Rightarrow> string \<Rightarrow> bool" where
  "task es op b k src t \<longleftrightarrow> (\<exists>topic ts. (topic, op, b, k, src, ts) \<in> set (tasks_of es) \<and> t \<in> set ts)"

text \<open>
  \<open>published w w' P\<close>: the step from \<open>w\<close> to \<open>w'\<close> calls no backend and touches no breaker, and \<open>P\<close>
  holds of its effects.
\<close>

definition published :: "'w world \<Rightarrow> 'w world \<Rightarrow> (event list \<Rightarrow> bool) \<Rightarrow> bool" where
  "published w w' P \<longleftrightarrow> (\<exists>es. trace w' = trace w @ es \<and> calls_of es = [] \<and> P es) \<and> breakers w' = breakers w"

locale replication_scheduler =
  fixes schedule :: "S3Operation \<Rightarrow> pdict \<Rightarrow> pdict \<Rightarrow> string \<Rightarrow> string list \<Rightarrow> 'w world \<Rightarrow> pyexc option \<times> 'w world"
  assumes schedule_quiet: "published w (snd (schedule op ps resp src targets w)) (\<lambda>_. True)"
    and schedule_covers: "schedule op ps resp src targets w = (None, w') \<Longrightarrow> targets \<noteq> [] \<Longrightarrow>
      \<exists>keys. extract_keys op ps resp = Inr keys \<and> published w w' (\<lambda>es.
        \<forall>k \<in> set keys. \<forall>t \<in> set targets. \<exists>b. bucket_param ps = Inr b \<and> task es (map_operation op) b k src t)"

section \<open>The managers meet the contract\<close>

lemma tasks_of_append [simp]: "tasks_of (xs @ ys) = tasks_of xs @ tasks_of ys"
  by (induction xs rule: tasks_of.induct) auto

lemma tasks_of_metrics [simp]: "tasks_of (map (\<lambda>t. Metric (f t)) ts) = []"
  "calls_of (map (\<lambda>t. Metric (f t)) ts) = []"
  by (induction ts) auto

lemma published_refl: "P [] \<Longrightarrow> published w w P"
  by (simp add: published_def)

lemma published_trans:
  assumes "published w w' P" and "published w' w'' Q" and "\<And>a b. P a \<Longrightarrow> Q b \<Longrightarrow> R (a @ b)"
  shows "published w w'' R"
  using assms by (fastforce simp: published_def)

lemma published_mono: "published w w' P \<Longrightarrow> (\<And>es. P es \<Longrightarrow> Q es) \<Longrightarrow> published w w' Q"
  by (auto simp: published_def)

lemma published_emit_metric: "published w (emit_metric m w) (\<lambda>es. tasks_of es = [])"
  by (simp add: published_def)

text \<open>One message: built, announced to the metrics, published.\<close>

lemma publish_new_message:
  assumes "new_message E op b k src ts md w = (m, w1)"
    and "publish E topic m tp (emit (map (\<lambda>t. Metric (f t)) ms) w1) = (r, w2)"
  shows "published w w2 (\<lambda>es. tasks_of es = (if r = None
    then [(if truthy_str tp then the tp else topic, op, b, k, src, ts)] else []))"
  using assms by (cases r) (auto simp: published_def new_message_def draw_uuid_def publish_def Let_def split: prod.splits)

lemma batch_loop_tasks:
  "published w (snd (batch_loop E topic op ps src ts md keys w)) (\<lambda>es.
     fst (batch_loop E topic op ps src ts md keys w) = None \<longrightarrow>
     (case bucket_param ps of Inl _ \<Rightarrow> keys = [] | Inr b \<Rightarrow> tasks_of es = map (\<lambda>k. (topic, op, b, k, src, ts)) keys))"
proof (induction keys arbitrary: w)
  case (Cons k keys)
  show ?case
  proof (cases "bucket_param ps")
    case (Inl e)
    then show ?thesis by (simp add: published_def)
  next
    case (Inr b)
    obtain m w1 where m: "new_message E op b k src ts md w = (m, w1)" by force
    obtain r w2 where p: "publish E topic m None (emit (map (\<lambda>t. Metric (record_replication_task op t)) ts) w1) = (r, w2)"
      by force
    note one = publish_new_message [OF m p]
    show ?thesis
    proof (cases r)
      case (Some e)
      then show ?thesis using Inr m p one by (auto intro: published_mono)
    next
      case None
      then have eq: "batch_loop E topic op ps src ts md (k # keys) w = batch_loop E topic op ps src ts md keys w2"
        using Inr m p by simp
      show ?thesis unfolding eq
        by (rule published_trans [OF one Cons.IH [of w2]]) (use None Inr in auto)
    qed
  qed
qed (simp add: published_refl split: sum.split)

lemma per_target_loop_tasks:
  "published w (snd (per_target_loop E topic op ps src md key ts w)) (\<lambda>es.
     fst (per_target_loop E topic op ps src md key ts w) = None \<longrightarrow>
     (case bucket_param ps of Inl _ \<Rightarrow> ts = []
      | Inr b \<Rightarrow> tasks_of es = map (\<lambda>t. (topic @ ''.'' @ t, op, b, key, src, [t])) ts))"
proof (induction ts arbitrary: w)
  case (Cons t ts)
  show ?case
  proof (cases "bucket_param ps")
    case (Inl e)
    then show ?thesis by (simp add: published_def)
  next
    case (Inr b)
    obtain m w1 where m: "new_message E op b key src [t] md w = (m, w1)" by force
    obtain r w2 where p: "publish E topic m (Some (topic @ ''.'' @ t)) (emit_metric (record_replication_task op t) w1) = (r, w2)"
      by force
    note one = publish_new_message [OF m, where ms = "[t]" and f = "record_replication_task op", simplified, OF p]
    show ?thesis
    proof (cases r)
      case (Some e)
      then show ?thesis using Inr m p one by (auto intro: published_mono)
    next
      case None
      then have eq: "per_target_loop E topic op ps src md key (t # ts) w = per_target_loop E topic op ps src md key ts w2"
        using Inr m p by simp
      show ?thesis unfolding eq
        by (rule published_trans [OF one Cons.IH [of w2]]) (use None Inr in auto)
    qed
  qed
qed (simp add: published_refl split: sum.split)

definition per_backend_tasks ::
  "string \<Rightarrow> string \<Rightarrow> string \<Rightarrow> string \<Rightarrow> string list \<Rightarrow> string option list \<Rightarrow> (string \<times> string \<times> string \<times> string option \<times> string \<times> string list) list" where
  "per_backend_tasks topic op b src ts keys =
     concat (map (\<lambda>k. map (\<lambda>t. (topic @ ''.'' @ t, op, b, k, src, [t])) ts) keys)"

lemma per_key_loop_tasks:
  "published w (snd (per_key_loop E topic op ps src ts md keys w)) (\<lambda>es.
     fst (per_key_loop E topic op ps src ts md keys w) = None \<longrightarrow>
     (case bucket_param ps of Inl _ \<Rightarrow> ts = [] \<or> keys = [] | Inr b \<Rightarrow> tasks_of es = per_backend_tasks topic op b src ts keys))"
proof (induction keys arbitrary: w)
  case (Cons k keys)
  obtain r w2 where p: "per_target_loop E topic op ps src md k ts w = (r, w2)" by force
  note one = per_target_loop_tasks [of w E topic op ps src md k ts, unfolded p fst_conv snd_conv]
  show ?case
  proof (cases r)
    case (Some e)
    then show ?thesis using p one by (auto intro: published_mono)
  next
    case None
    then have eq: "per_key_loop E topic op ps src ts md (k # keys) w = per_key_loop E topic op ps src ts md keys w2"
      using p by simp
    show ?thesis unfolding eq
      by (rule published_trans [OF one Cons.IH [of w2]])
        (use None in \<open>auto simp: per_backend_tasks_def split: sum.splits\<close>)
  qed
qed (simp add: published_refl per_backend_tasks_def split: sum.split)

text \<open>What the two \<open>schedule_replication\<close> methods publish, exactly.\<close>

lemma batch_schedule_tasks:
  "published w (snd (batch_schedule E topic op ps resp src targets w)) (\<lambda>es.
     fst (batch_schedule E topic op ps resp src targets w) = None \<longrightarrow> targets \<noteq> [] \<longrightarrow>
     (\<exists>keys. extract_keys op ps resp = Inr keys \<and>
        (case bucket_param ps of Inl _ \<Rightarrow> keys = []
         | Inr b \<Rightarrow> tasks_of es = map (\<lambda>k. (topic, map_operation op, b, k, src, targets)) keys)))"
proof (cases "targets = [] \<or> (\<exists>e. extract_keys op ps resp = Inl e)")
  case True
  then show ?thesis by (auto simp: batch_schedule_def published_def)
next
  case False
  then obtain keys where k: "extract_keys op ps resp = Inr keys" by (cases "extract_keys op ps resp") auto
  show ?thesis using False k
    by (simp add: batch_schedule_def)
      (rule published_trans [OF published_emit_metric batch_loop_tasks], auto split: sum.splits)
qed

lemma per_backend_schedule_tasks:
  "published w (snd (per_backend_schedule E topic op ps resp src targets w)) (\<lambda>es.
     fst (per_backend_schedule E topic op ps resp src targets w) = None \<longrightarrow> targets \<noteq> [] \<longrightarrow>
     (\<exists>keys. extract_keys op ps resp = Inr keys \<and>
        (case bucket_param ps of Inl _ \<Rightarrow> keys = []
         | Inr b \<Rightarrow> tasks_of es = per_backend_tasks topic (map_operation op) b src targets keys)))"
proof (cases "targets = [] \<or> (\<exists>e. extract_keys op ps resp = Inl e)")
  case True
  then show ?thesis by (auto simp: per_backend_schedule_def published_def)
next
  case False
  then obtain keys where k: "extract_keys op ps resp = Inr keys" by (cases "extract_keys op ps resp") auto
  show ?thesis using False k
    by (simp add: per_backend_schedule_def)
      (rule published_trans [OF published_emit_metric per_key_loop_tasks], auto split: sum.splits)
qed

interpretation batch: replication_scheduler "batch_schedule E topic" for E topic
proof unfold_locales
  fix w op ps resp src targets
  note law = batch_schedule_tasks [of w E topic op ps resp src targets]
  show "published w (snd (batch_schedule E topic op ps resp src targets w)) (\<lambda>_. True)"
    by (rule published_mono [OF law]) simp
  fix w' assume "batch_schedule E topic op ps resp src targets w = (None, w')" "targets \<noteq> []"
  then show "\<exists>keys. extract_keys op ps resp = Inr keys \<and> published w w' (\<lambda>es.
      \<forall>k \<in> set keys. \<forall>t \<in> set targets. \<exists>b. bucket_param ps = Inr b \<and> task es (map_operation op) b k src t)"
    using law by (cases "bucket_param ps") (fastforce simp: published_def task_def)+
qed

interpretation per_backend: replication_scheduler "per_backend_schedule E topic" for E topic
proof unfold_locales
  fix w op ps resp src targets
  note law = per_backend_schedule_tasks [of w E topic op ps resp src targets]
  show "published w (snd (per_backend_schedule E topic op ps resp src targets w)) (\<lambda>_. True)"
    by (rule published_mono [OF law]) simp
  fix w' assume "per_backend_schedule E topic op ps resp src targets w = (None, w')" "targets \<noteq> []"
  then show "\<exists>keys. extract_keys op ps resp = Inr keys \<and> published w w' (\<lambda>es.
      \<forall>k \<in> set keys. \<forall>t \<in> set targets. \<exists>b. bucket_param ps = Inr b \<and> task es (map_operation op) b k src t)"
    using law by (cases "bucket_param ps") (fastforce simp: published_def task_def per_backend_tasks_def)+
qed

end
