(* ===== verification/Write_Strategies.thy ===== *)
theory Write_Strategies
  imports Replication_Manager
begin

text \<open>
  The read and write strategies of the default configuration: \<open>src/s3mer/backends/strategies.py\<close>,
  with the choice of the replication manager made in \<open>src/s3mer/app.py\<close>.

  A request's \<open>Body\<close> is carried beside its other parameters, because the attempts of one write
  share it and change it.  The body of a request is absent, \<open>None\<close>, bytes, or an \<open>AsyncIterator\<close>
  (\<open>BodyStream\<close>), which the write strategy wraps in a \<open>BufferedStreamReader\<close>.
\<close>

section \<open>Choice of the replication manager\<close>

datatype ReplicationMode = BATCH | PER_BACKEND

definition schedule_replication ::
  "'w services \<Rightarrow> ReplicationMode \<Rightarrow> string \<Rightarrow> S3Operation \<Rightarrow> pdict \<Rightarrow> pdict \<Rightarrow> string \<Rightarrow> string list \<Rightarrow> 'w world \<Rightarrow> pyexc option \<times> 'w world" where
  "schedule_replication E mode topic =
     (if mode = PER_BACKEND then per_backend_schedule E topic else batch_schedule E topic)"

interpretation repl: replication_scheduler "schedule_replication E mode topic" for E mode topic
  by (simp add: schedule_replication_def batch.replication_scheduler_axioms per_backend.replication_scheduler_axioms)

section \<open>ReadFallbackStrategy\<close>

fun read_loop ::
  "'w services \<Rightarrow> S3Operation \<Rightarrow> pdict \<Rightarrow> BackendClient list \<Rightarrow> pyexc option \<Rightarrow> 'w world \<Rightarrow> (pyexc + pdict) \<times> 'w world" where
  "read_loop E op ps [] last_error w =
     (case last_error of None \<Rightarrow> Inl (PyRuntimeError ''No backends configured'') | Some e \<Rightarrow> Inl e, w)"
| "read_loop E op ps (c # cs) last_error w =
     (case execute E c op ps BodyAbsent w of
        (Inr response, _, w) \<Rightarrow> (Inr response, w)
      | (Inl exc, _, w) \<Rightarrow> read_loop E op ps cs (Some exc) w)"

definition read_execute ::
  "'w services \<Rightarrow> S3Operation \<Rightarrow> BackendPool \<Rightarrow> pdict \<Rightarrow> 'w world \<Rightarrow> (pyexc + pdict) \<times> 'w world" where
  "read_execute E op pool ps w =
     (case all_by_latency pool w of
        (Inl e, w) \<Rightarrow> (Inl e, w)
      | (Inr backends, w) \<Rightarrow> read_loop E op ps backends None w)"

section \<open>WritePrimaryReplicationStrategy\<close>

text \<open>How the loop over the candidates ends.\<close>

datatype loop_result =
    Raised pyexc
  | Exhausted "pyexc option" \<comment> \<open>no candidate left; the last error\<close>
  | Succeeded BackendClient pdict

fun rewind_body :: "body \<Rightarrow> body" where
  "rewind_body (BodyBuffered r) = BodyBuffered (seek_to_start r)"
| "rewind_body b = b"

fun close_body :: "body \<Rightarrow> body" where
  "close_body (BodyBuffered r) = BodyBuffered (bsr_close r)"
| "close_body b = b"

fun write_loop ::
  "'w services \<Rightarrow> S3Operation \<Rightarrow> pdict \<Rightarrow> bool \<Rightarrow> nat \<Rightarrow> BackendClient list \<Rightarrow> body \<Rightarrow> pyexc option \<Rightarrow> 'w world \<Rightarrow> loop_result \<times> body \<times> 'w world" where
  "write_loop E op ps is_stream i [] b last_error w = (Exhausted last_error, b, w)"
| "write_loop E op ps is_stream i (c # cs) b last_error w =
     (case execute E c op ps (if i > 0 \<and> is_stream then rewind_body b else b) w of
        (Inr response, b, w) \<Rightarrow> (Succeeded c response, b, w)
      | (Inl e, b, w) \<Rightarrow>
          (if classify e = FAIL then (Raised e, b, w)
           else write_loop E op ps is_stream (i + 1) cs b (Some e) w))"

fun wrap_body :: "StreamConfig \<Rightarrow> body \<Rightarrow> body \<times> bool" where
  "wrap_body cfg (BodyStream chunks) = (BodyBuffered (new_buffered chunks cfg), True)"
| "wrap_body cfg b = (b, False)"

definition replication_targets :: "BackendPool \<Rightarrow> string \<Rightarrow> string list" where
  "replication_targets pool src = map bc_name (filter (\<lambda>b. bc_name b \<noteq> src) (clients pool))"

definition write_execute ::
  "'w services \<Rightarrow> ReplicationMode \<Rightarrow> string \<Rightarrow> StreamConfig \<Rightarrow> S3Operation \<Rightarrow> BackendPool \<Rightarrow> pdict \<Rightarrow> body \<Rightarrow> bool \<Rightarrow> 'w world \<Rightarrow> (pyexc + pdict) \<times> body \<times> 'w world" where
  "write_execute E mode topic cfg op pool ps body repl_on w =
     (case get_write_candidates pool w of
        (Inl e, w) \<Rightarrow> (Inl e, body, w)
      | (Inr candidates, w) \<Rightarrow>
          (let (b, is_stream) = wrap_body cfg body in
           case write_loop E op ps is_stream 0 candidates b None w of
             (Raised e, b, w) \<Rightarrow> (Inl e, b, w)
           | (Exhausted (Some e), b, w) \<Rightarrow> (Inl e, b, w)
           | (Exhausted None, b, w) \<Rightarrow> (Inl (PyRuntimeError ''No backends succeeded for write operation''), b, w)
           | (Succeeded c response, b, w) \<Rightarrow>
               (let b = (if is_stream then close_body b else b);
                  targets = replication_targets pool (bc_name c)
                in if repl_on \<and> targets \<noteq> [] then
                     (case schedule_replication E mode topic op ps response (bc_name c) targets w of
                        (Some e, w) \<Rightarrow> (Inl e, b, w)
                      | (None, w) \<Rightarrow> (Inr response, b, w))
                   else (Inr response, b, w))))"

section \<open>Calls made by the loops\<close>

text \<open>A client that \<open>start\<close> has been called on (an in-memory client is always ready).\<close>

definition ready :: "BackendClient \<Rightarrow> bool" where
  "ready c \<longleftrightarrow> bc_type c = BT_MEMORY \<or> started c"

text \<open>The clients of a pool as attempted in turn, with the bytes each was offered and its answer.\<close>

definition tried :: "S3Operation \<Rightarrow> bytes \<Rightarrow> BackendClient list \<Rightarrow> (pyexc + pdict) list \<Rightarrow> call list" where
  "tried op d cs outs = map2 (\<lambda>c r. (bc_name c, op, d, r)) cs outs"

lemma tried_Cons [simp]: "tried op d (c # cs) (r # rs) = (bc_name c, op, d, r) # tried op d cs rs"
  and tried_Nil [simp]: "tried op d cs [] = []"
  by (simp_all add: tried_def)

lemma execute_call:
  "execute E c op ps b w = (res, b', w') \<Longrightarrow> ready c \<Longrightarrow> extends w w' [(bc_name c, op, body_rest b, res)]"
  using execute_extends [of E c op ps b w res b' w'] by (auto simp: ready_def)

lemma extends_cons: "extends w w' [c] \<Longrightarrow> extends w' w'' cs \<Longrightarrow> extends w w'' (c # cs)"
  using extends_trans by fastforce

lemma candidates_clients:
  assumes "filter_available (p # sort_key f (get_secondaries pool)) w = (cs, w')"
    and "wf_pool pool" and "pool_primary pool = Some p"
  shows "set cs \<subseteq> set (clients pool)"
  using candidates_law [OF assms(2,3,1)] by (metis filter_is_subset mset_filter set_mset_mset)

lemma read_candidates_clients:
  assumes "wf_pool pool" and "all_by_latency pool w = (Inr cs, w')"
  shows "set cs \<subseteq> set (clients pool)" and "extends w w' []"
proof -
  obtain p where p: "pool_primary pool = Some p" using assms(1) by (auto simp: wf_pool_def)
  from assms(2) p have f: "filter_available (p # sort_key (\<lambda>c. (last_latency w (bc_name c), priority c)) (get_secondaries pool)) w = (cs, w')"
    by (auto simp: all_by_latency_def primary_def Let_def simp del: filter_available.simps split: prod.splits)
  show "set cs \<subseteq> set (clients pool)" by (rule candidates_clients [OF f assms(1) p])
  show "extends w w' []" using filter_available_extends [of w] f by (metis snd_conv)
qed

lemma write_candidates_clients:
  assumes "wf_pool pool" and "get_write_candidates pool w = (Inr cs, w')"
  shows "set cs \<subseteq> set (clients pool)" and "extends w w' []"
proof -
  obtain p where p: "pool_primary pool = Some p" using assms(1) by (auto simp: wf_pool_def)
  from assms(2) p have f: "filter_available (p # sort_key priority (get_secondaries pool)) w = (cs, w')"
    by (auto simp: get_write_candidates_def primary_def Let_def simp del: filter_available.simps split: prod.splits)
  show "set cs \<subseteq> set (clients pool)" by (rule candidates_clients [OF f assms(1) p])
  show "extends w w' []" using filter_available_extends [of w] f by (metis snd_conv)
qed

text \<open>A read: every candidate in turn until one answers.\<close>

definition read_outcome :: "BackendClient list \<Rightarrow> pyexc option \<Rightarrow> pyexc + pdict \<Rightarrow> (pyexc + pdict) list \<Rightarrow> bool" where
  "read_outcome cs last_error res outs \<longleftrightarrow> (\<exists>errs. case res of
      Inr r \<Rightarrow> outs = map Inl errs @ [Inr r] \<and> length outs \<le> length cs
    | Inl e \<Rightarrow> outs = map Inl errs \<and> length outs = length cs \<and>
        e = (if errs \<noteq> [] then last errs
             else case last_error of None \<Rightarrow> PyRuntimeError ''No backends configured'' | Some e \<Rightarrow> e))"

lemma read_loop_calls:
  assumes "\<forall>c \<in> set cs. ready c" and "read_loop E op ps cs le w = (res, w')"
  shows "\<exists>outs. extends w w' (tried op [] cs outs) \<and> read_outcome cs le res outs"
  using assms
proof (induction cs arbitrary: le w)
  case Nil
  then show ?case by (auto simp: read_outcome_def intro!: exI [of _ "[]"] split: option.splits)
next
  case (Cons c cs)
  obtain r b w1 where x: "execute E c op ps BodyAbsent w = (r, b, w1)" by (metis prod_cases3)
  have one: "extends w w1 [(bc_name c, op, [], r)]" using execute_call [OF x] Cons.prems by simp
  show ?case
  proof (cases r)
    case (Inr resp)
    then show ?thesis using Cons.prems x one
      by (auto simp: read_outcome_def intro!: exI [of _ "[Inr resp]"])
  next
    case (Inl e)
    then have "read_loop E op ps cs (Some e) w1 = (res, w')" using Cons.prems x by simp
    with Cons.IH Cons.prems obtain outs where outs: "extends w1 w' (tried op [] cs outs)" "read_outcome cs (Some e) res outs"
      by (metis list.set_intros(2))
    from outs(2) obtain errs where "case res of
        Inr r \<Rightarrow> outs = map Inl errs @ [Inr r] \<and> length outs \<le> length cs
      | Inl e' \<Rightarrow> outs = map Inl errs \<and> length outs = length cs \<and> e' = (if errs \<noteq> [] then last errs else e)"
      unfolding read_outcome_def option.case by blast
    then have "read_outcome (c # cs) le res (Inl e # outs)"
      unfolding read_outcome_def by (intro exI [of _ "e # errs"]) (auto split: sum.splits)
    moreover have "extends w w' (tried op [] (c # cs) (Inl e # outs))"
      using extends_cons [OF one outs(1)] Inl by simp
    ultimately show ?thesis by blast
  qed
qed

text \<open>
  C22. Reads fall back.  A read asks the admitted backends in candidate order, one call each, and
  stops at the first answer, which is the result.  It fails only after every candidate has failed,
  and then with the error of the last one; with no candidate at all it makes no call and reports that.
\<close>

theorem read_fallback:
  assumes "wf_pool pool" and "\<forall>c \<in> set (clients pool). ready c"
    and "all_by_latency pool w = (Inr cs, w0)" and "read_execute E op pool ps w = (res, w')"
  shows "\<exists>outs. extends w w' (tried op [] cs outs) \<and> read_outcome cs None res outs"
proof -
  have "\<forall>c \<in> set cs. ready c" using read_candidates_clients(1) [OF assms(1,3)] assms(2) by auto
  moreover have "read_loop E op ps cs None w0 = (res, w')" using assms(3,4) by (simp add: read_execute_def)
  ultimately obtain outs where "extends w0 w' (tried op [] cs outs)" "read_outcome cs None res outs"
    using read_loop_calls by blast
  then show ?thesis using extends_trans [OF read_candidates_clients(2) [OF assms(1,3)]] by fastforce
qed

section \<open>Calls made by a write\<close>

text \<open>
  What the strategy relies on in the client library: a call reads and rewinds the body stream it is
  given, and does not replace it; bytes are immutable.
\<close>

definition reads_body :: "'w services \<Rightarrow> bool" where
  "reads_body E \<longleftrightarrow> (\<forall>n op ps b x. case b of
      BodyBuffered r \<Rightarrow> \<exists>r'. fst (snd (s3_call E n op ps b x)) = BodyBuffered r' \<and> bsr_reach r r'
    | BodyStream _ \<Rightarrow> True | BodyMem _ \<Rightarrow> True | BodyFile _ \<Rightarrow> True
    | _ \<Rightarrow> fst (snd (s3_call E n op ps b x)) = b)"

text \<open>The bodies a request can have: its stream yields no empty chunk.\<close>

fun request_body :: "body \<Rightarrow> bool" where
  "request_body BodyAbsent = True"
| "request_body BodyNone = True"
| "request_body (BodyBytes _) = True"
| "request_body (BodyStream cs) = ([] \<notin> set cs)"
| "request_body _ = False"

text \<open>A body that offers the bytes \<open>d\<close> to attempt number \<open>i\<close>.\<close>

definition offers :: "bytes \<Rightarrow> bool \<Rightarrow> nat \<Rightarrow> body \<Rightarrow> bool" where
  "offers d is_stream i b \<longleftrightarrow>
     (if is_stream then \<exists>r. b = BodyBuffered r \<and> bsr_inv r \<and> bsr_total r = d \<and> (i = 0 \<longrightarrow> bsr_rest r = d)
      else b \<in> {BodyAbsent, BodyNone} \<union> range BodyBytes \<and> body_rest b = d)"

lemma wrap_body_offers:
  assumes "wrap_body cfg body = (b, is_stream)" and "request_body body" and "sc_chunk_size cfg \<noteq> 0"
  shows "offers (body_rest body) is_stream 0 b"
  using assms new_buffered_inv [of _ cfg]
  by (cases body) (auto simp: offers_def bsr_rest_def new_buffered_def)

lemma offers_rest:
  assumes "offers d is_stream i b"
  shows "body_rest (if i > 0 \<and> is_stream then rewind_body b else b) = d"
  using assms seek_to_start_law by (cases is_stream) (auto simp: offers_def)

lemma execute_body:
  assumes "execute E c op ps b w = (res, b', w')"
  shows "b' = b \<or> (\<exists>x. b' = fst (snd (s3_call E (bc_name c) op ps b x)))"
  using assms
  by (auto simp: execute_def s3_execute_def memory_execute_def Let_def
      split: BackendType.splits if_splits prod.splits) (metis fst_conv snd_conv)

lemma offers_after_call:
  assumes "offers d is_stream i b" and "reads_body E"
    and "execute E c op ps (if i > 0 \<and> is_stream then rewind_body b else b) w = (res, b', w')"
  shows "offers d is_stream (Suc i) b'"
proof -
  let ?b = "if i > 0 \<and> is_stream then rewind_body b else b"
  have *: "offers d is_stream (Suc i) ?b"
    using assms(1) seek_to_start_law by (cases is_stream) (auto simp: offers_def)
  from execute_body [OF assms(3)] show ?thesis
  proof
    assume "\<exists>x. b' = fst (snd (s3_call E (bc_name c) op ps ?b x))"
    then obtain x where x: "b' = fst (snd (s3_call E (bc_name c) op ps ?b x))" by blast
    note call = assms(2) [unfolded reads_body_def, rule_format, where n = "bc_name c" and op = op and ps = ps and x = x and b = ?b]
    show ?thesis
    proof (cases is_stream)
      case True
      then obtain r where "?b = BodyBuffered r" "bsr_inv r" "bsr_total r = d" using * by (auto simp: offers_def)
      with call x True bsr_reach_inv [of r] show ?thesis by (auto simp: offers_def)
    next
      case False
      then show ?thesis using * call x by (auto simp: offers_def)
    qed
  qed (use * in simp)
qed

text \<open>How a loop over the candidates can end, by the answers of the attempts it made.\<close>

definition write_outcome :: "BackendClient list \<Rightarrow> pyexc option \<Rightarrow> loop_result \<Rightarrow> (pyexc + pdict) list \<Rightarrow> bool" where
  "write_outcome cs last_error res outs \<longleftrightarrow> (\<exists>errs. (\<forall>e \<in> set errs. classify e \<noteq> FAIL) \<and> (case res of
      Succeeded c r \<Rightarrow> outs = map Inl errs @ [Inr r] \<and> length errs < length cs \<and> c = cs ! length errs
    | Raised e \<Rightarrow> outs = map Inl errs @ [Inl e] \<and> length errs < length cs \<and> classify e = FAIL
    | Exhausted le \<Rightarrow> outs = map Inl errs \<and> length errs = length cs \<and>
        le = (if errs \<noteq> [] then Some (last errs) else last_error)))"

lemma write_outcome_step:
  assumes "write_outcome cs (Some e) res outs" and "classify e \<noteq> FAIL"
  shows "write_outcome (c # cs) le res (Inl e # outs)"
proof -
  from assms obtain errs where "\<forall>e \<in> set errs. classify e \<noteq> FAIL" "case res of
      Succeeded c r \<Rightarrow> outs = map Inl errs @ [Inr r] \<and> length errs < length cs \<and> c = cs ! length errs
    | Raised e \<Rightarrow> outs = map Inl errs @ [Inl e] \<and> length errs < length cs \<and> classify e = FAIL
    | Exhausted le \<Rightarrow> outs = map Inl errs \<and> length errs = length cs \<and> le = (if errs \<noteq> [] then Some (last errs) else Some e)"
    unfolding write_outcome_def by blast
  with assms(2) show ?thesis
    unfolding write_outcome_def by (intro exI [of _ "e # errs"]) (auto split: loop_result.splits)
qed

lemma write_outcome_one:
  "write_outcome (c # cs) le (Succeeded c r) [Inr r]"
  "classify e = FAIL \<Longrightarrow> write_outcome (c # cs) le (Raised e) [Inl e]"
  unfolding write_outcome_def by (auto intro: exI [of _ "[]"])

lemma write_loop_calls:
  assumes "\<forall>c \<in> set cs. ready c" and "reads_body E" and "offers d is_stream i b"
    and "write_loop E op ps is_stream i cs b le w = (res, b', w')"
  shows "\<exists>outs. extends w w' (tried op d cs outs) \<and> write_outcome cs le res outs"
  using assms
proof (induction cs arbitrary: i b le w)
  case Nil
  then show ?case by (auto simp: write_outcome_def intro!: exI [of _ "[]"])
next
  case (Cons c cs)
  let ?b = "if i > 0 \<and> is_stream then rewind_body b else b"
  obtain r b1 w1 where x: "execute E c op ps ?b w = (r, b1, w1)" by (metis prod_cases3)
  have one: "extends w w1 [(bc_name c, op, d, r)]"
    using execute_call [OF x] Cons.prems offers_rest [OF Cons.prems(3)] by simp
  consider resp where "r = Inr resp" | e where "r = Inl e" "classify e = FAIL" | e where "r = Inl e" "classify e \<noteq> FAIL"
    by (cases r) auto
  then show ?case
  proof cases
    case 1
    then show ?thesis using Cons.prems(4) x one write_outcome_one(1)
      by (intro exI [of _ "[Inr resp]"]) auto
  next
    case 2
    then show ?thesis using Cons.prems(4) x one write_outcome_one(2)
      by (intro exI [of _ "[Inl e]"]) auto
  next
    case 3
    then have "write_loop E op ps is_stream (Suc i) cs b1 (Some e) w1 = (res, b', w')" using Cons.prems(4) x by simp
    from Cons.IH [OF _ Cons.prems(2) offers_after_call [OF Cons.prems(3,2) x] this] Cons.prems(1)
    obtain outs where "extends w1 w' (tried op d cs outs)" "write_outcome cs (Some e) res outs" by auto
    then show ?thesis using extends_cons [OF one] write_outcome_step [OF _ 3(2)] 3(1)
      by (intro exI [of _ "Inl e # outs"]) auto
  qed
qed

text \<open>A write, up to the point where its loop has ended, and what it does from there.\<close>

definition write_end ::
  "'w services \<Rightarrow> ReplicationMode \<Rightarrow> string \<Rightarrow> S3Operation \<Rightarrow> BackendPool \<Rightarrow> pdict \<Rightarrow> bool \<Rightarrow> loop_result \<Rightarrow> 'w world \<Rightarrow> (pyexc + pdict) \<times> 'w world" where
  "write_end E mode topic op pool ps repl_on lr w =
     (case lr of
        Raised e \<Rightarrow> (Inl e, w)
      | Exhausted (Some e) \<Rightarrow> (Inl e, w)
      | Exhausted None \<Rightarrow> (Inl (PyRuntimeError ''No backends succeeded for write operation''), w)
      | Succeeded c r \<Rightarrow>
          if repl_on \<and> replication_targets pool (bc_name c) \<noteq> [] then
            (case schedule_replication E mode topic op ps r (bc_name c) (replication_targets pool (bc_name c)) w of
               (Some e, w) \<Rightarrow> (Inl e, w) | (None, w) \<Rightarrow> (Inr r, w))
          else (Inr r, w))"

lemma write_execute_law:
  assumes "wf_pool pool" and "\<forall>c \<in> set (clients pool). ready c" and "reads_body E"
    and "request_body body" and "sc_chunk_size cfg \<noteq> 0"
    and "get_write_candidates pool w = (Inr cs, w0)"
    and "write_execute E mode topic cfg op pool ps body repl_on w = (res, b', w')"
  shows "\<exists>outs lr w1. extends w w1 (tried op (body_rest body) cs outs) \<and> write_outcome cs None lr outs \<and>
    write_end E mode topic op pool ps repl_on lr w1 = (res, w')"
proof -
  obtain b is_stream where b: "wrap_body cfg body = (b, is_stream)" by force
  obtain lr b1 w1 where l: "write_loop E op ps is_stream 0 cs b None w0 = (lr, b1, w1)" by (metis prod_cases3)
  have "\<forall>c \<in> set cs. ready c" using write_candidates_clients(1) [OF assms(1,6)] assms(2) by auto
  from write_loop_calls [OF this assms(3) wrap_body_offers [OF b assms(4,5)] l]
  obtain outs where o: "extends w0 w1 (tried op (body_rest body) cs outs)" "write_outcome cs None lr outs" by blast
  have "write_end E mode topic op pool ps repl_on lr w1 = (res, w')"
    using assms(6,7) b l
    by (auto simp: write_execute_def write_end_def Let_def split: loop_result.splits option.splits if_splits prod.splits)
  with o extends_trans [OF write_candidates_clients(2) [OF assms(1,6)] o(1)] show ?thesis by auto
qed

lemma write_end_quiet:
  assumes "write_end E mode topic op pool ps repl_on lr w1 = (res, w')"
  shows "published w1 w' (\<lambda>_. True)"
proof (cases lr)
  case (Succeeded c r)
  then show ?thesis
    using assms repl.schedule_quiet [of w1 E mode topic op ps r "bc_name c" "replication_targets pool (bc_name c)"]
    by (auto simp: write_end_def published_refl split: if_splits prod.splits option.splits)
qed (use assms in \<open>auto simp: write_end_def published_refl split: option.splits\<close>)

text \<open>
  C5. Writes fall back, and stop where they must.  A write tries the admitted backends in candidate
  order, one call each, every one of them offered the complete request body.  It goes on to the next
  backend exactly when an attempt failed with an error that is not classified \<open>FAIL\<close>; it returns the
  first successful response; a \<open>FAIL\<close> error is raised at once, and otherwise the error of the last
  backend is raised after all have been tried.  The only other error is a failure to publish the
  replication tasks after a backend has accepted the write.
\<close>

theorem write_fallback:
  assumes "wf_pool pool" and "\<forall>c \<in> set (clients pool). ready c" and "reads_body E"
    and "request_body body" and "sc_chunk_size cfg \<noteq> 0"
    and "get_write_candidates pool w = (Inr cs, w0)"
    and "write_execute E mode topic cfg op pool ps body repl_on w = (res, b', w')"
  shows "\<exists>es outs errs. trace w' = trace w @ es \<and> calls_of es = tried op (body_rest body) cs outs \<and>
    (\<forall>e \<in> set errs. classify e \<noteq> FAIL) \<and> length outs \<le> length cs \<and>
    (case res of
       Inr r \<Rightarrow> outs = map Inl errs @ [Inr r]
     | Inl e \<Rightarrow> outs = map Inl errs @ [Inl e] \<and> classify e = FAIL
         \<or> outs = map Inl errs \<and> length errs = length cs \<and>
             e = (if cs = [] then PyRuntimeError ''No backends succeeded for write operation'' else last errs)
         \<or> repl_on \<and> (\<exists>r. outs = map Inl errs @ [Inr r]))"
proof -
  obtain outs lr w1 where law: "extends w w1 (tried op (body_rest body) cs outs)" "write_outcome cs None lr outs"
    "write_end E mode topic op pool ps repl_on lr w1 = (res, w')"
    using write_execute_law [OF assms] by blast
  obtain es where es: "trace w' = trace w @ es" "calls_of es = tried op (body_rest body) cs outs"
    using law(1) write_end_quiet [OF law(3)] by (fastforce simp: extends_def published_def)
  obtain errs where errs: "\<forall>e \<in> set errs. classify e \<noteq> FAIL" "case lr of
      Succeeded c r \<Rightarrow> outs = map Inl errs @ [Inr r] \<and> length errs < length cs \<and> c = cs ! length errs
    | Raised e \<Rightarrow> outs = map Inl errs @ [Inl e] \<and> length errs < length cs \<and> classify e = FAIL
    | Exhausted le \<Rightarrow> outs = map Inl errs \<and> length errs = length cs \<and> le = (if errs \<noteq> [] then Some (last errs) else None)"
    using law(2) unfolding write_outcome_def by blast
  show ?thesis
    by (intro exI [of _ es] exI [of _ outs] exI [of _ errs])
      (use es errs law(3) in \<open>auto simp: write_end_def split: loop_result.splits option.splits sum.splits if_splits prod.splits\<close>)
qed

lemma tried_last:
  assumes "outs = map Inl errs @ [Inr r]" and "length errs < length cs" and "c = cs ! length errs"
  shows "tried op d cs outs \<noteq> [] \<and> last (tried op d cs outs) = (bc_name c, op, d, Inr r)"
proof -
  have cs: "cs = take (length errs) cs @ cs ! length errs # drop (Suc (length errs)) cs"
    using assms(2) by (rule id_take_nth_drop)
  show ?thesis unfolding tried_def assms(1,3) by (subst (1 2) cs) (use assms(2) in simp)
qed

text \<open>What an acknowledged write has brought about: the effects \<open>es\<close>, seen from the response \<open>resp\<close>.\<close>

definition replicated_everywhere :: "BackendPool \<Rightarrow> S3Operation \<Rightarrow> pdict \<Rightarrow> bytes \<Rightarrow> pdict \<Rightarrow> event list \<Rightarrow> bool" where
  "replicated_everywhere pool op ps d resp es \<longleftrightarrow>
     (\<exists>src \<in> set (clients pool). calls_of es \<noteq> [] \<and> last (calls_of es) = (bc_name src, op, d, Inr resp) \<and>
       (\<forall>c \<in> set (clients pool). bc_name c \<noteq> bc_name src \<longrightarrow>
         (\<exists>keys. extract_keys op ps resp = Inr keys \<and> (\<forall>k \<in> set keys. \<exists>b. bucket_param ps = Inr b \<and>
            task es (map_operation op) b k (bc_name src) (bc_name c)))))"

lemma acknowledged_write_law:
  assumes "wf_pool pool" and "\<forall>c \<in> set (clients pool). ready c" and "reads_body E"
    and "request_body body" and "sc_chunk_size cfg \<noteq> 0"
    and "get_write_candidates pool w = (Inr cs, w0)"
    and "write_execute E mode topic cfg op pool ps body True w = (Inr resp, b', w')"
  shows "\<exists>src \<in> set (clients pool). \<exists>es. trace w' = trace w @ es \<and>
    calls_of es \<noteq> [] \<and> last (calls_of es) = (bc_name src, op, body_rest body, Inr resp) \<and>
    (\<forall>c \<in> set (clients pool). bc_name c \<noteq> bc_name src \<longrightarrow>
      (\<exists>keys. extract_keys op ps resp = Inr keys \<and> (\<forall>k \<in> set keys. \<exists>b. bucket_param ps = Inr b \<and>
         task es (map_operation op) b k (bc_name src) (bc_name c))))"
proof -
  obtain outs lr w1 where law: "extends w w1 (tried op (body_rest body) cs outs)" "write_outcome cs None lr outs"
    "write_end E mode topic op pool ps True lr w1 = (Inr resp, w')"
    using write_execute_law [OF assms] by blast
  from law(3) obtain src where lr: "lr = Succeeded src resp"
    by (auto simp: write_end_def split: loop_result.splits option.splits if_splits prod.splits)
  from law(2) [unfolded lr write_outcome_def] obtain errs where
    errs: "outs = map Inl errs @ [Inr resp]" "length errs < length cs" "src = cs ! length errs" by auto
  let ?targets = "replication_targets pool (bc_name src)"
  obtain es1 where es1: "trace w1 = trace w @ es1" "calls_of es1 = tried op (body_rest body) cs outs"
    using law(1) by (auto simp: extends_def)
  have last: "calls_of es1 \<noteq> [] \<and> last (calls_of es1) = (bc_name src, op, body_rest body, Inr resp)"
    unfolding es1(2) by (rule tried_last [OF errs])
  have src: "src \<in> set (clients pool)"
    using write_candidates_clients(1) [OF assms(1,6)] errs nth_mem by blast
  show ?thesis
  proof (cases "?targets = []")
    case True
    then have "trace w' = trace w @ es1" using law(3) lr es1(1) by (simp add: write_end_def)
    moreover have "\<forall>c \<in> set (clients pool). bc_name c = bc_name src"
      using True by (auto simp: replication_targets_def filter_empty_conv)
    ultimately show ?thesis using last src by blast
  next
    case False
    then have "schedule_replication E mode topic op ps resp (bc_name src) ?targets w1 = (None, w')"
      using law(3) lr by (auto simp: write_end_def split: prod.splits option.splits)
    from repl.schedule_covers [OF this False] obtain keys es2 where
      k: "extract_keys op ps resp = Inr keys" and es2: "trace w' = trace w1 @ es2" "calls_of es2 = []"
      and t: "\<forall>k \<in> set keys. \<forall>t \<in> set ?targets. \<exists>b. bucket_param ps = Inr b \<and> task es2 (map_operation op) b k (bc_name src) t"
      by (auto simp: published_def)
    have "\<forall>c \<in> set (clients pool). bc_name c \<noteq> bc_name src \<longrightarrow> bc_name c \<in> set ?targets"
      by (auto simp: replication_targets_def)
    with k t have "\<forall>c \<in> set (clients pool). bc_name c \<noteq> bc_name src \<longrightarrow>
      (\<exists>keys. extract_keys op ps resp = Inr keys \<and> (\<forall>k \<in> set keys. \<exists>b. bucket_param ps = Inr b \<and>
         task (es1 @ es2) (map_operation op) b k (bc_name src) (bc_name c)))"
      by (fastforce simp: task_def)
    then show ?thesis using es1(1) es2 last src by (intro bexI [of _ src] exI [of _ "es1 @ es2"]) simp_all
  qed
qed

text \<open>
  C3. Every acknowledged write will reach every backend.  When a write is acknowledged, one backend
  has accepted it with the complete body, that backend made the last call, and for every other
  backend of the pool (whether or not its circuit breaker admitted it) and every key the operation
  concerns, Kafka has accepted a replication task from the accepting backend to it.  This holds in
  both replication modes.
\<close>

theorem acknowledged_write_is_replicated:
  assumes "wf_pool pool" and "\<forall>c \<in> set (clients pool). ready c" and "reads_body E"
    and "request_body body" and "sc_chunk_size cfg \<noteq> 0"
    and "get_write_candidates pool w = (Inr cs, w0)"
    and "write_execute E mode topic cfg op pool ps body True w = (Inr resp, b', w')"
  shows "\<exists>src \<in> set (clients pool). \<exists>es. trace w' = trace w @ es \<and>
    calls_of es \<noteq> [] \<and> last (calls_of es) = (bc_name src, op, body_rest body, Inr resp) \<and>
    (\<forall>c \<in> set (clients pool). bc_name c \<noteq> bc_name src \<longrightarrow>
      (\<exists>keys. extract_keys op ps resp = Inr keys \<and> (\<forall>k \<in> set keys. \<exists>b. bucket_param ps = Inr b \<and>
         task es (map_operation op) b k (bc_name src) (bc_name c))))"
  using acknowledged_write_law [OF assms] .

section \<open>Witnesses\<close>

lemma sample_pool_ready: "\<forall>c \<in> set (clients sample_pool). ready c"
  by (simp add: sample_pool_def new_pool_def make_client_def pool_start_def client_start_def ready_def)

lemma sample_reads_body: "reads_body sample_services"
  using bsr_reach.start by (auto simp: reads_body_def sample_services_def split: body.split)

lemma sample_candidates:
  "\<exists>c1 c2. get_write_candidates sample_pool sample_world = (Inr [sample_primary, c1, c2], sample_world) \<and>
     all_by_latency sample_pool sample_world = (Inr [sample_primary, c1, c2], sample_world)"
  by (simp add: get_write_candidates_def all_by_latency_def primary_def sample_pool_wf get_secondaries_def)
    (simp add: sample_pool_def new_pool_def make_client_def pool_start_def client_start_def sample_world_def sample_primary_def)

theorem read_fallback_witness:
  "\<exists>res w'. read_execute sample_services GET_OBJECT sample_pool [] sample_world = (res, w') \<and>
     (\<exists>cs outs. extends sample_world w' (tried GET_OBJECT [] cs outs) \<and> read_outcome cs None res outs)"
proof -
  obtain c1 c2 where c: "all_by_latency sample_pool sample_world = (Inr [sample_primary, c1, c2], sample_world)"
    using sample_candidates by blast
  obtain res w' where r: "read_execute sample_services GET_OBJECT sample_pool [] sample_world = (res, w')" by force
  from read_fallback [OF sample_pool_wf(1) sample_pool_ready c r] r show ?thesis by blast
qed

definition sample_put :: pdict where
  "sample_put = [(''Bucket'', VStr ''b''), (''Key'', VStr ''k'')]"

abbreviation sample_write :: "ReplicationMode \<Rightarrow> (pyexc + pdict) \<times> body \<times> unit world" where
  "sample_write mode \<equiv> write_execute sample_services mode ''t'' stream_config_defaults PUT_OBJECT sample_pool
     sample_put (BodyStream [''ab'', ''c'']) True sample_world"

lemma sample_write_ok: "fst (sample_write PER_BACKEND) = Inr [(''ETag'', VStr ''e'')]"
  by code_simp

lemma sample_hyps: "request_body (BodyStream [''ab'', ''c''])" "sc_chunk_size stream_config_defaults \<noteq> 0"
  by (simp_all add: stream_config_defaults_def DEFAULT_CHUNK_SIZE_def)

theorem write_fallback_witness:
  "\<exists>res b' w' es. sample_write BATCH = (res, b', w') \<and> trace w' = trace sample_world @ es \<and>
     (\<exists>cs outs. calls_of es = tried PUT_OBJECT ''abc'' cs outs)"
proof -
  obtain c1 c2 where c: "get_write_candidates sample_pool sample_world = (Inr [sample_primary, c1, c2], sample_world)"
    using sample_candidates by blast
  obtain res b' w' where r: "sample_write BATCH = (res, b', w')" by (metis prod_cases3)
  from write_fallback [OF sample_pool_wf(1) sample_pool_ready sample_reads_body sample_hyps c r] r
  show ?thesis by auto
qed

theorem acknowledged_write_is_replicated_witness:
  "\<exists>b' w' es. sample_write PER_BACKEND = (Inr [(''ETag'', VStr ''e'')], b', w') \<and> trace w' = trace sample_world @ es \<and>
     (\<exists>src \<in> set (clients sample_pool). last (calls_of es) = (bc_name src, PUT_OBJECT, ''abc'', Inr [(''ETag'', VStr ''e'')]))"
proof -
  obtain c1 c2 where c: "get_write_candidates sample_pool sample_world = (Inr [sample_primary, c1, c2], sample_world)"
    using sample_candidates by blast
  obtain b' w' where r: "sample_write PER_BACKEND = (Inr [(''ETag'', VStr ''e'')], b', w')"
    using sample_write_ok by (metis prod.collapse)
  from acknowledged_write_is_replicated [OF sample_pool_wf(1) sample_pool_ready sample_reads_body sample_hyps c r] r
  show ?thesis by auto
qed

end
