(* ===== verification/Session_Store.thy ===== *)
theory Session_Store
  imports Errors Decimal
begin

text \<open>
  Multipart upload sessions: \<open>src/s3mer/state/protocol.py\<close> (the session and the store interface),
  \<open>src/s3mer/state/memory.py\<close> and \<open>src/s3mer/state/valkey_store.py\<close>.

  \<open>store_ops\<close> is the \<open>MultipartSessionStore\<close> protocol as a record of operations on a store state;
  the locale \<open>session_store\<close> states its contract over the map from upload ids to sessions that a
  store stands for.  The in-memory store is an interpretation of it, and so is the Valkey store over
  every Redis client that satisfies \<open>redis_client\<close> (a value that has been set is what \<open>get\<close> returns;
  expiry of a key between two operations is a step of the environment and not modelled).
  The text that \<open>json.dumps\<close> writes and \<open>json.loads\<close> reads is represented by the document itself.
\<close>

record MultipartSession =
  ms_bucket :: string
  ms_key :: string
  canonical_upload_id :: string
  backend_upload_ids :: "(string \<times> string) list"
  part_etags :: "(int \<times> (string \<times> string) list) list"

definition new_session :: "string \<Rightarrow> string \<Rightarrow> string \<Rightarrow> MultipartSession" where
  "new_session bucket key upload_id = \<lparr>ms_bucket = bucket, ms_key = key, canonical_upload_id = upload_id,
     backend_upload_ids = [], part_etags = []\<rparr>"

definition unknown_session :: "string \<Rightarrow> pyexc" where
  "unknown_session upload_id = PyKeyError (''Unknown multipart session: '' @ upload_id)"

record 's store_ops =
  create_session :: "string \<Rightarrow> string \<Rightarrow> string \<Rightarrow> 's \<Rightarrow> (pyexc + MultipartSession) \<times> 's"
  get_session :: "string \<Rightarrow> 's \<Rightarrow> pyexc + MultipartSession option"
  set_backend_upload_ids :: "string \<Rightarrow> (string \<times> string) list \<Rightarrow> 's \<Rightarrow> pyexc option \<times> 's"
  record_part_etags :: "string \<Rightarrow> int \<Rightarrow> (string \<times> string) list \<Rightarrow> 's \<Rightarrow> pyexc option \<times> 's"
  delete_session :: "string \<Rightarrow> 's \<Rightarrow> pyexc option \<times> 's"

section \<open>The contract of a store\<close>

locale session_store =
  fixes S :: "'s store_ops" and sessions :: "'s \<Rightarrow> string \<Rightarrow> MultipartSession option" and inv :: "'s \<Rightarrow> bool"
  assumes create_law: "inv s \<Longrightarrow> \<exists>s'. create_session S b k u s = (Inr (new_session b k u), s') \<and> inv s' \<and>
      sessions s' = (sessions s)(u \<mapsto> new_session b k u)"
    and get_law: "inv s \<Longrightarrow> get_session S u s = Inr (sessions s u)"
    and set_ids_known: "inv s \<Longrightarrow> sessions s u = Some m \<Longrightarrow> distinct (map fst ids) \<Longrightarrow>
      \<exists>s'. set_backend_upload_ids S u ids s = (None, s') \<and> inv s' \<and> sessions s' = (sessions s)(u \<mapsto> m\<lparr>backend_upload_ids := ids\<rparr>)"
    and set_ids_unknown: "inv s \<Longrightarrow> sessions s u = None \<Longrightarrow> set_backend_upload_ids S u ids s = (Some (unknown_session u), s)"
    and record_etags_known: "inv s \<Longrightarrow> sessions s u = Some m \<Longrightarrow> distinct (map fst etags) \<Longrightarrow>
      \<exists>s'. record_part_etags S u n etags s = (None, s') \<and> inv s' \<and>
        sessions s' = (sessions s)(u \<mapsto> m\<lparr>part_etags := AList.update n etags (part_etags m)\<rparr>)"
    and record_etags_unknown: "inv s \<Longrightarrow> sessions s u = None \<Longrightarrow> record_part_etags S u n etags s = (Some (unknown_session u), s)"
    and delete_law: "inv s \<Longrightarrow> \<exists>s'. delete_session S u s = (None, s') \<and> inv s' \<and> sessions s' = (sessions s)(u := None)"
begin

text \<open>What one proxy process wrote about an upload is what another one reads back.\<close>

lemma upload_recorded:
  assumes "inv s" and "distinct (map fst ids)" and "distinct (map fst etags)"
  shows "\<exists>s1 s2 s3. create_session S b k u s = (Inr (new_session b k u), s1) \<and>
    set_backend_upload_ids S u ids s1 = (None, s2) \<and> record_part_etags S u n etags s2 = (None, s3) \<and> inv s3 \<and>
    (\<exists>m. get_session S u s3 = Inr (Some m) \<and> canonical_upload_id m = u \<and> backend_upload_ids m = ids \<and>
       map_of (part_etags m) n = Some etags) \<and>
    (\<forall>v. v \<noteq> u \<longrightarrow> get_session S v s3 = get_session S v s)"
proof -
  obtain s1 where s1: "create_session S b k u s = (Inr (new_session b k u), s1)" "inv s1"
    "sessions s1 = (sessions s)(u \<mapsto> new_session b k u)" using create_law [OF assms(1)] by blast
  then obtain s2 where s2: "set_backend_upload_ids S u ids s1 = (None, s2)" "inv s2"
    "sessions s2 = (sessions s1)(u \<mapsto> (new_session b k u)\<lparr>backend_upload_ids := ids\<rparr>)"
    using set_ids_known [OF s1(2) _ assms(2)] by (metis fun_upd_same)
  then obtain s3 where s3: "record_part_etags S u n etags s2 = (None, s3)" "inv s3"
    "sessions s3 = (sessions s2)(u \<mapsto> (new_session b k u)\<lparr>backend_upload_ids := ids, part_etags := AList.update n etags []\<rparr>)"
    using record_etags_known [OF s2(2) _ assms(3), of u] by (fastforce simp: new_session_def)
  have "get_session S v s3 = Inr (sessions s3 v)" "get_session S v s = Inr (sessions s v)" for v
    using get_law s3(2) assms(1) by blast+
  then show ?thesis using s1 s2 s3 by (simp add: new_session_def)
qed

lemma deleted_session_unknown:
  assumes "inv s"
  shows "\<exists>s'. delete_session S u s = (None, s') \<and> get_session S u s' = Inr None \<and>
    (\<forall>v. v \<noteq> u \<longrightarrow> get_session S v s' = get_session S v s) \<and>
    record_part_etags S u n etags s' = (Some (unknown_session u), s')"
proof -
  obtain s' where "delete_session S u s = (None, s')" "inv s'" "sessions s' = (sessions s)(u := None)"
    using delete_law [OF assms] by blast
  then show ?thesis using get_law assms record_etags_unknown by auto
qed

end

section \<open>MemoryMultipartSessionStore\<close>

type_synonym memory_sessions = "(string \<times> MultipartSession) list"

definition memory_create_session where
  "memory_create_session bucket key u (d :: memory_sessions) =
     (let session = new_session bucket key u
      in (Inr session :: pyexc + MultipartSession, AList.update u session d))"

definition memory_get_session where
  "memory_get_session u (d :: memory_sessions) = (Inr (map_of d u) :: pyexc + MultipartSession option)"

definition memory_set_backend_upload_ids where
  "memory_set_backend_upload_ids u ids (d :: memory_sessions) =
     (case map_of d u of
        None \<Rightarrow> (Some (unknown_session u), d)
      | Some session \<Rightarrow> (None, AList.update u (session\<lparr>backend_upload_ids := ids\<rparr>) d))"

definition memory_record_part_etags where
  "memory_record_part_etags u part_number etags (d :: memory_sessions) =
     (case map_of d u of
        None \<Rightarrow> (Some (unknown_session u), d)
      | Some session \<Rightarrow>
          (None, AList.update u (session\<lparr>part_etags := AList.update part_number etags (part_etags session)\<rparr>) d))"

definition memory_delete_session where
  "memory_delete_session u (d :: memory_sessions) = (None :: pyexc option, AList.delete u d)"

definition memory_session_store :: "memory_sessions store_ops" where
  "memory_session_store = \<lparr>create_session = memory_create_session, get_session = memory_get_session,
     set_backend_upload_ids = memory_set_backend_upload_ids, record_part_etags = memory_record_part_etags,
     delete_session = memory_delete_session\<rparr>"

lemmas memory_session_defs = memory_session_store_def memory_create_session_def memory_get_session_def
  memory_set_backend_upload_ids_def memory_record_part_etags_def memory_delete_session_def

interpretation mem_sessions: session_store memory_session_store map_of "\<lambda>_. True"
  by unfold_locales (auto simp: memory_session_defs Let_def update_conv' delete_conv')

section \<open>ValkeyMultipartSessionStore\<close>

datatype json = JStr string | JObj "(string \<times> json) list"

definition jstrs :: "(string \<times> string) list \<Rightarrow> json" where
  "jstrs d = JObj (map (\<lambda>(k, v). (k, JStr v)) d)"

definition serialize :: "MultipartSession \<Rightarrow> json" where
  "serialize m = JObj
     [(''bucket'', JStr (ms_bucket m)), (''key'', JStr (ms_key m)),
      (''canonical_upload_id'', JStr (canonical_upload_id m)),
      (''backend_upload_ids'', jstrs (backend_upload_ids m)),
      (''part_etags'', JObj (py_dict (map (\<lambda>(k, v). (py_str k, jstrs v)) (part_etags m))))]"

fun json_str :: "json \<Rightarrow> pyexc + string" where
  "json_str (JStr s) = Inr s"
| "json_str (JObj d) = Inl (PyTypeError ''str'')"

fun json_items :: "json \<Rightarrow> pyexc + (string \<times> json) list" where
  "json_items (JObj d) = Inr d"
| "json_items (JStr s) = Inl (PyAttributeError ''items'')"

fun json_strs :: "(string \<times> json) list \<Rightarrow> pyexc + (string \<times> string) list" where
  "json_strs [] = Inr []"
| "json_strs ((k, v) # d) = ebind (json_str v) (\<lambda>s. ebind (json_strs d) (\<lambda>r. Inr ((k, s) # r)))"

definition json_field :: "(string \<times> json) list \<Rightarrow> string \<Rightarrow> pyexc + string" where
  "json_field d k = (case map_of d k of None \<Rightarrow> Inl (PyKeyError k) | Some v \<Rightarrow> json_str v)"

fun json_parts :: "(string \<times> json) list \<Rightarrow> pyexc + (int \<times> (string \<times> string) list) list" where
  "json_parts [] = Inr []"
| "json_parts ((p, v) # d) =
     (case py_int p of
        None \<Rightarrow> Inl (PyValueError p)
      | Some n \<Rightarrow> ebind (json_items v) (\<lambda>es. ebind (json_strs es) (\<lambda>etags.
          ebind (json_parts d) (\<lambda>r. Inr ((n, etags) # r)))))"

definition deserialize :: "json \<Rightarrow> pyexc + MultipartSession" where
  "deserialize payload =
     ebind (json_items payload) (\<lambda>data.
     ebind (json_items (get_default data ''part_etags'' (JObj []))) (\<lambda>items.
     ebind (json_parts items) (\<lambda>parts.
     ebind (json_field data ''bucket'') (\<lambda>bucket.
     ebind (json_field data ''key'') (\<lambda>key.
     ebind (json_field data ''canonical_upload_id'') (\<lambda>u.
     ebind (json_items (get_default data ''backend_upload_ids'' (JObj []))) (\<lambda>ids.
     ebind (json_strs ids) (\<lambda>ids.
       Inr \<lparr>ms_bucket = bucket, ms_key = key, canonical_upload_id = u, backend_upload_ids = ids,
            part_etags = py_dict parts\<rparr>))))))))"

record ValkeyConfig =
  session_ttl_seconds :: int
  key_prefix :: string

text \<open>The Redis client library: \<open>set\<close>, \<open>get\<close> and \<open>delete\<close> on the state of the server.\<close>

record 'r redis =
  redis_set :: "string \<Rightarrow> json \<Rightarrow> int \<Rightarrow> 'r \<Rightarrow> 'r"
  redis_get :: "string \<Rightarrow> 'r \<Rightarrow> json option"
  redis_delete :: "string \<Rightarrow> 'r \<Rightarrow> 'r"

record 'r valkey_store =
  vk_started :: bool
  vk_server :: 'r

definition vk_start :: "'r valkey_store \<Rightarrow> 'r valkey_store" where
  "vk_start s = s\<lparr>vk_started := True\<rparr>"

definition vk_close :: "'r valkey_store \<Rightarrow> 'r valkey_store" where
  "vk_close s = s\<lparr>vk_started := False\<rparr>"

definition not_started :: pyexc where
  "not_started = PyRuntimeError ''ValkeyMultipartSessionStore not started''"

definition vk_key :: "ValkeyConfig \<Rightarrow> string \<Rightarrow> string" where
  "vk_key cfg u = key_prefix cfg @ u"

definition vk_save :: "'r redis \<Rightarrow> ValkeyConfig \<Rightarrow> MultipartSession \<Rightarrow> 'r valkey_store \<Rightarrow> pyexc option \<times> 'r valkey_store" where
  "vk_save R cfg m s =
     (if \<not> vk_started s then (Some not_started, s)
      else (None, s\<lparr>vk_server := redis_set R (vk_key cfg (canonical_upload_id m)) (serialize m) (session_ttl_seconds cfg) (vk_server s)\<rparr>))"

definition vk_create_session where
  "vk_create_session R cfg bucket key u s =
     (let session = new_session bucket key u in
      case vk_save R cfg session s of (Some e, s) \<Rightarrow> (Inl e, s) | (None, s) \<Rightarrow> (Inr session, s))"

definition vk_get_session where
  "vk_get_session R cfg u s =
     (if \<not> vk_started s then Inl not_started
      else case redis_get R (vk_key cfg u) (vk_server s) of
          None \<Rightarrow> Inr None
        | Some payload \<Rightarrow> ebind (deserialize payload) (\<lambda>m. Inr (Some m)))"

definition vk_set_backend_upload_ids where
  "vk_set_backend_upload_ids R cfg u ids s =
     (case vk_get_session R cfg u s of
        Inl e \<Rightarrow> (Some e, s)
      | Inr None \<Rightarrow> (Some (unknown_session u), s)
      | Inr (Some session) \<Rightarrow> vk_save R cfg (session\<lparr>backend_upload_ids := ids\<rparr>) s)"

definition vk_record_part_etags where
  "vk_record_part_etags R cfg u part_number etags s =
     (case vk_get_session R cfg u s of
        Inl e \<Rightarrow> (Some e, s)
      | Inr None \<Rightarrow> (Some (unknown_session u), s)
      | Inr (Some session) \<Rightarrow>
          vk_save R cfg (session\<lparr>part_etags := AList.update part_number etags (part_etags session)\<rparr>) s)"

definition vk_delete_session where
  "vk_delete_session R cfg u s =
     (if \<not> vk_started s then (Some not_started, s)
      else (None, s\<lparr>vk_server := redis_delete R (vk_key cfg u) (vk_server s)\<rparr>))"

definition valkey_session_store :: "'r redis \<Rightarrow> ValkeyConfig \<Rightarrow> 'r valkey_store store_ops" where
  "valkey_session_store R cfg = \<lparr>create_session = vk_create_session R cfg, get_session = vk_get_session R cfg,
     set_backend_upload_ids = vk_set_backend_upload_ids R cfg, record_part_etags = vk_record_part_etags R cfg,
     delete_session = vk_delete_session R cfg\<rparr>"

subsection \<open>Serialisation is invertible\<close>

definition wf_session :: "MultipartSession \<Rightarrow> bool" where
  "wf_session m \<longleftrightarrow> distinct (map fst (part_etags m))"

lemma json_strs_jstrs [simp]: "json_strs (map (\<lambda>(k, v). (k, JStr v)) d) = Inr d"
  by (induction d) auto

lemma json_parts_roundtrip: "json_parts (map (\<lambda>(k, v). (py_str k, jstrs v)) ps) = Inr ps"
  by (induction ps) (auto simp: jstrs_def)

lemma deserialize_serialize:
  assumes "wf_session m"
  shows "deserialize (serialize m) = Inr m"
proof -
  let ?ps = "map (\<lambda>(k, v). (py_str k, jstrs v)) (part_etags m)"
  have "map fst ?ps = map py_str (map fst (part_etags m))" by auto
  then have "distinct (map fst ?ps)"
    using assms py_str_inj by (simp add: wf_session_def distinct_map inj_on_def)
  then have "py_dict ?ps = ?ps" by (rule py_dict_distinct)
  then show ?thesis using assms
    by (simp add: deserialize_def serialize_def get_default_def json_field_def jstrs_def json_parts_roundtrip [unfolded jstrs_def]
        wf_session_def py_dict_distinct)
qed

subsection \<open>The Valkey store meets the contract over every Redis client\<close>

definition vk_sessions :: "'r redis \<Rightarrow> ValkeyConfig \<Rightarrow> 'r valkey_store \<Rightarrow> string \<Rightarrow> MultipartSession option" where
  "vk_sessions R cfg s u =
     (case redis_get R (vk_key cfg u) (vk_server s) of
        None \<Rightarrow> None | Some j \<Rightarrow> (case deserialize j of Inl _ \<Rightarrow> None | Inr m \<Rightarrow> Some m))"

text \<open>The store is started, and what is kept under an upload id is a session of that id.\<close>

definition vk_inv :: "'r redis \<Rightarrow> ValkeyConfig \<Rightarrow> 'r valkey_store \<Rightarrow> bool" where
  "vk_inv R cfg s \<longleftrightarrow> vk_started s \<and> (\<forall>u j. redis_get R (vk_key cfg u) (vk_server s) = Some j \<longrightarrow>
     (\<exists>m. j = serialize m \<and> canonical_upload_id m = u \<and> wf_session m))"

locale redis_client =
  fixes R :: "'r redis"
  assumes get_set: "redis_get R k' (redis_set R k v ttl r) = (if k' = k then Some v else redis_get R k' r)"
    and get_delete: "redis_get R k' (redis_delete R k r) = (if k' = k then None else redis_get R k' r)"
begin

lemma vk_key_inj [simp]: "vk_key cfg u = vk_key cfg v \<longleftrightarrow> u = v"
  by (simp add: vk_key_def)

lemma save_law:
  assumes "vk_inv R cfg s" and "wf_session m"
  shows "\<exists>s'. vk_save R cfg m s = (None, s') \<and> vk_inv R cfg s' \<and>
    vk_sessions R cfg s' = (vk_sessions R cfg s)(canonical_upload_id m \<mapsto> m)"
  using assms deserialize_serialize [OF assms(2)]
  by (auto simp: vk_save_def vk_inv_def vk_sessions_def fun_eq_iff get_set)

lemma get_session_law:
  assumes "vk_inv R cfg s"
  shows "vk_get_session R cfg u s = Inr (vk_sessions R cfg s u)"
    and "vk_sessions R cfg s u = Some m \<Longrightarrow> canonical_upload_id m = u \<and> wf_session m"
proof -
  have "\<exists>m. j = serialize m \<and> canonical_upload_id m = u \<and> wf_session m \<and> deserialize j = Inr m"
    if "redis_get R (vk_key cfg u) (vk_server s) = Some j" for j
    using assms that deserialize_serialize unfolding vk_inv_def by blast
  then show "vk_get_session R cfg u s = Inr (vk_sessions R cfg s u)"
    "vk_sessions R cfg s u = Some m \<Longrightarrow> canonical_upload_id m = u \<and> wf_session m"
    using assms by (auto simp: vk_get_session_def vk_sessions_def vk_inv_def split: option.splits sum.splits)
qed

lemma update_law:
  assumes "vk_inv R cfg s" and "vk_sessions R cfg s u = Some m" and "canonical_upload_id (f m) = canonical_upload_id m"
    and "wf_session m \<Longrightarrow> wf_session (f m)"
  shows "\<exists>s'. vk_save R cfg (f m) s = (None, s') \<and> vk_inv R cfg s' \<and> vk_sessions R cfg s' = (vk_sessions R cfg s)(u \<mapsto> f m)"
  using save_law [OF assms(1), of "f m"] get_session_law(2) [OF assms(1,2)] assms(3,4) by auto

end

sublocale redis_client \<subseteq> valkey: session_store "valkey_session_store R cfg" "vk_sessions R cfg" "vk_inv R cfg" for cfg
proof unfold_locales
  fix s assume inv: "vk_inv R cfg s"
  note [simp] = valkey_session_store_def
  show "\<exists>s'. create_session (valkey_session_store R cfg) b k u s = (Inr (new_session b k u), s') \<and> vk_inv R cfg s' \<and>
      vk_sessions R cfg s' = (vk_sessions R cfg s)(u \<mapsto> new_session b k u)" for b k u
    using save_law [OF inv, of "new_session b k u"]
    by (auto simp: vk_create_session_def new_session_def wf_session_def)
  show "get_session (valkey_session_store R cfg) u s = Inr (vk_sessions R cfg s u)" for u
    using get_session_law(1) [OF inv] by simp
  show "\<exists>s'. set_backend_upload_ids (valkey_session_store R cfg) u ids s = (None, s') \<and> vk_inv R cfg s' \<and>
      vk_sessions R cfg s' = (vk_sessions R cfg s)(u \<mapsto> m\<lparr>backend_upload_ids := ids\<rparr>)"
    if "vk_sessions R cfg s u = Some m" for u m ids
    using update_law [OF inv that, of "\<lambda>m. m\<lparr>backend_upload_ids := ids\<rparr>"] get_session_law(1) [OF inv] that
    by (simp add: vk_set_backend_upload_ids_def wf_session_def)
  show "set_backend_upload_ids (valkey_session_store R cfg) u ids s = (Some (unknown_session u), s)"
    "record_part_etags (valkey_session_store R cfg) u n etags s = (Some (unknown_session u), s)"
    if "vk_sessions R cfg s u = None" for u ids n etags
    using get_session_law(1) [OF inv] that by (simp_all add: vk_set_backend_upload_ids_def vk_record_part_etags_def)
  show "\<exists>s'. record_part_etags (valkey_session_store R cfg) u n etags s = (None, s') \<and> vk_inv R cfg s' \<and>
      vk_sessions R cfg s' = (vk_sessions R cfg s)(u \<mapsto> m\<lparr>part_etags := AList.update n etags (part_etags m)\<rparr>)"
    if "vk_sessions R cfg s u = Some m" for u m n etags
    using update_law [OF inv that, of "\<lambda>m. m\<lparr>part_etags := AList.update n etags (part_etags m)\<rparr>"] get_session_law(1) [OF inv] that
    by (simp add: vk_record_part_etags_def wf_session_def distinct_update)
  show "\<exists>s'. delete_session (valkey_session_store R cfg) u s = (None, s') \<and> vk_inv R cfg s' \<and>
      vk_sessions R cfg s' = (vk_sessions R cfg s)(u := None)" for u
    using inv by (auto simp: vk_delete_session_def vk_inv_def vk_sessions_def fun_eq_iff get_delete split: if_splits)
qed

context redis_client
begin

lemma session_recorded:
  assumes "vk_inv R cfg s" and "distinct (map fst ids)" and "distinct (map fst etags)"
  shows "\<exists>s1 s2 s3 s4. vk_create_session R cfg b k u s = (Inr (new_session b k u), s1) \<and>
    vk_set_backend_upload_ids R cfg u ids s1 = (None, s2) \<and> vk_record_part_etags R cfg u n etags s2 = (None, s3) \<and>
    (\<exists>m. vk_get_session R cfg u s3 = Inr (Some m) \<and> canonical_upload_id m = u \<and> backend_upload_ids m = ids \<and>
       map_of (part_etags m) n = Some etags) \<and>
    (\<forall>v. v \<noteq> u \<longrightarrow> vk_get_session R cfg v s3 = vk_get_session R cfg v s) \<and>
    vk_delete_session R cfg u s3 = (None, s4) \<and> vk_get_session R cfg u s4 = Inr None \<and>
    vk_record_part_etags R cfg u n etags s4 = (Some (unknown_session u), s4)"
proof -
  note ops = valkey_session_store_def store_ops.simps
  obtain s1 s2 s3 where s: "vk_create_session R cfg b k u s = (Inr (new_session b k u), s1)"
    "vk_set_backend_upload_ids R cfg u ids s1 = (None, s2)" "vk_record_part_etags R cfg u n etags s2 = (None, s3)"
    "vk_inv R cfg s3" "\<exists>m. vk_get_session R cfg u s3 = Inr (Some m) \<and> canonical_upload_id m = u \<and>
       backend_upload_ids m = ids \<and> map_of (part_etags m) n = Some etags"
    "\<forall>v. v \<noteq> u \<longrightarrow> vk_get_session R cfg v s3 = vk_get_session R cfg v s"
    using valkey.upload_recorded [OF assms, of b k u n] unfolding ops by blast
  obtain s4 where "vk_delete_session R cfg u s3 = (None, s4)" "vk_get_session R cfg u s4 = Inr None"
    "vk_record_part_etags R cfg u n etags s4 = (Some (unknown_session u), s4)"
    using valkey.deleted_session_unknown [OF s(4), of u n etags] unfolding ops by blast
  with s show ?thesis by blast
qed

end

text \<open>A Redis server as a dictionary.\<close>

definition dict_redis :: "(string \<times> json) list redis" where
  "dict_redis = \<lparr>redis_set = (\<lambda>k v ttl d. AList.update k v d), redis_get = (\<lambda>k d. map_of d k), redis_delete = AList.delete\<rparr>"

interpretation dict_redis: redis_client dict_redis
  by unfold_locales (simp_all add: dict_redis_def update_conv delete_conv)

text \<open>
  C26. Upload sessions survive the way through Valkey.  Over every Redis client that returns what was
  set, after a session has been created, given its per-backend upload ids and the ETags of a part
  (each stored as JSON with the part number as a string key), reading it yields exactly those ids
  and ETags, and no other session has changed; after it has been deleted it is unknown and recording
  a part for it raises.
\<close>

theorem valkey_session_recorded:
  assumes "redis_client R" and "vk_inv R cfg s" and "distinct (map fst ids)" and "distinct (map fst etags)"
  shows "\<exists>s1 s2 s3 s4. vk_create_session R cfg b k u s = (Inr (new_session b k u), s1) \<and>
    vk_set_backend_upload_ids R cfg u ids s1 = (None, s2) \<and> vk_record_part_etags R cfg u n etags s2 = (None, s3) \<and>
    (\<exists>m. vk_get_session R cfg u s3 = Inr (Some m) \<and> canonical_upload_id m = u \<and> backend_upload_ids m = ids \<and>
       map_of (part_etags m) n = Some etags) \<and>
    (\<forall>v. v \<noteq> u \<longrightarrow> vk_get_session R cfg v s3 = vk_get_session R cfg v s) \<and>
    vk_delete_session R cfg u s3 = (None, s4) \<and> vk_get_session R cfg u s4 = Inr None \<and>
    vk_record_part_etags R cfg u n etags s4 = (Some (unknown_session u), s4)"
  using redis_client.session_recorded [OF assms] .

theorem valkey_session_recorded_witness:
  "\<exists>s1 s2 s3 m.
     vk_create_session dict_redis \<lparr>session_ttl_seconds = 60, key_prefix = ''s3mer:''\<rparr> ''b'' ''k'' ''u''
       \<lparr>vk_started = True, vk_server = []\<rparr> = (Inr (new_session ''b'' ''k'' ''u''), s1) \<and>
     vk_set_backend_upload_ids dict_redis \<lparr>session_ttl_seconds = 60, key_prefix = ''s3mer:''\<rparr> ''u'' [(''p'', ''id1'')] s1 = (None, s2) \<and>
     vk_record_part_etags dict_redis \<lparr>session_ttl_seconds = 60, key_prefix = ''s3mer:''\<rparr> ''u'' 12 [(''p'', ''e'')] s2 = (None, s3) \<and>
     vk_get_session dict_redis \<lparr>session_ttl_seconds = 60, key_prefix = ''s3mer:''\<rparr> ''u'' s3 = Inr (Some m) \<and>
     map_of (part_etags m) 12 = Some [(''p'', ''e'')]"
proof -
  have "vk_inv dict_redis \<lparr>session_ttl_seconds = 60, key_prefix = ''s3mer:''\<rparr> \<lparr>vk_started = True, vk_server = []\<rparr>"
    by (simp add: vk_inv_def dict_redis_def)
  from valkey_session_recorded [OF dict_redis.redis_client_axioms this, of "[(''p'', ''id1'')]" "[(''p'', ''e'')]" "''b''" "''k''" "''u''" 12]
  show ?thesis by auto
qed

end
