(* ===== verification/Multisync.thy ===== *)
theory Multisync
  imports Write_Strategies Session_Store
begin

text \<open>
  The synchronous multi-backend write strategies: \<open>src/s3mer/backends/sync_executor.py\<close> and
  \<open>src/s3mer/backends/multisync_strategies.py\<close>.

  \<open>asyncio.gather\<close> runs the calls of a fan-out concurrently.  A call is one step of the model, and
  the order in which the calls take effect is an argument \<open>sched\<close>: a permutation of the task
  numbers, chosen by the event loop and universally quantified in the theorems.  The results come
  back in the order of the tasks, as \<open>gather\<close> returns them.
\<close>

section \<open>sync\_executor.py\<close>

record SyncExecutionResult =
  successes :: "(BackendClient \<times> pdict) list"
  failures :: "(BackendClient \<times> pyexc) list"

definition MULTIPART_OPERATIONS :: "S3Operation set" where
  "MULTIPART_OPERATIONS = {CREATE_MULTIPART_UPLOAD, UPLOAD_PART, COMPLETE_MULTIPART_UPLOAD, ABORT_MULTIPART_UPLOAD}"

fun get_all :: "BackendPool \<Rightarrow> string list \<Rightarrow> pyexc + BackendClient list" where
  "get_all pool [] = Inr []"
| "get_all pool (n # ns) = ebind (pool_get pool n) (\<lambda>c. ebind (get_all pool ns) (\<lambda>cs. Inr (c # cs)))"

definition resolve_sync_backends :: "BackendPool \<Rightarrow> string list option \<Rightarrow> pyexc + BackendClient list" where
  "resolve_sync_backends pool names =
     (case names of None \<Rightarrow> Inr (clients pool)
      | Some ns \<Rightarrow> if ns = [] then Inr (clients pool) else get_all pool ns)"

definition select_client_response :: "(BackendClient \<times> pdict) list \<Rightarrow> string option \<Rightarrow> pyexc + pdict" where
  "select_client_response succ resp_backend =
     (case succ of
        [] \<Rightarrow> Inl (PyRuntimeError ''No successful backends to select response from'')
      | s # _ \<Rightarrow>
          (case (case resp_backend of None \<Rightarrow> None | Some n \<Rightarrow> List.find (\<lambda>(b, _). bc_name b = n) succ) of
             Some (_, r) \<Rightarrow> Inr r
           | None \<Rightarrow> (case List.find (\<lambda>(b, _). is_primary b) succ of Some (_, r) \<Rightarrow> Inr r | None \<Rightarrow> Inr (snd s))))"

definition quorum_met :: "nat \<Rightarrow> int \<Rightarrow> bool" where
  "quorum_met success_count quorum \<longleftrightarrow> int success_count \<ge> quorum"

definition index_error :: pyexc where
  "index_error = OtherException ''IndexError'' ''list index out of range''"

definition best_failure :: "(BackendClient \<times> pyexc) list \<Rightarrow> pyexc" where
  "best_failure fs =
     (case List.find (\<lambda>(b, _). is_primary b) fs of
        Some (_, e) \<Rightarrow> e
      | None \<Rightarrow> (case fs of [] \<Rightarrow> index_error | f # _ \<Rightarrow> snd f))"

text \<open>The calls, in the order in which they take effect; then their results by task number.\<close>

fun run_tasks ::
  "'w services \<Rightarrow> S3Operation \<Rightarrow> (BackendClient \<times> pdict \<times> body) list \<Rightarrow> nat list \<Rightarrow> 'w world \<Rightarrow> (nat \<times> (pyexc + pdict)) list \<times> 'w world" where
  "run_tasks E op ts [] w = ([], w)"
| "run_tasks E op ts (i # is) w =
     (let (c, ps, b) = ts ! i;
        (r, _, w) = execute E c op ps b w;
        (rs, w) = run_tasks E op ts is w
      in ((i, r) # rs, w))"

definition collect_results :: "(BackendClient \<times> pdict \<times> body) list \<Rightarrow> (nat \<times> (pyexc + pdict)) list \<Rightarrow> (BackendClient \<times> (pyexc + pdict)) list" where
  "collect_results ts rs = map (\<lambda>i. (fst (ts ! i), the (map_of rs i))) [0..<length ts]"

definition split_results :: "(BackendClient \<times> (pyexc + pdict)) list \<Rightarrow> SyncExecutionResult" where
  "split_results rs = \<lparr>successes = concat (map (\<lambda>(c, r). case r of Inr x \<Rightarrow> [(c, x)] | Inl _ \<Rightarrow> []) rs),
     failures = concat (map (\<lambda>(c, r). case r of Inl e \<Rightarrow> [(c, e)] | Inr _ \<Rightarrow> []) rs)\<rparr>"

definition execute_concurrent ::
  "'w services \<Rightarrow> (nat \<Rightarrow> nat list) \<Rightarrow> S3Operation \<Rightarrow> (BackendClient \<times> pdict \<times> body) list \<Rightarrow> 'w world \<Rightarrow> (pyexc + SyncExecutionResult) \<times> 'w world" where
  "execute_concurrent E sched op ts w =
     (if ts = [] then (Inl (PyRuntimeError ''No sync backends configured''), w)
      else (let (rs, w) = run_tasks E op ts (sched (length ts)) w in (Inr (split_results (collect_results ts rs)), w)))"

section \<open>The shared part of the strategies\<close>

record sync_config =
  sync_stream_config :: StreamConfig
  sync_backend_names :: "string list option"
  sync_quorum :: int
  response_backend :: "string option"

definition reject_multipart :: "S3Operation \<Rightarrow> pyexc option" where
  "reject_multipart op =
     (if op \<in> MULTIPART_OPERATIONS then
        Some (OperationNotSupportedError (op_value op @ '' is not supported by this write strategy; '' @
          ''use multi_sync_distributed or primary_replication'') NOT_IMPLEMENTED None)
      else None)"

text \<open>
  \<open>params_for_backend\<close> for every backend, before any call starts.  \<open>prep\<close> is the strategy's
  \<open>_prepare_backend_params\<close>.
\<close>

fun build_tasks ::
  "(BackendClient \<Rightarrow> pyexc + pdict) \<Rightarrow> body \<Rightarrow> MultiSyncBodyBuffer option \<Rightarrow> BackendClient list \<Rightarrow> pyexc + (BackendClient \<times> pdict \<times> body) list" where
  "build_tasks prep body mb [] = Inr []"
| "build_tasks prep body mb (c # cs) =
     ebind (prep c) (\<lambda>ps.
     (case mb of
        None \<Rightarrow> ebind (build_tasks prep body mb cs) (\<lambda>ts. Inr ((c, ps, body) # ts))
      | Some buf \<Rightarrow> ebind (open_reader buf) (\<lambda>(b, buf).
          ebind (build_tasks prep body (Some buf) cs) (\<lambda>ts. Inr ((c, ps, b) # ts)))))"

definition run_concurrent ::
  "'w services \<Rightarrow> (nat \<Rightarrow> nat list) \<Rightarrow> sync_config \<Rightarrow> (BackendClient \<Rightarrow> pyexc + pdict) \<Rightarrow> S3Operation \<Rightarrow> BackendPool \<Rightarrow> body \<Rightarrow> 'w world \<Rightarrow> (pyexc + SyncExecutionResult) \<times> 'w world" where
  "run_concurrent E sched cfg prep op pool body w =
     (let mb = from_body body (sync_stream_config cfg) in
      case resolve_sync_backends pool (sync_backend_names cfg) of
        Inl e \<Rightarrow> (Inl e, w)
      | Inr [] \<Rightarrow> (Inl (PyRuntimeError ''No sync backends configured''), w)
      | Inr backends \<Rightarrow>
          (case build_tasks prep body mb backends of
             Inl e \<Rightarrow> (Inl e, w)
           | Inr ts \<Rightarrow> execute_concurrent E sched op ts w))"

definition fill_targets :: "BackendPool \<Rightarrow> (BackendClient \<times> pdict) list \<Rightarrow> string list" where
  "fill_targets pool succ = filter (\<lambda>n. n \<notin> bc_name ` fst ` set succ) (map bc_name (clients pool))"

definition fill_source :: "string option \<Rightarrow> (BackendClient \<times> pdict) list \<Rightarrow> pyexc + string" where
  "fill_source resp_backend succ =
     (case succ of
        [] \<Rightarrow> Inl index_error
      | s # _ \<Rightarrow> (case List.find (\<lambda>(b, _). Some (bc_name b) = resp_backend) succ of
            Some (b, _) \<Rightarrow> Inr (bc_name b) | None \<Rightarrow> Inr (bc_name (fst s))))"

definition schedule_async_fill ::
  "'w services \<Rightarrow> ReplicationMode \<Rightarrow> string \<Rightarrow> sync_config \<Rightarrow> S3Operation \<Rightarrow> BackendPool \<Rightarrow> pdict \<Rightarrow> pdict \<Rightarrow> (BackendClient \<times> pdict) list \<Rightarrow> 'w world \<Rightarrow> pyexc option \<times> 'w world" where
  "schedule_async_fill E mode topic cfg op pool ps response succ w =
     (let targets = fill_targets pool succ in
      if targets = [] then (None, w)
      else (case fill_source (response_backend cfg) succ of
          Inl e \<Rightarrow> (Some e, w)
        | Inr src \<Rightarrow> schedule_replication E mode topic op ps response src targets w))"

text \<open>Quorum check and choice of the response, as every strategy does them after the fan-out.\<close>

definition settle :: "sync_config \<Rightarrow> int \<Rightarrow> SyncExecutionResult \<Rightarrow> pyexc + pdict" where
  "settle cfg required result =
     (if \<not> quorum_met (length (successes result)) required then Inl (best_failure (failures result))
      else select_client_response (successes result) (response_backend cfg))"

section \<open>SimpleMultiSyncWriteStrategy and QuorumReplicationStrategy\<close>

definition simple_execute ::
  "'w services \<Rightarrow> (nat \<Rightarrow> nat list) \<Rightarrow> sync_config \<Rightarrow> S3Operation \<Rightarrow> BackendPool \<Rightarrow> pdict \<Rightarrow> body \<Rightarrow> 'w world \<Rightarrow> (pyexc + pdict) \<times> 'w world" where
  "simple_execute E sched cfg op pool ps body w =
     (case reject_multipart op of
        Some e \<Rightarrow> (Inl e, w)
      | None \<Rightarrow>
          (case resolve_sync_backends pool (sync_backend_names cfg) of
             Inl e \<Rightarrow> (Inl e, w)
           | Inr backends \<Rightarrow>
               (case run_concurrent E sched cfg (\<lambda>_. Inr ps) op pool body w of
                  (Inl e, w) \<Rightarrow> (Inl e, w)
                | (Inr result, w) \<Rightarrow> (settle cfg (int (length backends)) result, w))))"

definition quorum_execute ::
  "'w services \<Rightarrow> (nat \<Rightarrow> nat list) \<Rightarrow> ReplicationMode \<Rightarrow> string \<Rightarrow> sync_config \<Rightarrow> S3Operation \<Rightarrow> BackendPool \<Rightarrow> pdict \<Rightarrow> body \<Rightarrow> bool \<Rightarrow> 'w world \<Rightarrow> (pyexc + pdict) \<times> 'w world" where
  "quorum_execute E sched mode topic cfg op pool ps body repl_on w =
     (case reject_multipart op of
        Some e \<Rightarrow> (Inl e, w)
      | None \<Rightarrow>
          (case run_concurrent E sched cfg (\<lambda>_. Inr ps) op pool body w of
             (Inl e, w) \<Rightarrow> (Inl e, w)
           | (Inr result, w) \<Rightarrow>
               (case settle cfg (sync_quorum cfg) result of
                  Inl e \<Rightarrow> (Inl e, w)
                | Inr response \<Rightarrow>
                    if repl_on then
                      (case schedule_async_fill E mode topic cfg op pool ps response (successes result) w of
                         (Some e, w) \<Rightarrow> (Inl e, w) | (None, w) \<Rightarrow> (Inr response, w))
                    else (Inr response, w))))"

section \<open>The calls of a fan-out\<close>

text \<open>The orders in which the event loop can complete \<open>n\<close> tasks.\<close>

definition fair_sched :: "(nat \<Rightarrow> nat list) \<Rightarrow> bool" where
  "fair_sched sched \<longleftrightarrow> (\<forall>n. mset (sched n) = mset [0..<n])"

definition fan_out_calls :: "S3Operation \<Rightarrow> bytes \<Rightarrow> (BackendClient \<times> (pyexc + pdict)) list \<Rightarrow> call list" where
  "fan_out_calls op d rs = map (\<lambda>(c, r). (bc_name c, op, d, r)) rs"

lemma build_tasks_law:
  assumes "build_tasks prep body mb cs = Inr ts"
    and "case mb of None \<Rightarrow> True | Some m \<Rightarrow> mb_inv m \<and> mb_content m = body_rest body"
  shows "map fst ts = cs \<and> (\<forall>(c, ps, b) \<in> set ts. prep c = Inr ps \<and> body_rest b = body_rest body)"
  using assms
proof (induction cs arbitrary: mb ts)
  case (Cons c cs)
  show ?case
  proof (cases mb)
    case None
    with Cons.prems obtain ps ts' where "prep c = Inr ps" "build_tasks prep body None cs = Inr ts'" "ts = (c, ps, body) # ts'"
      by (auto simp: ebind_Inr_iff)
    with Cons.IH [of None ts'] show ?thesis by auto
  next
    case (Some m)
    with Cons.prems obtain b m' where m: "open_reader m = Inr (b, m')" "body_rest b = body_rest body" "mb_inv m'" "mb_content m' = body_rest body"
      using open_reader_law [of m] by auto
    with Cons.prems Some obtain ps ts' where "prep c = Inr ps" "build_tasks prep body (Some m') cs = Inr ts'" "ts = (c, ps, b) # ts'"
      by (auto simp: ebind_Inr_iff)
    with Cons.IH [of "Some m'" ts'] m show ?thesis by auto
  qed
qed simp

lemma from_body_law:
  "from_body body cfg = Some m \<Longrightarrow> mb_inv m \<and> mb_content m = body_rest body"
  using from_stream_law [of "[]" 0 cfg] by (auto simp: from_body_def mb_inv_def mb_content_def split: body.splits)

lemma run_tasks_law:
  assumes "run_tasks E op ts is w = (rs, w')" and "\<forall>i \<in> set is. i < length ts"
    and "\<forall>(c, ps, b) \<in> set ts. ready c \<and> body_rest b = d"
  shows "map fst rs = is \<and> extends w w' (map (\<lambda>(i, r). (bc_name (fst (ts ! i)), op, d, r)) rs)"
  using assms
proof (induction "is" arbitrary: w rs)
  case (Cons i "is")
  obtain c ps b where t: "ts ! i = (c, ps, b)" by (metis prod_cases3)
  obtain r b' w1 where x: "execute E c op ps b w = (r, b', w1)" by (metis prod_cases3)
  obtain rs' w2 where y: "run_tasks E op ts is w1 = (rs', w2)" by force
  have rs: "rs = (i, r) # rs'" "w' = w2" using Cons.prems(1) t x y by (auto simp: Let_def)
  have "ready c" "body_rest b = d" using Cons.prems(2,3) t nth_mem [of i ts] by auto
  then have "extends w w1 [(bc_name c, op, d, r)]" using execute_call [OF x] by simp
  with Cons.IH [OF y [folded rs(2)]] Cons.prems(2,3) rs t extends_cons show ?case by auto
qed simp

lemma map_of_fst: "distinct (map fst rs) \<Longrightarrow> map (\<lambda>i. g i (the (map_of rs i))) (map fst rs) = map (\<lambda>(i, r). g i r) rs"
  by (auto simp: map_of_eq_Some_iff)

lemma execute_concurrent_law:
  assumes "execute_concurrent E sched op ts w = (Inr result, w')" and "fair_sched sched"
    and "\<forall>(c, ps, b) \<in> set ts. ready c \<and> body_rest b = d"
  shows "\<exists>rs calls. map fst rs = map fst ts \<and> result = split_results rs \<and> extends w w' calls \<and>
    mset calls = mset (fan_out_calls op d rs)"
proof -
  let ?n = "length ts"
  obtain rs where r: "run_tasks E op ts (sched ?n) w = (rs, w')" and res: "result = split_results (collect_results ts rs)"
    using assms(1) by (auto simp: execute_concurrent_def Let_def split: if_splits prod.splits)
  have m: "mset (sched ?n) = mset [0..<?n]" using assms(2) by (simp add: fair_sched_def)
  have idx: "\<forall>i \<in> set (sched ?n). i < ?n" using m by (metis atLeastLessThan_iff set_mset_mset set_upt)
  have fst_rs: "map fst rs = sched ?n" and ext: "extends w w' (map (\<lambda>(i, r). (bc_name (fst (ts ! i)), op, d, r)) rs)"
    using run_tasks_law [OF r idx assms(3)] by simp_all
  let ?g = "\<lambda>i r. (bc_name (fst (ts ! i)), op, d, r)"
  have "distinct (map fst rs)" unfolding fst_rs using m mset_eq_imp_distinct_iff [of "sched ?n" "[0..<?n]"] by simp
  then have "map (\<lambda>(i, r). ?g i r) rs = map (\<lambda>i. ?g i (the (map_of rs i))) (sched ?n)"
    using map_of_fst [of rs ?g] fst_rs by simp
  from arg_cong [OF this, of mset]
  have "mset (map (\<lambda>(i, r). ?g i r) rs) = mset (map (\<lambda>i. ?g i (the (map_of rs i))) [0..<?n])"
    unfolding mset_map m .
  also have "map (\<lambda>i. ?g i (the (map_of rs i))) [0..<?n] = fan_out_calls op d (collect_results ts rs)"
    by (simp add: fan_out_calls_def collect_results_def)
  finally have "mset (map (\<lambda>(i, r). ?g i r) rs) = mset (fan_out_calls op d (collect_results ts rs))" .
  moreover have "map fst (collect_results ts rs) = map fst ts"
    by (rule nth_equalityI) (simp_all add: collect_results_def)
  ultimately show ?thesis using ext res by blast
qed

lemma run_concurrent_law:
  assumes "run_concurrent E sched cfg prep op pool body w = (Inr result, w')" and "fair_sched sched"
    and "\<forall>c \<in> set (clients pool). ready c"
  shows "\<exists>backends rs calls. resolve_sync_backends pool (sync_backend_names cfg) = Inr backends \<and> backends \<noteq> [] \<and>
    map fst rs = backends \<and> result = split_results rs \<and> extends w w' calls \<and> mset calls = mset (fan_out_calls op (body_rest body) rs)"
proof -
  have get: "get_all pool ns = Inr bs \<Longrightarrow> set bs \<subseteq> set (clients pool)" for ns bs
    by (induction ns arbitrary: bs) (auto simp: ebind_Inr_iff pool_get_def find_Some_iff split: option.splits)
  obtain backends ts where b: "resolve_sync_backends pool (sync_backend_names cfg) = Inr backends" "backends \<noteq> []"
    "build_tasks prep body (from_body body (sync_stream_config cfg)) backends = Inr ts"
    "execute_concurrent E sched op ts w = (Inr result, w')"
    using assms(1) by (auto simp: run_concurrent_def Let_def split: sum.splits list.splits)
  have "set backends \<subseteq> set (clients pool)"
    using b(1) get by (auto simp: resolve_sync_backends_def split: option.splits if_splits)
  moreover have "case from_body body (sync_stream_config cfg) of None \<Rightarrow> True | Some m \<Rightarrow> mb_inv m \<and> mb_content m = body_rest body"
    using from_body_law [of body "sync_stream_config cfg"] by (auto split: option.split)
  moreover note t = build_tasks_law [OF b(3) this]
  ultimately have "\<forall>(c, ps, b) \<in> set ts. ready c \<and> body_rest b = body_rest body"
    using assms(3) t by fastforce
  from execute_concurrent_law [OF b(4) assms(2) this] b t show ?thesis by blast
qed

lemma split_results_simps:
  "(c, r) \<in> set (successes (split_results rs)) \<longleftrightarrow> (c, Inr r) \<in> set rs"
  "(c, e) \<in> set (failures (split_results rs)) \<longleftrightarrow> (c, Inl e) \<in> set rs"
  "length (successes (split_results rs)) = length (filter (\<lambda>(c, r). \<exists>x. r = Inr x) rs)"
  by (auto simp: split_results_def split: sum.splits) (induction rs; auto split: sum.splits)+

section \<open>What an acknowledged synchronous write guarantees\<close>

lemma settle_law:
  assumes "settle cfg required (split_results rs) = Inr response"
  shows "required \<le> int (length (filter (\<lambda>(c, r). \<exists>x. r = Inr x) rs)) \<and> (\<exists>c. (c, Inr response) \<in> set rs) \<and>
    successes (split_results rs) \<noteq> []"
proof -
  let ?s = "successes (split_results rs)"
  have sel: "select_client_response ?s (response_backend cfg) = Inr response" and q: "required \<le> int (length ?s)"
    using assms by (auto simp: settle_def quorum_met_def split: if_splits)
  from sel have "\<exists>c. (c, response) \<in> set ?s"
    by (cases ?s) (auto simp: select_client_response_def simp del: find.simps dest!: find_SomeD split: option.splits if_splits)
  moreover from this have "?s \<noteq> []" by auto
  ultimately show ?thesis using q by (simp add: split_results_simps)
qed

lemma simple_execute_law:
  assumes "simple_execute E sched cfg op pool ps body w = (Inr response, w')"
    and "fair_sched sched" and "\<forall>c \<in> set (clients pool). ready c"
  shows "\<exists>rs calls. resolve_sync_backends pool (sync_backend_names cfg) = Inr (map fst rs) \<and>
    (\<forall>(c, r) \<in> set rs. \<exists>x. r = Inr x) \<and> (\<exists>c. (c, Inr response) \<in> set rs) \<and>
    extends w w' calls \<and> mset calls = mset (fan_out_calls op (body_rest body) rs)"
proof -
  from assms(1) obtain backends result where b: "resolve_sync_backends pool (sync_backend_names cfg) = Inr backends"
    "run_concurrent E sched cfg (\<lambda>_. Inr ps) op pool body w = (Inr result, w')"
    "settle cfg (int (length backends)) result = Inr response"
    by (auto simp: simple_execute_def split: option.splits sum.splits prod.splits)
  from run_concurrent_law [OF b(2) assms(2,3)] b(1) obtain rs calls where
    rs: "map fst rs = backends" "result = split_results rs" "extends w w' calls" "mset calls = mset (fan_out_calls op (body_rest body) rs)"
    by auto
  note law = settle_law [OF b(3) [unfolded rs(2)]]
  have "length backends = length rs" using arg_cong [OF rs(1), of length] by simp
  then have "length rs \<le> length (filter (\<lambda>(c, r). \<exists>x. r = Inr x) rs)" using law by simp
  then have "\<forall>(c, r) \<in> set rs. \<exists>x. r = Inr x"
    by (intro ballI) (rule filter_all_length)
  with b(1) rs law show ?thesis by (intro exI [of _ rs] exI [of _ calls]) simp
qed

text \<open>
  C23. All backends or an error.  When the simple multi-sync strategy acknowledges a write, every
  configured synchronous backend was called exactly once, in whatever order the event loop ran the
  calls, was offered the complete body, and accepted it; the response is one of theirs.  A multipart
  operation is refused without any call.
\<close>

theorem simple_sync_all_backends:
  assumes "simple_execute E sched cfg op pool ps body w = (res, w')"
    and "fair_sched sched" and "\<forall>c \<in> set (clients pool). ready c"
  shows "(op \<in> MULTIPART_OPERATIONS \<longrightarrow> w' = w \<and> (\<exists>m. res = Inl (OperationNotSupportedError m NOT_IMPLEMENTED None))) \<and>
    (\<forall>response. res = Inr response \<longrightarrow>
      (\<exists>backends rs calls. resolve_sync_backends pool (sync_backend_names cfg) = Inr backends \<and> map fst rs = backends \<and>
        (\<forall>(c, r) \<in> set rs. \<exists>x. r = Inr x) \<and> (\<exists>c. (c, Inr response) \<in> set rs) \<and>
        extends w w' calls \<and> mset calls = mset (fan_out_calls op (body_rest body) rs)))"
proof (intro conjI allI impI)
  assume "op \<in> MULTIPART_OPERATIONS"
  then show "w' = w" "\<exists>m. res = Inl (OperationNotSupportedError m NOT_IMPLEMENTED None)"
    using assms(1) by (auto simp: simple_execute_def reject_multipart_def)
next
  fix response assume "res = Inr response"
  with simple_execute_law [of E sched cfg op pool ps body w response w'] assms
  show "\<exists>backends rs calls. resolve_sync_backends pool (sync_backend_names cfg) = Inr backends \<and> map fst rs = backends \<and>
        (\<forall>(c, r) \<in> set rs. \<exists>x. r = Inr x) \<and> (\<exists>c. (c, Inr response) \<in> set rs) \<and>
        extends w w' calls \<and> mset calls = mset (fan_out_calls op (body_rest body) rs)" by blast
qed

text \<open>The asynchronous fill: a task from a backend that has the write to every backend that has not.\<close>

definition filled_from :: "event list \<Rightarrow> S3Operation \<Rightarrow> pdict \<Rightarrow> pdict \<Rightarrow> string \<Rightarrow> string \<Rightarrow> bool" where
  "filled_from es op ps response src n \<longleftrightarrow> (\<exists>keys. extract_keys op ps response = Inr keys \<and>
     (\<forall>k \<in> set keys. \<exists>b. bucket_param ps = Inr b \<and> task es (map_operation op) b k src n))"

lemma filled_from_mono: "filled_from es op ps response src n \<Longrightarrow> filled_from (ds @ es) op ps response src n"
  by (fastforce simp: filled_from_def task_def)

lemma fill_source_law:
  assumes "fill_source rb succ = Inr src"
  shows "src \<in> bc_name ` fst ` set succ"
  using assms
  by (cases succ) (auto simp: fill_source_def simp del: find.simps dest!: find_SomeD split: option.splits, force)

lemma fill_law:
  assumes "schedule_async_fill E mode topic cfg op pool ps response succ w = (None, w')" and "succ \<noteq> []"
  shows "published w w' (\<lambda>es. \<exists>src \<in> bc_name ` fst ` set succ. \<forall>n \<in> set (fill_targets pool succ). filled_from es op ps response src n)"
proof (cases "fill_targets pool succ = []")
  case True
  then show ?thesis using assms by (cases succ) (auto simp: schedule_async_fill_def intro!: published_refl)
next
  case False
  with assms(1) obtain src where src: "fill_source (response_backend cfg) succ = Inr src"
    and sch: "schedule_replication E mode topic op ps response src (fill_targets pool succ) w = (None, w')"
    by (auto simp: schedule_async_fill_def split: sum.splits)
  from repl.schedule_covers [OF sch False] obtain keys where k: "extract_keys op ps response = Inr keys"
    "published w w' (\<lambda>es. \<forall>k \<in> set keys. \<forall>t \<in> set (fill_targets pool succ).
       \<exists>b. bucket_param ps = Inr b \<and> task es (map_operation op) b k src t)" by blast
  show ?thesis
    by (rule published_mono [OF k(2)]) (use fill_source_law [OF src] k(1) in \<open>auto simp: filled_from_def\<close>)
qed

lemma successes_names: "n \<in> bc_name ` fst ` set (successes (split_results rs)) \<longleftrightarrow> (\<exists>c x. (c, Inr x) \<in> set rs \<and> bc_name c = n)"
proof -
  have "n \<in> bc_name ` fst ` set S \<longleftrightarrow> (\<exists>c x. (c, x) \<in> set S \<and> bc_name c = n)" for S :: "(BackendClient \<times> pdict) list"
    by force
  then show ?thesis by (simp only: split_results_simps)
qed

lemma fill_targets_iff:
  "n \<in> set (fill_targets pool (successes (split_results rs))) \<longleftrightarrow>
     n \<in> bc_name ` set (clients pool) \<and> (\<forall>c x. (c, Inr x) \<in> set rs \<longrightarrow> bc_name c \<noteq> n)"
  unfolding fill_targets_def set_filter mem_Collect_eq successes_names set_map by blast

text \<open>
  What a fan-out followed by the quorum check and the asynchronous fill guarantees; shared by the
  quorum strategy and the distributed one.
\<close>

definition quorum_guarantee ::
  "sync_config \<Rightarrow> S3Operation \<Rightarrow> BackendPool \<Rightarrow> pdict \<Rightarrow> pdict \<Rightarrow> bytes \<Rightarrow> (BackendClient \<times> (pyexc + pdict)) list \<Rightarrow> event list \<Rightarrow> bool" where
  "quorum_guarantee cfg op pool ps response d rs es \<longleftrightarrow>
     resolve_sync_backends pool (sync_backend_names cfg) = Inr (map fst rs) \<and>
     mset (calls_of es) = mset (fan_out_calls op d rs) \<and>
     sync_quorum cfg \<le> int (length (filter (\<lambda>(c, r). \<exists>x. r = Inr x) rs)) \<and>
     (\<exists>src. (\<exists>c x. (c, Inr x) \<in> set rs \<and> bc_name c = src) \<and>
        (\<forall>n \<in> bc_name ` set (clients pool). (\<forall>c x. (c, Inr x) \<in> set rs \<longrightarrow> bc_name c \<noteq> n) \<longrightarrow>
           filled_from es op ps response src n))"

lemma quorum_law:
  assumes "run_concurrent E sched cfg prep op pool body w = (Inr result, w1)"
    and "fair_sched sched" and "\<forall>c \<in> set (clients pool). ready c"
    and "settle cfg (sync_quorum cfg) result = Inr response"
    and "schedule_async_fill E mode topic cfg op pool ps response' (successes result) w1 = (None, w')"
  shows "\<exists>rs es. trace w' = trace w @ es \<and> result = split_results rs \<and>
    quorum_guarantee cfg op pool ps response' (body_rest body) rs es \<and> (\<exists>c. (c, Inr response) \<in> set rs)"
proof -
  from run_concurrent_law [OF assms(1-3)] obtain rs calls where
    rs: "resolve_sync_backends pool (sync_backend_names cfg) = Inr (map fst rs)" "result = split_results rs"
    "extends w w1 calls" "mset calls = mset (fan_out_calls op (body_rest body) rs)" by blast
  note settled = settle_law [OF assms(4) [unfolded rs(2)]]
  from fill_law [OF assms(5)] settled rs(2) obtain es2 src where
    es2: "trace w' = trace w1 @ es2" "calls_of es2 = []" "src \<in> bc_name ` fst ` set (successes result)"
    "\<forall>n \<in> set (fill_targets pool (successes result)). filled_from es2 op ps response' src n"
    by (auto simp: published_def)
  from rs(3) obtain es1 where es1: "trace w1 = trace w @ es1" "calls_of es1 = calls" by (auto simp: extends_def)
  have "quorum_guarantee cfg op pool ps response' (body_rest body) rs (es1 @ es2)"
    unfolding quorum_guarantee_def
    using rs(1,4) settled es1(2) es2(2,3) es2(4) filled_from_mono
    by (auto simp: fill_targets_iff successes_names rs(2) intro!: exI [of _ src])
  then show ?thesis using es1(1) es2(1) settled rs(2)
    by (intro exI [of _ rs] exI [of _ "es1 @ es2"]) simp
qed

lemma quorum_execute_law:
  assumes "quorum_execute E sched mode topic cfg op pool ps body True w = (Inr response, w')"
    and "fair_sched sched" and "\<forall>c \<in> set (clients pool). ready c"
  shows "\<exists>rs es. trace w' = trace w @ es \<and> quorum_guarantee cfg op pool ps response (body_rest body) rs es \<and>
    (\<exists>c. (c, Inr response) \<in> set rs)"
proof -
  from assms(1) obtain result w1 where
    "run_concurrent E sched cfg (\<lambda>_. Inr ps) op pool body w = (Inr result, w1)"
    "settle cfg (sync_quorum cfg) result = Inr response"
    "schedule_async_fill E mode topic cfg op pool ps response (successes result) w1 = (None, w')"
    by (auto simp: quorum_execute_def split: option.splits sum.splits prod.splits)
  from quorum_law [OF this(1) assms(2,3) this(2,3)] show ?thesis by blast
qed


section \<open>Witnesses and a configuration that defeats the quorum\<close>

definition sample_sync :: "string list option \<Rightarrow> sync_config" where
  "sample_sync names = \<lparr>sync_stream_config = stream_config_defaults, sync_backend_names = names,
     sync_quorum = 2, response_backend = None\<rparr>"

definition reverse_sched :: "nat \<Rightarrow> nat list" where
  "reverse_sched n = rev [0..<n]"

lemma reverse_sched_fair: "fair_sched reverse_sched"
  by (simp add: fair_sched_def reverse_sched_def)

lemma sample_quorum_ok:
  "fst (quorum_execute sample_services reverse_sched BATCH ''t'' (sample_sync (Some [''p'', ''s1''])) PUT_OBJECT sample_pool
     sample_put (BodyStream [''ab'', ''c'']) True sample_world) = Inr [(''ETag'', VStr ''e'')]"
  by code_simp


theorem simple_sync_all_backends_witness:
  "\<exists>res w'. simple_execute sample_services reverse_sched (sample_sync None) UPLOAD_PART sample_pool sample_put BodyNone sample_world = (res, w') \<and>
     w' = sample_world \<and> (\<exists>m. res = Inl (OperationNotSupportedError m NOT_IMPLEMENTED None))"
proof -
  obtain res w' where q: "simple_execute sample_services reverse_sched (sample_sync None) UPLOAD_PART sample_pool sample_put BodyNone sample_world = (res, w')"
    by force
  from simple_sync_all_backends [OF q reverse_sched_fair sample_pool_ready] q show ?thesis by (auto simp: MULTIPART_OPERATIONS_def)
qed

text \<open>
  A backend listed twice counts twice.  With the same name twice in \<open>sync_backends\<close> a quorum of
  two is reached by a single backend: the write is acknowledged although only \<open>p\<close> was called.
\<close>

theorem duplicate_backend_counts_twice:
  "fst (quorum_execute sample_services reverse_sched BATCH ''t'' (sample_sync (Some [''p'', ''p''])) PUT_OBJECT sample_pool
     sample_put (BodyBytes ''abc'') True sample_world) = Inr [(''ETag'', VStr ''e'')] \<and>
   map fst (calls_of (trace (snd (quorum_execute sample_services reverse_sched BATCH ''t'' (sample_sync (Some [''p'', ''p''])) PUT_OBJECT sample_pool
     sample_put (BodyBytes ''abc'') True sample_world)))) = [''p'', ''p'']"
  by code_simp

end
