(* ===== verification/Request_Guarantees.thy ===== *)
theory Request_Guarantees
  imports Http_Properties Multisync
begin

text \<open>
  From the HTTP response back to the backends: what a client may conclude from the status it receives.
  The composition of \<open>src/s3mer/routing/http_handler.py\<close>, \<open>src/s3mer/routing/dispatcher.py\<close>,
  \<open>src/s3mer/handlers/objects.py\<close> and the write strategies.

  The locale \<open>write_access\<close> is the contract the handlers have with \<open>ctx.write_strategy\<close>: a successful
  \<open>execute\<close> keeps a promise, and an exception is one that is reported as an error.  Its lemmas carry the
  promise to the status of the HTTP response.  The three strategies that replicate are interpretations of it,
  each with the promise that its own theory proves.
\<close>

lemma handler_error_status: "error_code_ok e \<Longrightarrow> 400 \<le> status_code (from_handler_error rid e res)"
  using from_client_error_status [of rid e res]
  by (cases e) (auto simp: from_handler_error_def SERVICE_UNAVAILABLE_def)

section \<open>Errors of the strategies are reported as errors\<close>

text \<open>
  The client libraries do not raise the proxy's own \<open>OperationNotSupportedError\<close>.
\<close>

definition foreign_errors :: "'w services \<Rightarrow> bool" where
  "foreign_errors E \<longleftrightarrow> (\<forall>n op ps b x e. fst (s3_call E n op ps b x) = Inl e \<longrightarrow> error_code_ok e) \<and>
     (\<forall>t k p x e. fst (kafka_publish E t k p x) = Some e \<longrightarrow> error_code_ok e)"

lemma dispatch_error: "fst (dispatch name etag now op ps b st) = Inl e \<Longrightarrow> error_code_ok e"
  by (cases op) (auto simp: dispatch_def with_str_def client_error_def mem_put_object_def mem_get_object_def mem_head_object_def
      mem_delete_object_def mem_delete_bucket_def Let_def split: option.splits pyval.splits prod.splits if_splits)

lemma execute_error: "execute E c op ps b w = (Inl e, b', w') \<Longrightarrow> foreign_errors E \<Longrightarrow> error_code_ok e"
  using dispatch_error [of "bc_name c"]
  by (auto simp: execute_def s3_execute_def memory_execute_def foreign_errors_def Let_def
      split: BackendType.splits if_splits prod.splits) (metis fst_conv)+

lemma write_loop_error:
  "write_loop E op ps is_stream i cs b le w = (r, b', w') \<Longrightarrow> foreign_errors E \<Longrightarrow> \<forall>e. le = Some e \<longrightarrow> error_code_ok e \<Longrightarrow>
   (\<forall>e. r = Raised e \<or> r = Exhausted (Some e) \<longrightarrow> error_code_ok e)"
proof (induction cs arbitrary: i b le w)
  case (Cons c cs)
  obtain x b1 w1 where x: "execute E c op ps (if i > 0 \<and> is_stream then rewind_body b else b) w = (x, b1, w1)" by (metis prod_cases3)
  show ?case
  proof (cases x)
    case (Inl e)
    then have e: "error_code_ok e" using execute_error x Cons.prems(2) by blast
    show ?thesis
    proof (cases "classify e = FAIL")
      case True
      then show ?thesis using Cons.prems(1) x Inl e by auto
    next
      case False
      then have "write_loop E op ps is_stream (i + 1) cs b1 (Some e) w1 = (r, b', w')" using Cons.prems(1) x Inl by simp
      from Cons.IH [OF this Cons.prems(2)] e show ?thesis by blast
    qed
  qed (use Cons.prems(1) x in auto)
qed auto

lemma publish_error: "publish E topic m tp w = (Some e, w') \<Longrightarrow> foreign_errors E \<Longrightarrow> error_code_ok e"
  by (auto simp: publish_def foreign_errors_def Let_def split: prod.splits) (metis fst_conv)+

lemma bucket_param_error: "bucket_param ps = Inl e \<Longrightarrow> error_code_ok e"
  by (auto simp: bucket_param_def split: option.splits pyval.splits)

lemma item_keys_error: "item_keys ds = Inl e \<Longrightarrow> error_code_ok e"
  by (induction ds) (auto simp: ebind_Inl_iff split: option.splits pyval.splits)

lemma extract_keys_error: "extract_keys op ps resp = Inl e \<Longrightarrow> error_code_ok e"
  using item_keys_error by (auto simp: extract_keys_def Let_def split: if_splits option.splits pyval.splits)

lemma batch_loop_error:
  "batch_loop E topic op ps src ts md keys w = (Some e, w') \<Longrightarrow> foreign_errors E \<Longrightarrow> error_code_ok e"
proof (induction keys arbitrary: w)
  case (Cons k keys)
  then show ?case using publish_error bucket_param_error
    by (auto simp: Let_def split: sum.splits prod.splits option.splits)
qed simp

lemma per_target_loop_error:
  "per_target_loop E topic op ps src md key ts w = (Some e, w') \<Longrightarrow> foreign_errors E \<Longrightarrow> error_code_ok e"
proof (induction ts arbitrary: w)
  case (Cons t ts)
  then show ?case using publish_error bucket_param_error
    by (auto simp: Let_def split: sum.splits prod.splits option.splits)
qed simp

lemma per_key_loop_error:
  "per_key_loop E topic op ps src ts md keys w = (Some e, w') \<Longrightarrow> foreign_errors E \<Longrightarrow> error_code_ok e"
proof (induction keys arbitrary: w)
  case (Cons k keys)
  then show ?case using per_target_loop_error
    by (auto split: prod.splits option.splits)
qed simp

lemma schedule_error:
  "schedule_replication E mode topic op ps resp src ts w = (Some e, w') \<Longrightarrow> foreign_errors E \<Longrightarrow> error_code_ok e"
  using batch_loop_error per_key_loop_error extract_keys_error
  by (auto simp: schedule_replication_def batch_schedule_def per_backend_schedule_def split: if_splits sum.splits)

section \<open>What the dispatcher does with an upload\<close>

lemma registry_put_object:
  "registry_get handler_registry PUT_OBJECT =
     Some \<lparr>md_operation = PUT_OBJECT, md_func = handle_put_object, md_body_style = STREAM, md_is_object_op = True\<rparr>"
  by (simp add: registry_defs)

lemma prepare_plain_body:
  assumes "map_of headers ''x-amz-content-sha256'' \<noteq> Some STREAMING_PAYLOAD" and "asgi_complete q" and "0 < sc_chunk_size cfg"
  obtains e where "prepare_streaming_body cfg headers q = Some (Inl e)"
  | chunks n where "prepare_streaming_body cfg headers q = Some (Inr (BodyStream chunks, n))" "concat chunks = asgi_body q" "[] \<notin> set chunks"
proof -
  obtain chunks where "streamed_chunks False (sc_chunk_size cfg) q = Some chunks" "concat chunks = asgi_body q" "[] \<notin> set chunks"
    using streamed_plain [OF assms(2,3)] by blast
  with that assms(1) show ?thesis
    by (cases "length_header (map_of headers ''content-length'')") (auto simp: prepare_streaming_body_def)
qed

lemma dispatch_put_object:
  assumes "req_operation req = PUT_OBJECT" and "req_key req \<noteq> None"
    and "prepare_streaming_body (stream_config d) headers (incoming h) = Some (Inr (body, n))"
    and "handle_put_object (make_context d req headers qs body n) (proxy h) = (resp, s)"
  shows "dispatch_request d req headers qs h = Some (Inr resp, h\<lparr>proxy := s\<rparr>)"
  using assms by (auto simp: dispatch_request_def registry_put_object call_handler_def Let_def)

lemma dispatch_put_object_error:
  assumes "req_operation req = PUT_OBJECT" and "req_key req \<noteq> None"
    and "prepare_streaming_body (stream_config d) headers (incoming h) = Some (Inl e)"
  shows "dispatch_request d req headers qs h = Some (Inl e, h)"
  using assms by (auto simp: dispatch_request_def registry_put_object Let_def)

text \<open>A request that was answered with a success status got that status from its handler.\<close>

lemma success_status:
  assumes "classify_request (sc_method sc) (sc_path sc) (sc_query_string sc) (Some headers) = Inr req"
    and "dispatcher H = Some d" and "dispatch_request d req headers (sc_query_string sc) h = Some (res, h2)"
    and "handle_s3_request H sc headers rid h = Some (exc, h')"
    and "sent h' = sent h2 @ ResponseStart st hs # bodies" and "st < 400"
  shows "proxy h' = proxy h2 \<and> (\<exists>resp. res = Inr resp \<and> response_status resp < 400)"
proof (cases res)
  case (Inl e)
  let ?r = "Plain (error_to_response ((from_client_error rid e (Some (sc_path sc)))\<lparr>err_request_id := rid\<rparr>))"
  have r: "run_dispatcher H req headers (sc_query_string sc) rid (sc_path sc) h = Some (?r, h2)"
    using assms(2,3) Inl by (simp add: run_dispatcher_def)
  have "400 \<le> response_status ?r" using from_client_error_status by (simp add: error_to_response_def)
  moreover have "response_status ?r = st"
    using dispatched_answer [OF assms(1) r assms(4)] assms(5) by (auto simp: answered_def)
  ultimately show ?thesis using assms(6) by simp
next
  case (Inr resp)
  have r: "run_dispatcher H req headers (sc_query_string sc) rid (sc_path sc) h = Some (resp, h2)"
    using assms(2,3) Inr by (simp add: run_dispatcher_def)
  have "response_status resp = st \<and> proxy h' = proxy h2"
    using dispatched_answer [OF assms(1) r assms(4)] assms(5) by (auto simp: answered_def)
  then show ?thesis using Inr assms(6) by simp
qed

section \<open>The contract of a write strategy\<close>

locale write_access =
  fixes run :: "S3Operation \<Rightarrow> pdict \<Rightarrow> body \<Rightarrow> bool \<Rightarrow> 's \<Rightarrow> (pyexc + pdict) \<times> 's"
    and usable :: "body \<Rightarrow> bool"
    and promise :: "S3Operation \<Rightarrow> pdict \<Rightarrow> bytes \<Rightarrow> pdict \<Rightarrow> 's \<Rightarrow> 's \<Rightarrow> bool"
  assumes run_success: "usable b \<Longrightarrow> run op ps b True s = (Inr r, s') \<Longrightarrow> promise op ps (body_rest b) r s s'"
    and run_error: "usable b \<Longrightarrow> run op ps b rp s = (Inl e, s') \<Longrightarrow> error_code_ok e"
begin

lemma fail_with_status: "error_code_ok e \<Longrightarrow> fail_with ctx res e s = (resp, s') \<Longrightarrow> 400 \<le> response_status resp"
  using handler_error_status [of e] by (auto simp: fail_with_def split: prod.splits)

text \<open>A handler that reports success has executed its write, and the state is the one the write left.\<close>

lemma on_write_success:
  assumes "ctx_write ctx = run" and "usable b" and "on_write ctx res op True b params finish s = (resp, s')"
    and "response_status resp < 400"
    and "\<And>e. params = Inl e \<Longrightarrow> error_code_ok e" and "\<And>r e. finish r = Inl e \<Longrightarrow> error_code_ok e"
  shows "\<exists>ps r. params = Inr ps \<and> finish r = Inr resp \<and> promise op ps (body_rest b) r s s'"
proof (cases params)
  case (Inl e)
  then have "fail_with ctx res e s = (resp, s')" using assms(3) by (simp add: on_write_def)
  from fail_with_status [OF assms(5) [OF Inl] this] assms(4) show ?thesis by simp
next
  case (Inr ps)
  obtain x s1 where x: "run op ps b True s = (x, s1)" by force
  with assms(1,3) Inr have f: "finish_with ctx res finish (x, s1) = (resp, s')" by (simp add: on_write_def)
  show ?thesis
  proof (cases x)
    case (Inl e)
    then have "fail_with ctx res e s1 = (resp, s')" using f by (simp add: finish_with_def)
    moreover have "error_code_ok e" using run_error [OF assms(2)] x Inl by blast
    ultimately show ?thesis using fail_with_status [of e ctx res s1 resp s'] assms(4) by simp
  next
    case r: (Inr r)
    show ?thesis
    proof (cases "finish r")
      case (Inl e)
      then have "fail_with ctx res e s1 = (resp, s')" using f r by (simp add: finish_with_def)
      from fail_with_status [OF assms(6) [OF Inl] this] assms(4) show ?thesis by simp
    next
      case ok: (Inr resp')
      then have "resp' = resp" "s1 = s'" using f r by (simp_all add: finish_with_def)
      then show ?thesis using Inr ok run_success [OF assms(2)] x r by auto
    qed
  qed
qed

lemma put_object_success:
  assumes "ctx_write ctx = run" and "usable (ctx_body ctx)" and "handle_put_object ctx s = (resp, s')" and "response_status resp < 400"
  shows "\<exists>r. promise PUT_OBJECT (put_params ctx) (body_rest (ctx_body ctx)) r s s'"
  using on_write_success [OF assms(1,2) assms(3) [unfolded handle_put_object_def] assms(4)] by auto

lemma delete_object_success:
  assumes "ctx_write ctx = run" and "usable BodyAbsent" and "handle_delete_object ctx s = (resp, s')" and "response_status resp < 400"
  shows "\<exists>r. promise DELETE_OBJECT (object_params ctx) [] r s s'"
  using on_write_success [OF assms(1,2) assms(3) [unfolded handle_delete_object_def] assms(4)] by auto

lemma copy_object_success:
  assumes "ctx_write ctx = run" and "usable BodyAbsent" and "handle_copy_object ctx s = (resp, s')" and "response_status resp < 400"
  shows "\<exists>ps r. promise COPY_OBJECT ps [] r s s'"
  using on_write_success [OF assms(1,2) assms(3) [unfolded handle_copy_object_def Let_def] assms(4)] by (fastforce split: if_splits)

text \<open>The whole way of an upload, from the messages of the client to the status it receives.\<close>

lemma upload_success:
  assumes "classify_request (sc_method sc) (sc_path sc) (sc_query_string sc) (Some headers) = Inr req"
    and "req_operation req = PUT_OBJECT" and "dispatcher H = Some d" and "write_strategy d = run"
    and "asgi_complete (incoming h)" and "0 < sc_chunk_size (stream_config d)"
    and "map_of headers ''x-amz-content-sha256'' \<noteq> Some STREAMING_PAYLOAD"
    and "\<And>cs. [] \<notin> set cs \<Longrightarrow> usable (BodyStream cs)"
    and "handle_s3_request H sc headers rid h = Some (exc, h')"
    and "sent h' = sent h @ ResponseStart st hs # bodies" and "st < 400"
  shows "\<exists>ps r. map_of ps ''Bucket'' = Some (VStr (the (req_bucket req))) \<and> map_of ps ''Key'' = Some (VStr (the (req_key req))) \<and>
    promise PUT_OBJECT ps (asgi_body (incoming h)) r (proxy h) (proxy h')"
proof -
  have key: "req_key req \<noteq> None" using classified_has_shape [OF assms(1)] assms(2) by (simp add: op_depth_def)
  with classify_request_parts [OF assms(1)] have bucket: "req_bucket req \<noteq> None" by blast
  show ?thesis
  proof (rule prepare_plain_body [OF assms(7,5,6)])
    fix e assume "prepare_streaming_body (stream_config d) headers (incoming h) = Some (Inl e)"
    from success_status [OF assms(1,3) dispatch_put_object_error [OF assms(2) key this] assms(9,10,11)]
    show ?thesis by simp
  next
    fix chunks n
    assume p: "prepare_streaming_body (stream_config d) headers (incoming h) = Some (Inr (BodyStream chunks, n))"
      and chunks: "concat chunks = asgi_body (incoming h)" "[] \<notin> set chunks"
    let ?ctx = "make_context d req headers (sc_query_string sc) (BodyStream chunks) n"
    obtain resp s where put: "handle_put_object ?ctx (proxy h) = (resp, s)" by force
    have "sent h' = sent (h\<lparr>proxy := s\<rparr>) @ ResponseStart st hs # bodies" using assms(10) by simp
    from success_status [OF assms(1,3) dispatch_put_object [OF assms(2) key p put] assms(9) this assms(11)]
    have s: "s = proxy h'" "response_status resp < 400" by simp_all
    have "ctx_write ?ctx = run" "usable (ctx_body ?ctx)" "body_rest (ctx_body ?ctx) = asgi_body (incoming h)"
      using assms(4,8) chunks by (simp_all add: make_context_def)
    with put_object_success [OF this(1,2) put s(2)] s(1) obtain r where
      "promise PUT_OBJECT (put_params ?ctx) (asgi_body (incoming h)) r (proxy h) (proxy h')" by auto
    moreover have "map_of (put_params ?ctx) ''Bucket'' = Some (VStr (the (req_bucket req)))"
      "map_of (put_params ?ctx) ''Key'' = Some (VStr (the (req_key req)))"
      using key bucket by (auto simp: put_params_def object_params_def param_key_def make_context_def Let_def)
    ultimately show ?thesis by blast
  qed
qed

end

section \<open>The default strategy keeps the contract\<close>

definition primary_run ::
  "'w services \<Rightarrow> ReplicationMode \<Rightarrow> string \<Rightarrow> StreamConfig \<Rightarrow> BackendPool \<Rightarrow> S3Operation \<Rightarrow> pdict \<Rightarrow> body \<Rightarrow> bool \<Rightarrow> 'w world \<Rightarrow> (pyexc + pdict) \<times> 'w world" where
  "primary_run E mode topic cfg pool op ps b rp w = (case write_execute E mode topic cfg op pool ps b rp w of (r, _, w') \<Rightarrow> (r, w'))"

definition read_run :: "'w services \<Rightarrow> BackendPool \<Rightarrow> S3Operation \<Rightarrow> pdict \<Rightarrow> 'w world \<Rightarrow> (pyexc + pdict) \<times> 'w world" where
  "read_run E pool op ps w = read_execute E op pool ps w"

text \<open>A deployment the theorems speak of: a started pool with a primary, libraries that behave as documented.\<close>

definition deployed :: "'w services \<Rightarrow> StreamConfig \<Rightarrow> BackendPool \<Rightarrow> bool" where
  "deployed E cfg pool \<longleftrightarrow> wf_pool pool \<and> (\<forall>c \<in> set (clients pool). ready c) \<and> reads_body E \<and> 0 < sc_chunk_size cfg \<and> foreign_errors E"

lemma deployed_foreign_errors: "deployed E cfg pool \<Longrightarrow> foreign_errors E"
  by (simp add: deployed_def)

definition replicated_write :: "BackendPool \<Rightarrow> S3Operation \<Rightarrow> pdict \<Rightarrow> bytes \<Rightarrow> pdict \<Rightarrow> 'w world \<Rightarrow> 'w world \<Rightarrow> bool" where
  "replicated_write pool op ps d r w w' \<longleftrightarrow> (\<exists>es. trace w' = trace w @ es \<and> replicated_everywhere pool op ps d r es)"

lemma primary_run_success:
  assumes "deployed E cfg pool" and "request_body b" and "primary_run E mode topic cfg pool op ps b True w = (Inr r, w')"
  shows "replicated_write pool op ps (body_rest b) r w w'"
proof -
  obtain b' where x: "write_execute E mode topic cfg op pool ps b True w = (Inr r, b', w')"
    using assms(3) by (auto simp: primary_run_def split: prod.splits)
  obtain cs w0 where "get_write_candidates pool w = (Inr cs, w0)"
    using x by (cases "get_write_candidates pool w"; cases "fst (get_write_candidates pool w)") (auto simp: write_execute_def)
  from acknowledged_write_law [OF _ _ _ assms(2) _ this x] assms(1) show ?thesis
    by (auto simp: deployed_def replicated_write_def replicated_everywhere_def)
qed

lemma primary_run_error:
  assumes "foreign_errors E" and "primary_run E mode topic cfg pool op ps b rp w = (Inl e, w')"
  shows "error_code_ok e"
proof -
  obtain b' where x: "write_execute E mode topic cfg op pool ps b rp w = (Inl e, b', w')"
    using assms(2) by (auto simp: primary_run_def split: prod.splits)
  show ?thesis
  proof (cases "fst (get_write_candidates pool w)")
    case (Inl e')
    then have "e = e'" using x by (cases "get_write_candidates pool w") (simp add: write_execute_def)
    moreover have "error_code_ok e'"
      using Inl by (auto simp: get_write_candidates_def primary_def Let_def split: option.splits prod.splits)
    ultimately show ?thesis by simp
  next
    case (Inr cs)
    then obtain w0 where c: "get_write_candidates pool w = (Inr cs, w0)" by (metis prod.collapse)
    obtain b0 st where b: "wrap_body cfg b = (b0, st)" by force
    obtain lr b1 w1 where l: "write_loop E op ps st 0 cs b0 None w0 = (lr, b1, w1)" by (metis prod_cases3)
    have "write_end E mode topic op pool ps rp lr w1 = (Inl e, w')"
      using x c b l
      by (auto simp: write_execute_def write_end_def Let_def split: loop_result.splits option.splits if_splits prod.splits)
    then show ?thesis
      using write_loop_error [OF l assms(1)] schedule_error [OF _ assms(1)]
      by (auto simp: write_end_def split: loop_result.splits option.splits if_splits prod.splits)
  qed
qed

interpretation primary_access: write_access "primary_run E mode topic cfg pool"
  "\<lambda>b. deployed E cfg pool \<and> request_body b" "replicated_write pool" for E mode topic cfg pool
proof
  fix op ps b s r s'
  assume "deployed E cfg pool \<and> request_body b" "primary_run E mode topic cfg pool op ps b True s = (Inr r, s')"
  then show "replicated_write pool op ps (body_rest b) r s s'" using primary_run_success by blast
next
  fix op ps b rp s e s'
  assume "deployed E cfg pool \<and> request_body b" "primary_run E mode topic cfg pool op ps b rp s = (Inl e, s')"
  then show "error_code_ok e" using primary_run_error [OF deployed_foreign_errors] by blast
qed


text \<open>A proxy over the sample services, and an upload of three bytes in two messages.\<close>

definition sample_stream_settings :: StreamConfig where
  "sample_stream_settings = \<lparr>sc_chunk_size = 8, sc_max_memory_size = 100, sc_buffer_dir = None\<rparr>"

definition sample_dispatcher :: "unit world RequestDispatcher" where
  "sample_dispatcher = \<lparr>read_strategy = read_run sample_services sample_pool,
     write_strategy = primary_run sample_services PER_BACKEND ''t'' sample_stream_settings sample_pool,
     stream_config = sample_stream_settings, lib_fromstring = (\<lambda>_. Inl (PyValueError ''xml'')),
     lib_fromstring_bytes = (\<lambda>_. Inl (PyValueError ''xml'')), lib_decode_utf8 = Inr,
     lib_fresh_id = draw_uuid sample_services, lib_now = clock\<rparr>"

definition sample_handler :: "unit world S3HTTPHandler" where
  "sample_handler = \<lparr>dispatcher = Some sample_dispatcher, lib_generate_latest = (\<lambda>_. []), CONTENT_TYPE_LATEST = ''text/plain'',
     lib_uuid = draw_uuid sample_services, lib_clock = (\<lambda>w. nat (clock w)), lib_body_reads = (\<lambda>n b. ([b], None)), response_chunk_size = 65536\<rparr>"

definition sample_upload :: "unit world http" where
  "sample_upload = \<lparr>incoming = [HttpRequest (Some ''ab'') (Some True), HttpRequest (Some ''c'') None], sent = [], front_metrics = [],
     proxy = sample_world\<rparr>"

definition sample_scope :: http_scope where
  "sample_scope = \<lparr>sc_method = ''PUT'', sc_path = ''/data/k'', sc_query_string = [], sc_headers = [(''Content-Length'', ''3'')]\<rparr>"

lemma sample_deployed: "deployed sample_services sample_stream_settings sample_pool"
proof -
  have "foreign_errors sample_services" by (simp add: foreign_errors_def sample_services_def)
  then show ?thesis using sample_pool_wf(1) sample_pool_ready sample_reads_body
    by (simp add: deployed_def sample_stream_settings_def)
qed

lemma sample_upload_answer:
  "map_option (\<lambda>(exc, h'). (exc, sent h'))
     (handle_s3_request sample_handler sample_scope (request_headers sample_scope) ''r1'' sample_upload) =
   Some (None, [ResponseStart 200 [(''content-type'', ''application/xml''), (''content-length'', ''0''), (''etag'', ''e''), (REQUEST_ID, ''r1'')],
     ResponseBody [] None])"
  by code_simp


section \<open>Downloads from an in-memory backend\<close>

definition memory_pool :: BackendPool where
  "memory_pool = new_pool [(''m'', \<lparr>backend_type = BT_MEMORY, cfg_is_primary = True, cfg_priority = 0\<rparr>)]"

definition memory_handler :: "unit world S3HTTPHandler" where
  "memory_handler = sample_handler\<lparr>dispatcher := Some (sample_dispatcher\<lparr>read_strategy := read_run sample_services memory_pool,
     write_strategy := primary_run sample_services BATCH ''t'' sample_stream_settings memory_pool\<rparr>)\<rparr>"

definition stored_bytes :: "unit world http" where
  "stored_bytes = sample_upload\<lparr>incoming := [], proxy := sample_world\<lparr>mem_store :=
     snd (dispatch ''m'' ''e'' 0 PUT_OBJECT [(''Bucket'', VStr ''data''), (''Key'', VStr ''k'')] (BodyBytes ''abc'') [])\<rparr>\<rparr>"

definition sample_download :: http_scope where
  "sample_download = \<lparr>sc_method = ''GET'', sc_path = ''/data/k'', sc_query_string = [], sc_headers = []\<rparr>"

text \<open>
  No object can be downloaded from an in-memory backend.  The backend returns the content as bytes, which
  \<open>stream_s3_body\<close> cannot read from: the status 200 and the headers, with the length of the object, are sent,
  and then an \<open>AttributeError\<close> ends the request without a single byte of the body.
\<close>

theorem memory_download_fails:
  "map_option (\<lambda>(exc, h'). (exc, map (\<lambda>e. case e of ResponseStart st hs \<Rightarrow> (st, map_of hs ''content-length'') | _ \<Rightarrow> (0, None)) (sent h')))
     (handle_s3_request memory_handler sample_download [] ''r1'' stored_bytes) =
   Some (Some (PyAttributeError ''close''), [(200, Some ''3'')])"
  by code_simp

end
