(* ===== verification/Sync_Guarantees.thy ===== *)
theory Sync_Guarantees
  imports Request_Guarantees
begin

text \<open>
  The synchronous strategies as write strategies of the HTTP layer: the simple and the quorum strategy of
  \<open>src/s3mer/backends/multisync_strategies.py\<close> meet the contract \<open>write_access\<close>, so the status of a
  response carries their promises as well.
\<close>

section \<open>Errors of a fan-out\<close>

lemma run_tasks_error:
  assumes "run_tasks E op ts is w = (rs, w')" and "foreign_errors E" and "(i, Inl e) \<in> set rs"
  shows "error_code_ok e"
  using assms
proof (induction "is" arbitrary: w rs)
  case (Cons j "is")
  obtain c ps b where t: "ts ! j = (c, ps, b)" by (metis prod_cases3)
  obtain r b' w1 where x: "execute E c op ps b w = (r, b', w1)" by (metis prod_cases3)
  obtain rs' w2 where y: "run_tasks E op ts is w1 = (rs', w2)" by force
  have rs: "rs = (j, r) # rs'" "w' = w2" using Cons.prems(1) t x y by (auto simp: Let_def)
  with Cons.prems(3) consider "i = j" "r = Inl e" | "(i, Inl e) \<in> set rs'" by auto
  then show ?case
    using Cons.IH [OF y [folded rs(2)] Cons.prems(2)] execute_error [OF _ Cons.prems(2)] x by cases blast+
qed simp

lemma run_tasks_indices: "run_tasks E op ts is w = (rs, w') \<Longrightarrow> map fst rs = is"
proof (induction "is" arbitrary: w rs)
  case (Cons j "is")
  then show ?case by (auto simp: Let_def split: prod.splits)
qed simp

lemma split_failures: "(c, e) \<in> set (failures (split_results rs)) \<Longrightarrow> (c, Inl e) \<in> set rs"
  by (auto simp: split_results_def split: sum.splits)

lemma execute_concurrent_error:
  assumes "execute_concurrent E sched op ts w = (Inr result, w')" and "fair_sched sched" and "foreign_errors E"
  shows "\<forall>(c, e) \<in> set (failures result). error_code_ok e"
proof -
  obtain rs where r: "run_tasks E op ts (sched (length ts)) w = (rs, w')" "result = split_results (collect_results ts rs)"
    using assms(1) by (auto simp: execute_concurrent_def split: if_splits prod.splits)
  have "error_code_ok e" if e: "(c, e) \<in> set (failures result)" for c e
  proof -
    from split_failures [OF e [unfolded r(2)]] obtain i where i: "i < length ts" "Inl e = the (map_of rs i)"
      by (auto simp: collect_results_def)
    have "map fst rs = sched (length ts)"
      using r(1) by (rule run_tasks_indices)
    then have "i \<in> fst ` set rs" using i(1) assms(2) unfolding fair_sched_def
      by (metis atLeastLessThan_iff list.set_map mset_eq_setD set_upt zero_le)
    then obtain y where "map_of rs i = Some y" by (cases "map_of rs i") (auto simp: map_of_eq_None_iff)
    with i(2) map_of_SomeD [of rs i y] run_tasks_error [OF r(1) assms(3)] show ?thesis by simp
  qed
  then show ?thesis by blast
qed

lemma get_all_error: "get_all pool ns = Inl e \<Longrightarrow> error_code_ok e"
  by (induction ns) (auto simp: ebind_Inl_iff pool_get_def split: option.splits)

lemma resolve_error: "resolve_sync_backends pool names = Inl e \<Longrightarrow> error_code_ok e"
  using get_all_error by (auto simp: resolve_sync_backends_def split: option.splits if_splits)

text \<open>\<open>good_prep prep\<close>: preparing the parameters of a backend can only raise an error that is reported as one.\<close>

definition good_prep :: "(BackendClient \<Rightarrow> pyexc + pdict) \<Rightarrow> bool" where
  "good_prep prep \<longleftrightarrow> (\<forall>c e. prep c = Inl e \<longrightarrow> error_code_ok e)"

lemma good_prep_const [simp]: "good_prep (\<lambda>_. Inr ps)"
  by (simp add: good_prep_def)

lemma build_tasks_error: "build_tasks prep body mb cs = Inl e \<Longrightarrow> good_prep prep \<Longrightarrow> error_code_ok e"
proof (induction cs arbitrary: mb)
  case (Cons c cs)
  then show ?case by (cases mb) (auto simp: ebind_Inl_iff open_reader_def good_prep_def split: option.splits)
qed simp

lemma run_concurrent_error:
  assumes "run_concurrent E sched cfg prep op pool body w = (res, w')" and "fair_sched sched" and "foreign_errors E"
    and "good_prep prep"
  shows "case res of Inl e \<Rightarrow> error_code_ok e | Inr result \<Rightarrow> \<forall>(c, e) \<in> set (failures result). error_code_ok e"
proof (cases "resolve_sync_backends pool (sync_backend_names cfg)")
  case (Inl e)
  then show ?thesis using assms(1) resolve_error by (auto simp: run_concurrent_def)
next
  case (Inr bs)
  show ?thesis
  proof (cases bs)
    case Nil
    then show ?thesis using assms(1) Inr by (auto simp: run_concurrent_def)
  next
    case (Cons c cs)
    show ?thesis
    proof (cases "build_tasks prep body (from_body body (sync_stream_config cfg)) bs")
      case (Inl e)
      then have "res = Inl e" using assms(1) Inr Cons by (simp add: run_concurrent_def)
      then show ?thesis using build_tasks_error [OF Inl assms(4)] by simp
    next
      case ts: (Inr ts)
      then have x: "execute_concurrent E sched op ts w = (res, w')" using assms(1) Inr Cons by (simp add: run_concurrent_def)
      show ?thesis
      proof (cases res)
        case (Inl e)
        then show ?thesis using x by (auto simp: execute_concurrent_def split: if_splits prod.splits)
      next
        case r: (Inr result)
        with x execute_concurrent_error [OF _ assms(2,3)] show ?thesis by simp
      qed
    qed
  qed
qed

lemma settle_error:
  assumes "settle cfg n result = Inl e" and "\<forall>(c, e) \<in> set (failures result). error_code_ok e"
  shows "error_code_ok e"
proof -
  have "error_code_ok (best_failure fs)" if "\<forall>(c, e) \<in> set fs. error_code_ok e" for fs
  proof (cases "List.find (\<lambda>(b, _). is_primary b) fs")
    case None
    then show ?thesis using that by (cases fs) (auto simp: best_failure_def index_error_def)
  next
    case (Some p)
    then have "p \<in> set fs" by (auto dest: find_SomeD)
    with that Some show ?thesis by (auto simp: best_failure_def)
  qed
  moreover have "error_code_ok e" if "select_client_response succ resp = Inl e" for succ resp
    using that by (auto simp: select_client_response_def simp del: find.simps split: list.splits option.splits)
  ultimately show ?thesis using assms by (auto simp: settle_def split: if_splits)
qed

lemma fill_error: "schedule_async_fill E mode topic cfg op pool ps r succ w = (Some e, w') \<Longrightarrow> foreign_errors E \<Longrightarrow> error_code_ok e"
  using schedule_error
  by (auto simp: schedule_async_fill_def fill_source_def index_error_def Let_def simp del: find.simps
      split: if_splits sum.splits list.splits option.splits)

lemma reject_multipart_error: "reject_multipart op = Some e \<Longrightarrow> error_code_ok e"
  by (auto simp: reject_multipart_def NOT_IMPLEMENTED_def split: if_splits)

section \<open>The strategies keep the contract\<close>

definition simple_run ::
  "'w services \<Rightarrow> (nat \<Rightarrow> nat list) \<Rightarrow> sync_config \<Rightarrow> BackendPool \<Rightarrow> S3Operation \<Rightarrow> pdict \<Rightarrow> body \<Rightarrow> bool \<Rightarrow> 'w world \<Rightarrow> (pyexc + pdict) \<times> 'w world" where
  "simple_run E sched cfg pool op ps b rp w = simple_execute E sched cfg op pool ps b w"

definition quorum_run ::
  "'w services \<Rightarrow> (nat \<Rightarrow> nat list) \<Rightarrow> ReplicationMode \<Rightarrow> string \<Rightarrow> sync_config \<Rightarrow> BackendPool \<Rightarrow> S3Operation \<Rightarrow> pdict \<Rightarrow> body \<Rightarrow> bool \<Rightarrow> 'w world \<Rightarrow> (pyexc + pdict) \<times> 'w world" where
  "quorum_run E sched mode topic cfg pool op ps b rp w = quorum_execute E sched mode topic cfg op pool ps b rp w"

definition sync_deployed :: "'w services \<Rightarrow> (nat \<Rightarrow> nat list) \<Rightarrow> BackendPool \<Rightarrow> bool" where
  "sync_deployed E sched pool \<longleftrightarrow> fair_sched sched \<and> (\<forall>c \<in> set (clients pool). ready c) \<and> foreign_errors E"

text \<open>Every synchronous backend was called once with the bytes \<open>d\<close> and accepted them.\<close>

definition on_every_sync_backend :: "sync_config \<Rightarrow> BackendPool \<Rightarrow> S3Operation \<Rightarrow> pdict \<Rightarrow> bytes \<Rightarrow> pdict \<Rightarrow> 'w world \<Rightarrow> 'w world \<Rightarrow> bool" where
  "on_every_sync_backend cfg pool op ps d r w w' \<longleftrightarrow>
     (\<exists>rs calls. resolve_sync_backends pool (sync_backend_names cfg) = Inr (map fst rs) \<and>
        (\<forall>(c, r) \<in> set rs. \<exists>x. r = Inr x) \<and> extends w w' calls \<and> mset calls = mset (fan_out_calls op d rs))"

definition quorum_write :: "sync_config \<Rightarrow> BackendPool \<Rightarrow> S3Operation \<Rightarrow> pdict \<Rightarrow> bytes \<Rightarrow> pdict \<Rightarrow> 'w world \<Rightarrow> 'w world \<Rightarrow> bool" where
  "quorum_write cfg pool op ps d r w w' \<longleftrightarrow> (\<exists>rs es. trace w' = trace w @ es \<and> quorum_guarantee cfg op pool ps r d rs es)"

interpretation simple_access: write_access "simple_run E sched cfg pool" "\<lambda>b. sync_deployed E sched pool"
  "on_every_sync_backend cfg pool" for E sched cfg pool
proof
  fix op ps b s r s'
  assume "sync_deployed E sched pool" "simple_run E sched cfg pool op ps b True s = (Inr r, s')"
  then show "on_every_sync_backend cfg pool op ps (body_rest b) r s s'"
    using simple_execute_law [of E sched cfg op pool ps b s r s']
    unfolding simple_run_def sync_deployed_def on_every_sync_backend_def by blast
next
  fix op ps b rp s e s'
  assume "sync_deployed E sched pool" "simple_run E sched cfg pool op ps b rp s = (Inl e, s')"
  then show "error_code_ok e"
    using run_concurrent_error [of E sched cfg "\<lambda>_. Inr ps" op pool b s] settle_error resolve_error reject_multipart_error
    by (fastforce simp: simple_run_def simple_execute_def sync_deployed_def split: option.splits sum.splits prod.splits)
qed

interpretation quorum_access: write_access "quorum_run E sched mode topic cfg pool" "\<lambda>b. sync_deployed E sched pool"
  "quorum_write cfg pool" for E sched mode topic cfg pool
proof
  fix op ps b s r s'
  assume "sync_deployed E sched pool" "quorum_run E sched mode topic cfg pool op ps b True s = (Inr r, s')"
  then show "quorum_write cfg pool op ps (body_rest b) r s s'"
    using quorum_execute_law [of E sched mode topic cfg op pool ps b s r s']
    unfolding quorum_run_def sync_deployed_def quorum_write_def by blast
next
  fix op ps b rp s e s'
  assume "sync_deployed E sched pool" "quorum_run E sched mode topic cfg pool op ps b rp s = (Inl e, s')"
  then show "error_code_ok e"
    using run_concurrent_error [of E sched cfg "\<lambda>_. Inr ps" op pool b s] settle_error reject_multipart_error fill_error
    by (fastforce simp: quorum_run_def quorum_execute_def sync_deployed_def split: option.splits sum.splits prod.splits if_splits)
qed

section \<open>A quorum, seen by the client\<close>


definition sample_quorum_handler :: "unit world S3HTTPHandler" where
  "sample_quorum_handler = sample_handler\<lparr>dispatcher := Some (sample_dispatcher\<lparr>write_strategy :=
     quorum_run sample_services reverse_sched BATCH ''t'' ((sample_sync (Some [''p'', ''s1'']))\<lparr>sync_stream_config := sample_stream_settings\<rparr>) sample_pool\<rparr>)\<rparr>"

lemma sample_quorum_answer:
  "map_option (\<lambda>(exc, h'). (exc, map (\<lambda>e. case e of ResponseStart st hs \<Rightarrow> st | _ \<Rightarrow> 0) (sent h')))
     (handle_s3_request sample_quorum_handler sample_scope (request_headers sample_scope) ''r1'' sample_upload) = Some (None, [200, 0])"
  by code_simp


end
