(* ===== verification/Distributed_Upload.thy ===== *)
theory Distributed_Upload
  imports Multisync
begin

text \<open>
  \<open>DistributedMultiSyncWriteStrategy\<close> of \<open>src/s3mer/backends/multisync_strategies.py\<close>: multipart
  uploads over several backends.  The client sees one proxy-issued upload id; the session store maps
  it to the upload id of every backend and to the ETags each backend returned for each part.

  The store is an argument \<open>S\<close> with its state \<open>s\<close> threaded beside the world; what the strategy
  relies on is the contract \<open>session_store\<close>, so the lemmas hold for both stores.
\<close>

section \<open>The strategy\<close>

text \<open>\<open>params.get(name, "")\<close> where a string is expected.\<close>

definition str_param :: "pdict \<Rightarrow> string \<Rightarrow> string" where
  "str_param ps k = (case map_of ps k of Some (VStr v) \<Rightarrow> v | _ \<Rightarrow> [])"

text \<open>\<open>str(v)\<close> of the values a response holds under \<open>UploadId\<close> and \<open>ETag\<close>.\<close>

fun str_val :: "pyval \<Rightarrow> string" where
  "str_val (VStr s) = s"
| "str_val (VInt i) = py_str i"
| "str_val (VBool b) = (if b then ''True'' else ''False'')"
| "str_val VNone = ''None''"
| "str_val _ = []"

text \<open>The parts of a \<open>CompleteMultipartUpload\<close> as one backend knows them.\<close>

fun backend_parts :: "MultipartSession \<Rightarrow> string \<Rightarrow> pyval list \<Rightarrow> pyexc + pyval list" where
  "backend_parts m name [] = Inr []"
| "backend_parts m name (part # parts) =
     (case map_of (as_dict part) ''PartNumber'' of
        None \<Rightarrow> Inl (PyKeyError ''PartNumber'')
      | Some n \<Rightarrow>
          ebind (backend_parts m name parts) (\<lambda>rest.
            case n of
              VInt i \<Rightarrow>
                (case map_of (case map_of (part_etags m) i of None \<Rightarrow> [] | Some d \<Rightarrow> d) name of
                   None \<Rightarrow> Inr rest
                 | Some etag \<Rightarrow> Inr (VDict [(''PartNumber'', n), (''ETag'', VStr etag)] # rest))
            | _ \<Rightarrow> Inr rest))"

definition client_parts :: "pdict \<Rightarrow> pyval list" where
  "client_parts ps = as_list (get_default (as_dict (get_default ps ''MultipartUpload'' (VDict []))) ''Parts'' (VList []))"

definition prepare_backend_params :: "S3Operation \<Rightarrow> pdict \<Rightarrow> MultipartSession option \<Rightarrow> BackendClient \<Rightarrow> pyexc + pdict" where
  "prepare_backend_params op ps session c =
     (case session of
        None \<Rightarrow> Inr ps
      | Some m \<Rightarrow>
          (let native = map_of (backend_upload_ids m) (bc_name c);
             bp = (if truthy_str native \<and> op \<in> MULTIPART_OPERATIONS then AList.update ''UploadId'' (VStr (the native)) ps else ps)
           in if op = COMPLETE_MULTIPART_UPLOAD then
                ebind (backend_parts m (bc_name c) (client_parts ps))
                  (\<lambda>parts. Inr (AList.update ''MultipartUpload'' (VDict [(''Parts'', VList parts)]) bp))
              else Inr bp))"

definition native_upload_ids :: "(BackendClient \<times> pdict) list \<Rightarrow> (string \<times> string) list" where
  "native_upload_ids succ = py_dict (concat (map (\<lambda>(b, r).
     case map_of r ''UploadId'' of None \<Rightarrow> [] | Some VNone \<Rightarrow> [] | Some v \<Rightarrow> [(bc_name b, str_val v)]) succ))"

text \<open>The body of the \<open>try\<close> in \<open>_handle_create_multipart\<close>.\<close>

definition create_on_backends where
  "create_on_backends S E sched mode topic cfg pool ps body repl_on u s w =
     (case run_concurrent E sched cfg (prepare_backend_params CREATE_MULTIPART_UPLOAD (AList.delete ''UploadId'' ps) None)
         CREATE_MULTIPART_UPLOAD pool body w of
        (Inl e, w) \<Rightarrow> (Inl e, s, w)
      | (Inr result, w) \<Rightarrow>
          (if \<not> quorum_met (length (successes result)) (sync_quorum cfg) then (Inl (best_failure (failures result)), s, w)
           else (case set_backend_upload_ids S u (native_upload_ids (successes result)) s of
               (Some e, s) \<Rightarrow> (Inl e, s, w)
             | (None, s) \<Rightarrow>
                 (case select_client_response (successes result) (response_backend cfg) of
                    Inl e \<Rightarrow> (Inl e, s, w)
                  | Inr response \<Rightarrow>
                      (let response = AList.update ''UploadId'' (VStr u) response in
                       if repl_on then
                         (case schedule_async_fill E mode topic cfg CREATE_MULTIPART_UPLOAD pool ps response (successes result) w of
                            (Some e, w) \<Rightarrow> (Inl e, s, w) | (None, w) \<Rightarrow> (Inr response, s, w))
                       else (Inr response, s, w))))))"

definition handle_create_multipart where
  "handle_create_multipart S E sched mode topic cfg pool ps body repl_on s w =
     (let (u, w) = draw_uuid E w in
      case create_session S (str_param ps ''Bucket'') (str_param ps ''Key'') u s of
        (Inl e, s) \<Rightarrow> (Inl e, s, w)
      | (Inr _, s) \<Rightarrow>
          (case create_on_backends S E sched mode topic cfg pool ps body repl_on u s w of
             (Inr response, s, w) \<Rightarrow> (Inr response, s, w)
           | (Inl e, s, w) \<Rightarrow>
               (case delete_session S u s of (Some e', s) \<Rightarrow> (Inl e', s, w) | (None, s) \<Rightarrow> (Inl e, s, w))))"

definition no_such_upload :: pyexc where
  "no_such_upload = OperationNotSupportedError (''The specified upload does not exist. '' @
     ''The upload ID may be invalid, or the upload may have been aborted.'') NO_SUCH_UPLOAD None"

definition load_session :: "'s store_ops \<Rightarrow> string \<Rightarrow> 's \<Rightarrow> pyexc + MultipartSession" where
  "load_session S u s = ebind (get_session S u s) (\<lambda>m. case m of None \<Rightarrow> Inl no_such_upload | Some m \<Rightarrow> Inr m)"

text \<open>\<open>int(params.get("PartNumber", 0))\<close>.\<close>

definition part_number_param :: "pdict \<Rightarrow> pyexc + int" where
  "part_number_param ps = (case map_of ps ''PartNumber'' of
      None \<Rightarrow> Inr 0
    | Some (VInt i) \<Rightarrow> Inr i
    | Some (VStr t) \<Rightarrow> (case py_int t of Some i \<Rightarrow> Inr i | None \<Rightarrow> Inl (PyValueError t))
    | Some _ \<Rightarrow> Inl (PyTypeError ''PartNumber''))"

definition backend_etags :: "(BackendClient \<times> pdict) list \<Rightarrow> (string \<times> string) list" where
  "backend_etags succ = py_dict (concat (map (\<lambda>(b, r).
     case map_of r ''ETag'' of None \<Rightarrow> [] | Some v \<Rightarrow> [(bc_name b, str_val v)]) succ))"

definition strategy_handle_upload_part where
  "strategy_handle_upload_part S E sched cfg pool ps body s w =
     (let u = str_param ps ''UploadId'' in
      case load_session S u s of
        Inl e \<Rightarrow> (Inl e, s, w)
      | Inr session \<Rightarrow>
          (case run_concurrent E sched cfg (prepare_backend_params UPLOAD_PART ps (Some session)) UPLOAD_PART pool body w of
             (Inl e, w) \<Rightarrow> (Inl e, s, w)
           | (Inr result, w) \<Rightarrow>
               (if \<not> quorum_met (length (successes result)) (sync_quorum cfg) then (Inl (best_failure (failures result)), s, w)
                else (case part_number_param ps of
                    Inl e \<Rightarrow> (Inl e, s, w)
                  | Inr n \<Rightarrow>
                      (case record_part_etags S u n (backend_etags (successes result)) s of
                         (Some e, s) \<Rightarrow> (Inl e, s, w)
                       | (None, s) \<Rightarrow> (select_client_response (successes result) (response_backend cfg), s, w))))))"

definition handle_complete_or_abort where
  "handle_complete_or_abort S E sched mode topic cfg op pool ps body repl_on s w =
     (let u = str_param ps ''UploadId'' in
      case load_session S u s of
        Inl e \<Rightarrow> (Inl e, s, w)
      | Inr session \<Rightarrow>
          (case run_concurrent E sched cfg (prepare_backend_params op ps (Some session)) op pool body w of
             (Inl e, w) \<Rightarrow> (Inl e, s, w)
           | (Inr result, w) \<Rightarrow>
               (case settle cfg (sync_quorum cfg) result of
                  Inl e \<Rightarrow> (Inl e, s, w)
                | Inr response \<Rightarrow>
                    (case delete_session S u s of
                       (Some e, s) \<Rightarrow> (Inl e, s, w)
                     | (None, s) \<Rightarrow>
                         if repl_on then
                           (case schedule_async_fill E mode topic cfg op pool ps response (successes result) w of
                              (Some e, w) \<Rightarrow> (Inl e, s, w) | (None, w) \<Rightarrow> (Inr response, s, w))
                         else (Inr response, s, w)))))"

definition distributed_execute where
  "distributed_execute S E sched mode topic cfg op pool ps body repl_on s w =
     (if op = CREATE_MULTIPART_UPLOAD then handle_create_multipart S E sched mode topic cfg pool ps body repl_on s w
      else if op = UPLOAD_PART then strategy_handle_upload_part S E sched cfg pool ps body s w
      else if op \<in> {COMPLETE_MULTIPART_UPLOAD, ABORT_MULTIPART_UPLOAD} then
        handle_complete_or_abort S E sched mode topic cfg op pool ps body repl_on s w
      else
        (case run_concurrent E sched cfg (prepare_backend_params op ps None) op pool body w of
           (Inl e, w) \<Rightarrow> (Inl e, s, w)
         | (Inr result, w) \<Rightarrow>
             (case settle cfg (sync_quorum cfg) result of
                Inl e \<Rightarrow> (Inl e, s, w)
              | Inr response \<Rightarrow>
                  if repl_on then
                    (case schedule_async_fill E mode topic cfg op pool ps response (successes result) w of
                       (Some e, w) \<Rightarrow> (Inl e, s, w) | (None, w) \<Rightarrow> (Inr response, s, w))
                  else (Inr response, s, w))))"

section \<open>Sessions and the upload they stand for\<close>

context session_store
begin

lemma load_session_law:
  "inv s \<Longrightarrow> load_session S u s = (case sessions s u of None \<Rightarrow> Inl no_such_upload | Some m \<Rightarrow> Inr m)"
  using get_law by (simp add: load_session_def split: option.split)

lemma create_on_backends_law:
  assumes "inv s" and "sessions s u = Some m"
    and "create_on_backends S E sched mode topic cfg pool ps body repl_on u s w = (res, s', w')"
  shows "inv s' \<and> (\<forall>v. v \<noteq> u \<longrightarrow> sessions s' v = sessions s v) \<and>
    (\<forall>response. res = Inr response \<longrightarrow> map_of response ''UploadId'' = Some (VStr u) \<and>
      (\<exists>result w1. run_concurrent E sched cfg (prepare_backend_params CREATE_MULTIPART_UPLOAD (AList.delete ''UploadId'' ps) None)
           CREATE_MULTIPART_UPLOAD pool body w = (Inr result, w1) \<and>
         quorum_met (length (successes result)) (sync_quorum cfg) \<and>
         sessions s' u = Some (m\<lparr>backend_upload_ids := native_upload_ids (successes result)\<rparr>)))"
proof -
  obtain r w1 where run: "run_concurrent E sched cfg (prepare_backend_params CREATE_MULTIPART_UPLOAD (AList.delete ''UploadId'' ps) None)
      CREATE_MULTIPART_UPLOAD pool body w = (r, w1)" by force
  show ?thesis
  proof (cases "\<exists>result. r = Inr result \<and> quorum_met (length (successes result)) (sync_quorum cfg)")
    case False
    then show ?thesis using assms run by (cases r) (auto simp: create_on_backends_def)
  next
    case True
    then obtain result where result: "r = Inr result" "quorum_met (length (successes result)) (sync_quorum cfg)" by blast
    obtain s1 where "set_backend_upload_ids S u (native_upload_ids (successes result)) s = (None, s1)" "inv s1"
      "sessions s1 = (sessions s)(u \<mapsto> m\<lparr>backend_upload_ids := native_upload_ids (successes result)\<rparr>)"
      using set_ids_known [OF assms(1,2), of "native_upload_ids (successes result)"]
      by (auto simp: native_upload_ids_def)
    with assms(3) run result show ?thesis
      by (auto simp: create_on_backends_def Let_def split: sum.splits if_splits prod.splits option.splits)
  qed
qed

lemma create_multipart_law:
  assumes "inv s" and "handle_create_multipart S E sched mode topic cfg pool ps body repl_on s w = (res, s', w')"
  shows "inv s' \<and> (\<forall>v. v \<noteq> uuid4 E (uuids_drawn w) \<longrightarrow> sessions s' v = sessions s v) \<and>
    (case res of
       Inl e \<Rightarrow> sessions s' (uuid4 E (uuids_drawn w)) = None
     | Inr response \<Rightarrow> map_of response ''UploadId'' = Some (VStr (uuid4 E (uuids_drawn w))) \<and>
         (\<exists>result w1 m. run_concurrent E sched cfg (prepare_backend_params CREATE_MULTIPART_UPLOAD (AList.delete ''UploadId'' ps) None)
              CREATE_MULTIPART_UPLOAD pool body (w\<lparr>uuids_drawn := uuids_drawn w + 1\<rparr>) = (Inr result, w1) \<and>
            quorum_met (length (successes result)) (sync_quorum cfg) \<and>
            sessions s' (uuid4 E (uuids_drawn w)) = Some m \<and> backend_upload_ids m = native_upload_ids (successes result) \<and>
            part_etags m = [] \<and> ms_bucket m = str_param ps ''Bucket'' \<and> ms_key m = str_param ps ''Key''))"
proof -
  let ?u = "uuid4 E (uuids_drawn w)" and ?w = "w\<lparr>uuids_drawn := uuids_drawn w + 1\<rparr>"
  let ?m = "new_session (str_param ps ''Bucket'') (str_param ps ''Key'') ?u"
  obtain s1 where s1: "create_session S (str_param ps ''Bucket'') (str_param ps ''Key'') ?u s = (Inr ?m, s1)" "inv s1"
    "sessions s1 = (sessions s)(?u \<mapsto> ?m)" using create_law [OF assms(1)] by blast
  obtain r s2 w2 where c: "create_on_backends S E sched mode topic cfg pool ps body repl_on ?u s1 ?w = (r, s2, w2)"
    by (metis prod_cases3)
  have "sessions s1 ?u = Some ?m" using s1(3) by simp
  note law = create_on_backends_law [OF s1(2) this c]
  obtain s3 where d: "delete_session S ?u s2 = (None, s3)" "inv s3" "sessions s3 = (sessions s2)(?u := None)"
    using delete_law law by blast
  show ?thesis
  proof (cases r)
    case (Inl e)
    then have "res = Inl e" "s' = s3"
      using assms(2) s1(1) c d(1) by (auto simp: handle_create_multipart_def draw_uuid_def)
    then show ?thesis using d law s1(3) by auto
  next
    case (Inr response)
    then have "res = Inr response" "s' = s2" "w' = w2"
      using assms(2) s1(1) c by (auto simp: handle_create_multipart_def draw_uuid_def)
    then show ?thesis using law s1(3) Inr by (auto simp: new_session_def)
  qed
qed

lemma upload_part_law:
  assumes "inv s" and "strategy_handle_upload_part S E sched cfg pool ps body s w = (res, s', w')"
  shows "case sessions s (str_param ps ''UploadId'') of
      None \<Rightarrow> res = Inl no_such_upload \<and> s' = s \<and> w' = w
    | Some m \<Rightarrow> inv s' \<and>
        (\<forall>response. res = Inr response \<longrightarrow> (\<exists>result n.
           run_concurrent E sched cfg (prepare_backend_params UPLOAD_PART ps (Some m)) UPLOAD_PART pool body w = (Inr result, w') \<and>
           settle cfg (sync_quorum cfg) result = Inr response \<and> part_number_param ps = Inr n \<and>
           sessions s' = (sessions s)(str_param ps ''UploadId'' \<mapsto>
             m\<lparr>part_etags := AList.update n (backend_etags (successes result)) (part_etags m)\<rparr>)))"
proof (cases "sessions s (str_param ps ''UploadId'')")
  case None
  then show ?thesis using assms load_session_law [OF assms(1)] by (auto simp: strategy_handle_upload_part_def)
next
  case (Some m)
  have rec: "\<exists>s'. record_part_etags S (str_param ps ''UploadId'') n (backend_etags (successes result)) s = (None, s') \<and> inv s' \<and>
      sessions s' = (sessions s)(str_param ps ''UploadId'' \<mapsto>
        m\<lparr>part_etags := AList.update n (backend_etags (successes result)) (part_etags m)\<rparr>)" for n result
    using record_etags_known [OF assms(1) Some] by (simp add: backend_etags_def)
  have ld: "load_session S (str_param ps ''UploadId'') s = Inr m" using load_session_law [OF assms(1)] Some by simp
  obtain r w1 where run: "run_concurrent E sched cfg (prepare_backend_params UPLOAD_PART ps (Some m)) UPLOAD_PART pool body w = (r, w1)"
    by force
  show ?thesis
  proof (cases "\<exists>result n. r = Inr result \<and> quorum_met (length (successes result)) (sync_quorum cfg) \<and> part_number_param ps = Inr n")
    case False
    then show ?thesis using Some assms ld run
      by (cases r; cases "part_number_param ps") (auto simp: strategy_handle_upload_part_def Let_def split: if_splits)
  next
    case True
    then obtain result n where result: "r = Inr result" "quorum_met (length (successes result)) (sync_quorum cfg)"
      "part_number_param ps = Inr n" by blast
    from rec [of n result] obtain s1 where s1: "record_part_etags S (str_param ps ''UploadId'') n (backend_etags (successes result)) s = (None, s1)"
      "inv s1" "sessions s1 = (sessions s)(str_param ps ''UploadId'' \<mapsto>
        m\<lparr>part_etags := AList.update n (backend_etags (successes result)) (part_etags m)\<rparr>)" by blast
    have "res = select_client_response (successes result) (response_backend cfg)" "s' = s1" "w' = w1"
      using assms(2) ld run result s1(1) by (simp_all add: strategy_handle_upload_part_def)
    then show ?thesis using Some run result s1 by (auto simp: settle_def)
  qed
qed

end


section \<open>From the uploaded parts to the completed object\<close>

lemma backend_parts_total:
  assumes "\<forall>p \<in> set parts. map_of (as_dict p) ''PartNumber'' \<noteq> None"
  shows "\<exists>out. backend_parts m name parts = Inr out \<and>
    (\<forall>n etags e p. map_of (part_etags m) n = Some etags \<longrightarrow> map_of etags name = Some e \<longrightarrow>
       p \<in> set parts \<longrightarrow> map_of (as_dict p) ''PartNumber'' = Some (VInt n) \<longrightarrow>
       VDict [(''PartNumber'', VInt n), (''ETag'', VStr e)] \<in> set out) \<and>
    (\<forall>q \<in> set out. \<exists>n etags e. q = VDict [(''PartNumber'', VInt n), (''ETag'', VStr e)] \<and>
       map_of (part_etags m) n = Some etags \<and> map_of etags name = Some e)"
  using assms
proof (induction parts)
  case (Cons p parts)
  then obtain out v where o: "backend_parts m name parts = Inr out" "map_of (as_dict p) ''PartNumber'' = Some v" by auto
  show ?case
  proof (cases v)
    case (VInt i)
    show ?thesis
    proof (cases "map_of (part_etags m) i")
      case None
      then show ?thesis using Cons o VInt by auto
    next
      case (Some d)
      then show ?thesis using Cons o VInt by (cases "map_of d name") auto
    qed
  qed (use Cons o in auto)
qed simp

lemma backend_etags_lookup:
  assumes "distinct (map (bc_name \<circ> fst) rs)" and "(c, Inr r) \<in> set rs" and "map_of r ''ETag'' = Some v"
  shows "map_of (backend_etags (successes (split_results rs))) (bc_name c) = Some (str_val v)"
proof -
  let ?f = "\<lambda>(b, r). case map_of r ''ETag'' of None \<Rightarrow> [] | Some v \<Rightarrow> [(bc_name b, str_val v)]"
  let ?s = "successes (split_results rs)"
  have sub: "set (map fst (concat (map ?f xs))) \<subseteq> bc_name ` fst ` set xs" for xs :: "(BackendClient \<times> pdict) list"
    by (auto split: option.splits intro: rev_image_eqI)
  have d: "distinct (map (bc_name \<circ> fst) xs) \<Longrightarrow> distinct (map fst (concat (map ?f xs)))" for xs :: "(BackendClient \<times> pdict) list"
  proof (induction xs)
    case (Cons x xs)
    then show ?case using sub [of xs] by (cases x) (auto simp: image_comp split: option.splits, force)
  qed simp
  have names: "map (bc_name \<circ> fst) (successes (split_results xs)) = map (bc_name \<circ> fst) (filter (\<lambda>(c, r). \<exists>x. r = Inr x) xs)" for xs
    by (induction xs) (auto simp: split_results_def split: sum.splits)
  have "distinct (map (bc_name \<circ> fst) ?s)"
    unfolding names by (rule filter_key_distinct [OF assms(1)])
  then have dist: "distinct (map fst (concat (map ?f ?s)))" by (rule d)
  have "(c, r) \<in> set ?s" using assms(2) by (simp add: split_results_simps)
  then have "(bc_name c, str_val v) \<in> set (concat (map ?f ?s))"
    using assms(3) by (force intro: bexI [of _ "(c, r)"])
  then show ?thesis using dist by (simp add: backend_etags_def py_dict_distinct map_of_is_SomeI)
qed

text \<open>
  \<open>completion_carries m c n v\<close>: with session \<open>m\<close>, every \<open>CompleteMultipartUpload\<close> that names part
  \<open>n\<close> is sent to backend \<open>c\<close> with that backend's upload id and with the ETag \<open>v\<close> for the part.
\<close>

definition completion_carries :: "MultipartSession \<Rightarrow> BackendClient \<Rightarrow> int \<Rightarrow> string \<Rightarrow> bool" where
  "completion_carries m c n v \<longleftrightarrow> (\<forall>cps.
     (\<forall>p \<in> set (client_parts cps). map_of (as_dict p) ''PartNumber'' \<noteq> None) \<longrightarrow>
     (\<exists>p \<in> set (client_parts cps). map_of (as_dict p) ''PartNumber'' = Some (VInt n)) \<longrightarrow>
     (\<exists>bp out. prepare_backend_params COMPLETE_MULTIPART_UPLOAD cps (Some m) c = Inr bp \<and>
        map_of bp ''MultipartUpload'' = Some (VDict [(''Parts'', VList out)]) \<and>
        VDict [(''PartNumber'', VInt n), (''ETag'', VStr v)] \<in> set out \<and>
        (\<forall>u. map_of (backend_upload_ids m) (bc_name c) = Some u \<and> u \<noteq> [] \<longrightarrow> map_of bp ''UploadId'' = Some (VStr u))))"

lemma completion_carriesI:
  assumes "map_of (part_etags m) n = Some etags" and "map_of etags (bc_name c) = Some v"
  shows "completion_carries m c n v"
  unfolding completion_carries_def
proof (intro allI impI)
  fix cps
  assume "\<forall>p \<in> set (client_parts cps). map_of (as_dict p) ''PartNumber'' \<noteq> None"
    and p: "\<exists>p \<in> set (client_parts cps). map_of (as_dict p) ''PartNumber'' = Some (VInt n)"
  from backend_parts_total [OF this(1), of m "bc_name c"] obtain out where
    "backend_parts m (bc_name c) (client_parts cps) = Inr out"
    "VDict [(''PartNumber'', VInt n), (''ETag'', VStr v)] \<in> set out" using assms p by metis
  then show "\<exists>bp out. prepare_backend_params COMPLETE_MULTIPART_UPLOAD cps (Some m) c = Inr bp \<and>
      map_of bp ''MultipartUpload'' = Some (VDict [(''Parts'', VList out)]) \<and>
      VDict [(''PartNumber'', VInt n), (''ETag'', VStr v)] \<in> set out \<and>
      (\<forall>u. map_of (backend_upload_ids m) (bc_name c) = Some u \<and> u \<noteq> [] \<longrightarrow> map_of bp ''UploadId'' = Some (VStr u))"
    by (auto simp: prepare_backend_params_def Let_def MULTIPART_OPERATIONS_def)
qed


section \<open>Witnesses\<close>

definition sample_session :: MultipartSession where
  "sample_session = \<lparr>ms_bucket = ''b'', ms_key = ''k'', canonical_upload_id = ''u'',
     backend_upload_ids = [(''p'', ''id1''), (''s1'', ''id2'')], part_etags = []\<rparr>"

definition sample_part :: pdict where
  "sample_part = [(''Bucket'', VStr ''b''), (''Key'', VStr ''k''), (''UploadId'', VStr ''u''), (''PartNumber'', VInt 1)]"

abbreviation sample_upload_part :: "(pyexc + pdict) \<times> memory_sessions \<times> unit world" where
  "sample_upload_part \<equiv> strategy_handle_upload_part memory_session_store sample_services reverse_sched (sample_sync (Some [''p'', ''s1'']))
     sample_pool sample_part (BodyStream [''ab'']) [(''u'', sample_session)] sample_world"

lemma sample_upload_part_ok: "fst sample_upload_part = Inr [(''ETag'', VStr ''e'')]"
  by code_simp



end
