(* ===== verification/Replication_Executor.thy ===== *)
theory Replication_Executor
  imports Write_Strategies Decimal
begin

text \<open>
  What the replication worker does with one message and one target:
  \<open>src/s3mer/kafka/replication_executor.py\<close>, with the settings of
  \<open>src/s3mer/kafka/subscribers_config.py\<close>.

  The result is an optional exception.  \<open>replication_result\<close> says what a normal return means: the
  target has accepted the operation, or the reason why there was nothing to apply was recorded as an
  outcome.
\<close>

record ReplicationRetryConfig =
  retry_delay :: int
  max_retry_delay :: int
  max_retries :: int
  skip_if_etag_matches :: bool

section \<open>The executor\<close>

definition key_val :: "string option \<Rightarrow> pyval" where
  "key_val k = (case k of None \<Rightarrow> VNone | Some s \<Rightarrow> VStr s)"

definition bucket_key :: "ReplicationMessage \<Rightarrow> pdict" where
  "bucket_key m = [(''Bucket'', VStr (msg_bucket m)), (''Key'', key_val (msg_key m))]"

definition apply_object_metadata :: "pdict \<Rightarrow> pdict \<Rightarrow> pdict" where
  "apply_object_metadata put_params metadata =
     fold (\<lambda>k ps. case map_of metadata k of None \<Rightarrow> ps | Some v \<Rightarrow> AList.update k v ps)
       REPLICATED_OBJECT_METADATA put_params"

definition outcome :: "ReplicationMessage \<Rightarrow> string \<Rightarrow> string \<Rightarrow> 'w world \<Rightarrow> 'w world" where
  "outcome m target what w = emit_metric (record_replication_consumer_outcome (msg_operation m) target what) w"

text \<open>
  The handlers \<open>except ClientError as e\<close>: an error with one of the given codes is recorded and
  swallowed, any other one is raised again.
\<close>

definition on_client_error ::
  "string list \<Rightarrow> string \<Rightarrow> ReplicationMessage \<Rightarrow> string \<Rightarrow> pyexc \<Rightarrow> 'w world \<Rightarrow> pyexc option \<times> 'w world" where
  "on_client_error swallowed what m target e w =
     (if isinstance_exc e CClientError then
        (case exc_response e of
           None \<Rightarrow> (Some (PyAttributeError ''get''), w)
         | Some r \<Rightarrow> if resp_code r \<in> Some ` set swallowed then (None, outcome m target what w) else (Some e, w))
      else (Some e, w))"

text \<open>A call on the target whose \<open>ClientError\<close>s of the given codes count as success.\<close>

definition apply_tolerant ::
  "'w services \<Rightarrow> BackendClient \<Rightarrow> S3Operation \<Rightarrow> pdict \<Rightarrow> string list \<Rightarrow> string \<Rightarrow> ReplicationMessage \<Rightarrow> 'w world \<Rightarrow> pyexc option \<times> 'w world" where
  "apply_tolerant E target op ps swallowed what m w =
     (case execute E target op ps BodyAbsent w of
        (Inr _, _, w) \<Rightarrow> (None, w)
      | (Inl e, _, w) \<Rightarrow> on_client_error swallowed what m (bc_name target) e w)"

definition apply_plain :: "'w services \<Rightarrow> BackendClient \<Rightarrow> S3Operation \<Rightarrow> pdict \<Rightarrow> body \<Rightarrow> 'w world \<Rightarrow> pyexc option \<times> 'w world" where
  "apply_plain E target op ps b w =
     (case execute E target op ps b w of (Inr _, _, w) \<Rightarrow> (None, w) | (Inl e, _, w) \<Rightarrow> (Some e, w))"

text \<open>A read from the source followed by \<open>k\<close>; a source that is gone ends the replication.\<close>

definition from_source ::
  "'w services \<Rightarrow> BackendClient \<Rightarrow> S3Operation \<Rightarrow> pdict \<Rightarrow> string list \<Rightarrow> ReplicationMessage \<Rightarrow> string \<Rightarrow> (pdict \<Rightarrow> 'w world \<Rightarrow> pyexc option \<times> 'w world) \<Rightarrow> 'w world \<Rightarrow> pyexc option \<times> 'w world" where
  "from_source E src op ps gone m target k w =
     (case execute E src op ps BodyAbsent w of
        (Inr r, _, w) \<Rightarrow> k r w
      | (Inl e, _, w) \<Rightarrow> on_client_error gone ''skipped_source_gone'' m target e w)"

definition head_etag :: "'w services \<Rightarrow> BackendClient \<Rightarrow> ReplicationMessage \<Rightarrow> 'w world \<Rightarrow> (pyexc + pyval) \<times> 'w world" where
  "head_etag E c m w =
     (if msg_key m = None then (Inr VNone, w)
      else (case execute E c HEAD_OBJECT (bucket_key m) BodyAbsent w of
          (Inr head, _, w) \<Rightarrow> (Inr (get_default head ''ETag'' VNone), w)
        | (Inl e, _, w) \<Rightarrow> if isinstance_exc e CClientError then (Inr VNone, w) else (Inl e, w)))"

text \<open>The comparison of the ETags; \<open>True\<close> ends the replication.\<close>

definition etag_check ::
  "'w services \<Rightarrow> ReplicationRetryConfig \<Rightarrow> ReplicationMessage \<Rightarrow> BackendClient \<Rightarrow> BackendClient \<Rightarrow> 'w world \<Rightarrow> (pyexc + bool) \<times> 'w world" where
  "etag_check E cfg m src target w =
     (if skip_if_etag_matches cfg \<and> truthy_str (msg_key m) then
        (case head_etag E src m w of
           (Inl e, w) \<Rightarrow> (Inl e, w)
         | (Inr se, w) \<Rightarrow>
             (case head_etag E target m w of
                (Inl e, w) \<Rightarrow> (Inl e, w)
              | (Inr te, w) \<Rightarrow>
                  if truthy se \<and> truthy te \<and> se = te
                  then (Inr True, outcome m (bc_name target) ''skipped_already_synced'' w)
                  else (Inr False, w)))
      else (Inr False, w))"

text \<open>\<open>int(content_length)\<close>.\<close>

fun int_val :: "pyval \<Rightarrow> pyexc + int" where
  "int_val (VInt i) = Inr i"
| "int_val (VBool b) = Inr (if b then 1 else 0)"
| "int_val (VStr s) = (case py_int s of Some i \<Rightarrow> Inr i | None \<Rightarrow> Inl (PyValueError s))"
| "int_val (VBytes s) = (case py_int s of Some i \<Rightarrow> Inr i | None \<Rightarrow> Inl (PyValueError s))"
| "int_val _ = Inl (PyTypeError ''int'')"

text \<open>
  The end of \<open>_replicate_put_object\<close>: \<open>int(content_length)\<close>, then \<open>async with body\<close>, which a
  streaming body supports and a byte string does not, then the write.
\<close>

definition put_to_target ::
  "'w services \<Rightarrow> BackendClient \<Rightarrow> pdict \<Rightarrow> pyval \<Rightarrow> pyval \<Rightarrow> 'w world \<Rightarrow> pyexc option \<times> 'w world" where
  "put_to_target E target put_params body_val content_length w =
     (case int_val content_length of
        Inl e \<Rightarrow> (Some e, w)
      | Inr n \<Rightarrow>
          (case body_val of
             VStreamBody bs \<Rightarrow>
               apply_plain E target PUT_OBJECT (AList.update ''ContentLength'' (VInt n) put_params)
                 (BodyStream (if bs = [] then [] else [bs])) w
           | _ \<Rightarrow> (Some (PyTypeError ''async context manager''), w)))"

text \<open>What follows a successful \<open>GetObject\<close>: the parameters, and the length when the message has none.\<close>

definition put_after_get ::
  "'w services \<Rightarrow> ReplicationMessage \<Rightarrow> BackendClient \<Rightarrow> BackendClient \<Rightarrow> pdict \<Rightarrow> 'w world \<Rightarrow> pyexc option \<times> 'w world" where
  "put_after_get E m src target get_response w =
     (case map_of get_response ''Body'' of
        None \<Rightarrow> (Some (PyKeyError ''Body''), w)
      | Some body_val \<Rightarrow>
          (let put_params = apply_object_metadata (bucket_key m) (msg_metadata m);
             cl = get_default (msg_metadata m) ''ContentLength'' VNone
           in if cl \<noteq> VNone then put_to_target E target put_params body_val cl w
              else from_source E src HEAD_OBJECT (bucket_key m) [''NoSuchKey'', ''NoSuchBucket''] m (bc_name target)
                 (\<lambda>head w. case map_of head ''ContentLength'' of
                      None \<Rightarrow> (Some (PyKeyError ''ContentLength''), w)
                    | Some cl \<Rightarrow> put_to_target E target put_params body_val cl w) w))"

definition replicate_put_object ::
  "'w services \<Rightarrow> ReplicationRetryConfig \<Rightarrow> ReplicationMessage \<Rightarrow> BackendClient \<Rightarrow> BackendClient \<Rightarrow> 'w world \<Rightarrow> pyexc option \<times> 'w world" where
  "replicate_put_object E cfg m src target w =
     (case etag_check E cfg m src target w of
        (Inl e, w) \<Rightarrow> (Some e, w)
      | (Inr True, w) \<Rightarrow> (None, w)
      | (Inr False, w) \<Rightarrow>
          from_source E src GET_OBJECT (bucket_key m) [''NoSuchKey'', ''NoSuchBucket''] m (bc_name target)
            (put_after_get E m src target) w)"

definition bucket_only :: "ReplicationMessage \<Rightarrow> pdict" where
  "bucket_only m = [(''Bucket'', VStr (msg_bucket m))]"

text \<open>The cases of \<open>replicate_operation\<close> for the configuration of a bucket, and the default case.\<close>

definition replicate_bucket_config ::
  "'w services \<Rightarrow> S3Operation \<Rightarrow> ReplicationMessage \<Rightarrow> BackendClient \<Rightarrow> BackendClient \<Rightarrow> 'w world \<Rightarrow> pyexc option \<times> 'w world" where
  "replicate_bucket_config E op m src target w =
     (case op of
        PUT_BUCKET_LIFECYCLE \<Rightarrow>
          from_source E src GET_BUCKET_LIFECYCLE (bucket_only m) [''NoSuchBucket'', ''NoSuchLifecycleConfiguration''] m (bc_name target)
            (\<lambda>lifecycle_resp. apply_plain E target PUT_BUCKET_LIFECYCLE
               (bucket_only m @ [(''LifecycleConfiguration'', VDict [(''Rules'', get_default lifecycle_resp ''Rules'' (VList []))])]) BodyAbsent) w
      | DELETE_BUCKET_LIFECYCLE \<Rightarrow>
          apply_tolerant E target DELETE_BUCKET_LIFECYCLE (bucket_only m) [''NoSuchBucket'', ''NoSuchLifecycleConfiguration''] ''skipped_already_absent'' m w
      | PUT_BUCKET_POLICY \<Rightarrow>
          from_source E src GET_BUCKET_POLICY (bucket_only m) [''NoSuchBucket'', ''NoSuchBucketPolicy''] m (bc_name target)
            (\<lambda>policy_resp w.
               let policy = get_default policy_resp ''Policy'' VNone in
               if truthy policy then apply_plain E target PUT_BUCKET_POLICY (bucket_only m @ [(''Policy'', policy)]) BodyAbsent w
               else (None, w)) w
      | DELETE_BUCKET_POLICY \<Rightarrow>
          apply_tolerant E target DELETE_BUCKET_POLICY (bucket_only m) [''NoSuchBucket'', ''NoSuchBucketPolicy''] ''skipped_already_absent'' m w
      | _ \<Rightarrow> (None, emit_metric (record_replication_consumer_outcome (op_value op) (bc_name target) ''skipped_unsupported'') w))"

definition replicate_operation ::
  "'w services \<Rightarrow> ReplicationRetryConfig \<Rightarrow> S3Operation \<Rightarrow> ReplicationMessage \<Rightarrow> BackendClient \<Rightarrow> BackendClient \<Rightarrow> 'w world \<Rightarrow> pyexc option \<times> 'w world" where
  "replicate_operation E cfg op m src target w =
     (case op of
        PUT_OBJECT \<Rightarrow> replicate_put_object E cfg m src target w
      | CREATE_BUCKET \<Rightarrow>
          apply_tolerant E target CREATE_BUCKET (bucket_only m) [''BucketAlreadyOwnedByYou'', ''BucketAlreadyExists''] ''skipped_already_present'' m w
      | DELETE_BUCKET \<Rightarrow>
          apply_tolerant E target DELETE_BUCKET (bucket_only m) [''NoSuchBucket''] ''skipped_already_absent'' m w
      | DELETE_OBJECT \<Rightarrow>
          apply_tolerant E target DELETE_OBJECT (bucket_key m) [''NoSuchKey''] ''skipped_already_absent'' m w
      | PUT_OBJECT_TAGGING \<Rightarrow>
          from_source E src GET_OBJECT_TAGGING (bucket_key m) [''NoSuchKey'', ''NoSuchBucket''] m (bc_name target)
            (\<lambda>tag_response. apply_plain E target PUT_OBJECT_TAGGING
               (bucket_key m @ [(''Tagging'', VDict [(''TagSet'', get_default tag_response ''TagSet'' (VList []))])]) BodyAbsent) w
      | DELETE_OBJECT_TAGGING \<Rightarrow>
          apply_tolerant E target DELETE_OBJECT_TAGGING (bucket_key m) [''NoSuchKey''] ''skipped_already_absent'' m w
      | _ \<Rightarrow> replicate_bucket_config E op m src target w)"

section \<open>What a normal return means\<close>

text \<open>An outcome recorded for the target between two states.\<close>

definition skipped :: "'w world \<Rightarrow> 'w world \<Rightarrow> string \<Rightarrow> string \<Rightarrow> bool" where
  "skipped w w' target what \<longleftrightarrow> (\<exists>x. Metric (record_replication_consumer_outcome x target what) \<in> set (effects w w'))"

definition SKIPS :: "string set" where
  "SKIPS = {''skipped_already_synced'', ''skipped_source_gone'', ''skipped_already_present'', ''skipped_already_absent'', ''skipped_unsupported''}"

lemma in_SKIPS [simp]:
  "''skipped_already_synced'' \<in> SKIPS" "''skipped_source_gone'' \<in> SKIPS" "''skipped_already_present'' \<in> SKIPS"
  "''skipped_already_absent'' \<in> SKIPS" "''skipped_unsupported'' \<in> SKIPS"
  by (simp_all add: SKIPS_def)

lemma effects_extends:
  assumes "extends w w1 cs" and "extends w1 w2 ds"
  shows "effects w w2 = effects w w1 @ effects w1 w2"
  using assms by (auto simp: extends_def effects_def)

lemma skipped_later: "extends w w1 cs \<Longrightarrow> extends w1 w2 ds \<Longrightarrow> skipped w1 w2 t what \<Longrightarrow> skipped w w2 t what"
  by (auto simp: skipped_def effects_extends)

lemma outcome_law: "extends w (outcome m t what w) []" "skipped w (outcome m t what w) t what"
  by (auto simp: outcome_def skipped_def intro: extends_emit)

lemma on_client_error_law:
  assumes "on_client_error cs what m t e w = (None, w')"
  shows "extends w w' [] \<and> skipped w w' t what"
  using assms outcome_law by (fastforce simp: on_client_error_def split: if_splits option.splits)

text \<open>
  \<open>settled w w' c op P\<close>: from \<open>w\<close> to \<open>w'\<close> an outcome was recorded for the target \<open>c\<close>, or calls that
  satisfy \<open>P\<close> were made that end with \<open>c\<close> accepting \<open>op\<close>.
\<close>

definition settled :: "'w world \<Rightarrow> 'w world \<Rightarrow> BackendClient \<Rightarrow> S3Operation \<Rightarrow> (call list \<Rightarrow> bytes \<Rightarrow> bool) \<Rightarrow> bool" where
  "settled w w' c op P \<longleftrightarrow> (\<exists>cs. extends w w' cs \<and>
     ((\<exists>what \<in> SKIPS. skipped w w' (bc_name c) what) \<or>
      (\<exists>ds d r. cs = ds @ [(bc_name c, op, d, Inr r)] \<and> P ds d)))"

lemma settled_after:
  assumes "extends w w1 cs" and "settled w1 w' c op P" and "\<And>ds d. P ds d \<Longrightarrow> Q (cs @ ds) d"
  shows "settled w w' c op Q"
proof -
  obtain es where es: "extends w1 w' es" "(\<exists>what \<in> SKIPS. skipped w1 w' (bc_name c) what) \<or>
      (\<exists>ds d r. es = ds @ [(bc_name c, op, d, Inr r)] \<and> P ds d)"
    using assms(2) by (auto simp: settled_def)
  have "(\<exists>what \<in> SKIPS. skipped w w' (bc_name c) what) \<or> (\<exists>ds d r. cs @ es = ds @ [(bc_name c, op, d, Inr r)] \<and> Q ds d)"
    using es(2)
  proof
    assume "\<exists>what \<in> SKIPS. skipped w1 w' (bc_name c) what"
    then show ?thesis using skipped_later [OF assms(1) es(1)] by blast
  next
    assume "\<exists>ds d r. es = ds @ [(bc_name c, op, d, Inr r)] \<and> P ds d"
    then show ?thesis using assms(3) by (metis append_assoc)
  qed
  then show ?thesis unfolding settled_def using extends_trans [OF assms(1) es(1)] by blast
qed

lemma skipped_settled:
  assumes "extends w w1 cs" and "extends w1 w' [] \<and> skipped w1 w' (bc_name c) what" and "what \<in> SKIPS"
  shows "settled w w' c op P"
proof -
  have "extends w w' (cs @ [])" using extends_trans [OF assms(1)] assms(2) by blast
  moreover have "skipped w w' (bc_name c) what" using skipped_later [OF assms(1)] assms(2) by blast
  ultimately show ?thesis unfolding settled_def using assms(3) by blast
qed

lemma apply_tolerant_settled:
  assumes "apply_tolerant E c op ps cds what m w = (None, w')" and "ready c" and "what \<in> SKIPS"
  shows "settled w w' c op (\<lambda>ds d. ds = [])"
proof -
  obtain r b w1 where x: "execute E c op ps BodyAbsent w = (r, b, w1)" by (metis prod_cases3)
  note one = execute_call [OF x assms(2)]
  show ?thesis
  proof (cases r)
    case (Inl e)
    then have "on_client_error cds what m (bc_name c) e w1 = (None, w')" using assms(1) x by (simp add: apply_tolerant_def)
    from skipped_settled [OF one on_client_error_law [OF this] assms(3)] show ?thesis .
  qed (use assms(1) x one in \<open>auto simp: apply_tolerant_def settled_def\<close>)
qed

lemma apply_plain_settled:
  assumes "apply_plain E c op ps b w = (None, w')" and "ready c"
  shows "settled w w' c op (\<lambda>ds d. ds = [] \<and> d = body_rest b)"
proof -
  obtain r b' w1 where x: "execute E c op ps b w = (r, b', w1)" by (metis prod_cases3)
  with assms(1) execute_call [OF x assms(2)] show ?thesis
    by (cases r) (auto simp: apply_plain_def settled_def)
qed

lemma from_source_settled:
  assumes "from_source E src rop ps gone m (bc_name c) k w = (None, w')" and "ready src"
    and "\<And>r w1. k r w1 = (None, w') \<Longrightarrow> settled w1 w' c op (P r)"
    and "\<And>r ds d. P r ds d \<Longrightarrow> Q ((bc_name src, rop, [], Inr r) # ds) d"
  shows "settled w w' c op Q"
proof -
  obtain r b w1 where x: "execute E src rop ps BodyAbsent w = (r, b, w1)" by (metis prod_cases3)
  note one = execute_call [OF x assms(2)]
  show ?thesis
  proof (cases r)
    case (Inl e)
    then have "on_client_error gone ''skipped_source_gone'' m (bc_name c) e w1 = (None, w')"
      using assms(1) x by (simp add: from_source_def)
    from skipped_settled [OF one on_client_error_law [OF this]] show ?thesis by simp
  next
    case (Inr resp)
    then have "k resp w1 = (None, w')" using assms(1) x by (simp add: from_source_def)
    from settled_after [OF one assms(3) [OF this]] assms(4) Inr show ?thesis by simp
  qed
qed

lemma put_to_target_settled:
  assumes "put_to_target E c pp bv cl w = (None, w')" and "ready c"
  shows "settled w w' c PUT_OBJECT (\<lambda>ds d. bv = VStreamBody d)"
proof -
  obtain n bs where b: "bv = VStreamBody bs"
    "apply_plain E c PUT_OBJECT (AList.update ''ContentLength'' (VInt n) pp) (BodyStream (if bs = [] then [] else [bs])) w = (None, w')"
    using assms(1) by (auto simp: put_to_target_def split: sum.splits pyval.splits)
  moreover have "body_rest (BodyStream (if bs = [] then [] else [bs])) = bs" by simp
  ultimately show ?thesis using apply_plain_settled [OF b(2) assms(2)] b(1) by (auto simp: settled_def)
qed

lemma head_etag_extends:
  assumes "head_etag E c m w = (r, w')" and "ready c"
  shows "\<exists>cs. extends w w' cs"
proof -
  obtain q b w1 where x: "execute E c HEAD_OBJECT (bucket_key m) BodyAbsent w = (q, b, w1)" by (metis prod_cases3)
  with assms(1) execute_call [OF x assms(2)] show ?thesis
    by (cases q) (auto simp: head_etag_def split: if_splits)
qed

lemma etag_check_law:
  assumes "etag_check E cfg m src c w = (Inr same, w')" and "ready src" and "ready c"
  shows "\<exists>cs. extends w w' cs \<and> (same \<longrightarrow> skipped w w' (bc_name c) ''skipped_already_synced'')"
proof (cases "skip_if_etag_matches cfg \<and> truthy_str (msg_key m)")
  case False
  then have "w' = w \<and> \<not> same" using assms(1) by (auto simp: etag_check_def)
  then show ?thesis using extends_refl by blast
next
  case True
  obtain se w1 where s: "head_etag E src m w = (se, w1)" by force
  obtain te w2 where t: "head_etag E c m w1 = (te, w2)" by force
  obtain cs ds where e: "extends w w1 cs" "extends w1 w2 ds"
    using head_etag_extends [OF s assms(2)] head_etag_extends [OF t assms(3)] by blast
  note two = extends_trans [OF e]
  have "w' = (if same then outcome m (bc_name c) ''skipped_already_synced'' w2 else w2)"
    using assms(1) True s t by (cases se; cases te) (auto simp: etag_check_def split: if_splits)
  then show ?thesis using two extends_trans [OF two outcome_law(1)] skipped_later [OF two outcome_law] by auto
qed

lemma settled_mono: "settled w w' c op P \<Longrightarrow> (\<And>ds d. P ds d \<Longrightarrow> Q ds d) \<Longrightarrow> settled w w' c op Q"
  using settled_after [OF extends_refl, of w w' c op P Q] by simp

lemma put_after_get_settled:
  assumes "put_after_get E m src c r w = (None, w')" and "ready src" and "ready c"
  shows "settled w w' c PUT_OBJECT (\<lambda>ds d. map_of r ''Body'' = Some (VStreamBody d))"
proof -
  let ?cl = "get_default (msg_metadata m) ''ContentLength'' VNone"
  obtain bv where bv: "map_of r ''Body'' = Some bv" using assms(1) by (cases "map_of r ''Body''") (auto simp: put_after_get_def)
  have put: "settled w1 w' c PUT_OBJECT (\<lambda>ds d. bv = VStreamBody d)"
    if "put_to_target E c (apply_object_metadata (bucket_key m) (msg_metadata m)) bv cl w1 = (None, w')" for cl w1
    by (rule put_to_target_settled [OF that assms(3)])
  let ?k = "\<lambda>head w. case map_of head ''ContentLength'' of
      None \<Rightarrow> (Some (PyKeyError ''ContentLength''), w)
    | Some cl \<Rightarrow> put_to_target E c (apply_object_metadata (bucket_key m) (msg_metadata m)) bv cl w"
  have head: "settled w1 w' c PUT_OBJECT (\<lambda>ds d. bv = VStreamBody d)" if "?k head w1 = (None, w')" for head w1
    using that put by (cases "map_of head ''ContentLength''") simp_all
  have "settled w w' c PUT_OBJECT (\<lambda>ds d. bv = VStreamBody d)"
  proof (cases "?cl = VNone")
    case False
    with assms(1) bv show ?thesis by (intro put) (simp add: put_after_get_def)
  next
    case True
    have "from_source E src HEAD_OBJECT (bucket_key m) [''NoSuchKey'', ''NoSuchBucket''] m (bc_name c) ?k w = (None, w')"
      using True assms(1) bv by (simp add: put_after_get_def)
    from from_source_settled [OF this assms(2) head] show ?thesis by simp
  qed
  then show ?thesis by (rule settled_mono) (simp add: bv)
qed

lemma replicate_put_settled:
  assumes "replicate_put_object E cfg m src c w = (None, w')" and "ready src" and "ready c"
  shows "settled w w' c PUT_OBJECT (\<lambda>ds d. \<exists>r. (bc_name src, GET_OBJECT, [], Inr r) \<in> set ds \<and> map_of r ''Body'' = Some (VStreamBody d))"
    (is "settled w w' c PUT_OBJECT ?copied")
proof -
  obtain same w1 where chk: "etag_check E cfg m src c w = (Inr same, w1)"
    using assms(1) by (cases "etag_check E cfg m src c w"; cases "fst (etag_check E cfg m src c w)") (auto simp: replicate_put_object_def)
  obtain cs where cs: "extends w w1 cs" "same \<longrightarrow> skipped w w1 (bc_name c) ''skipped_already_synced''"
    using etag_check_law [OF chk assms(2,3)] by blast
  show ?thesis
  proof (cases same)
    case True
    then have "w' = w1" using assms(1) chk by (simp add: replicate_put_object_def)
    then show ?thesis unfolding settled_def using cs True in_SKIPS(1) by blast
  next
    case False
    then have "from_source E src GET_OBJECT (bucket_key m) [''NoSuchKey'', ''NoSuchBucket''] m (bc_name c) (put_after_get E m src c) w1 = (None, w')"
      using assms(1) chk by (simp add: replicate_put_object_def)
    then have "settled w1 w' c PUT_OBJECT ?copied"
      by (rule from_source_settled [OF _ assms(2), where P = "\<lambda>r ds d. map_of r ''Body'' = Some (VStreamBody d)"])
        (use put_after_get_settled [OF _ assms(2,3)] in auto)
    then show ?thesis by (rule settled_after [OF cs(1)]) auto
  qed
qed

text \<open>
  C13. A replicated upload is a copy.  When the worker returns normally from replicating an upload,
  either it has recorded that the target already has the object or that the source has lost it, or
  its last call was accepted by the target as an upload of exactly the bytes that an earlier
  \<open>GetObject\<close> of this run read from the source.
\<close>

theorem replicated_put_is_a_copy:
  assumes "replicate_operation E cfg PUT_OBJECT m src target w = (None, w')" and "ready src" and "ready target"
  shows "\<exists>cs. extends w w' cs \<and> ((\<exists>what \<in> SKIPS. skipped w w' (bc_name target) what) \<or>
    (\<exists>ds bytes r resp. cs = ds @ [(bc_name target, PUT_OBJECT, bytes, Inr resp)] \<and>
       (bc_name src, GET_OBJECT, [], Inr r) \<in> set ds \<and> map_of r ''Body'' = Some (VStreamBody bytes)))"
proof -
  have "replicate_put_object E cfg m src target w = (None, w')" using assms(1) by (simp add: replicate_operation_def replicate_bucket_config_def)
  from replicate_put_settled [OF this assms(2,3)] show ?thesis unfolding settled_def by blast
qed

lemma settled_weaken: "settled w w' c op P \<Longrightarrow> settled w w' c op (\<lambda>ds d. True)"
  by (erule settled_mono) simp

text \<open>
  C18. The worker never drops an operation silently.  When it returns normally, the target accepted
  the operation in the last call, or an outcome that says why nothing had to be applied was recorded
  for the target; the one exception is a bucket policy that the source reports as empty.
\<close>

theorem replication_is_accounted_for:
  assumes "replicate_operation E cfg op m src target w = (None, w')" and "ready src" and "ready target"
  shows "\<exists>cs. extends w w' cs \<and> ((\<exists>what \<in> SKIPS. skipped w w' (bc_name target) what) \<or>
    (\<exists>ds d r. cs = ds @ [(bc_name target, op, d, Inr r)]) \<or>
    (op = PUT_BUCKET_POLICY \<and> (\<exists>r. cs = [(bc_name src, GET_BUCKET_POLICY, [], Inr r)] \<and> \<not> truthy (get_default r ''Policy'' VNone))))"
proof (cases "op = PUT_BUCKET_POLICY")
  case True
  obtain r b w1 where x: "execute E src GET_BUCKET_POLICY (bucket_only m) BodyAbsent w = (r, b, w1)" by (metis prod_cases3)
  note one = execute_call [OF x assms(2)]
  show ?thesis
  proof (cases "\<exists>resp. r = Inr resp \<and> \<not> truthy (get_default resp ''Policy'' VNone)")
    case True
    then show ?thesis using assms(1) \<open>op = PUT_BUCKET_POLICY\<close> x one
      by (auto simp: replicate_operation_def replicate_bucket_config_def from_source_def)
  next
    case False
    have "settled w w' target op (\<lambda>ds d. True)"
    proof (cases r)
      case (Inl e)
      then have "on_client_error [''NoSuchBucket'', ''NoSuchBucketPolicy''] ''skipped_source_gone'' m (bc_name target) e w1 = (None, w')"
        using assms(1) True x by (simp add: replicate_operation_def replicate_bucket_config_def from_source_def)
      from skipped_settled [OF one on_client_error_law [OF this]] show ?thesis by simp
    next
      case (Inr resp)
      then have "apply_plain E target PUT_BUCKET_POLICY (bucket_only m @ [(''Policy'', get_default resp ''Policy'' VNone)]) BodyAbsent w1 = (None, w')"
        using assms(1) True False x by (simp add: replicate_operation_def replicate_bucket_config_def from_source_def)
      from settled_after [OF one apply_plain_settled [OF this assms(3)]] True show ?thesis by simp
    qed
    then show ?thesis unfolding settled_def by blast
  qed
next
  case False
  have src: "settled w w' target op' (\<lambda>ds d. True)"
    if "from_source E src rop ps gone m (bc_name target) (\<lambda>r. apply_plain E target op' (f r) BodyAbsent) w = (None, w')" for op' rop ps gone f
    by (rule from_source_settled [OF that assms(2) settled_weaken [OF apply_plain_settled [OF _ assms(3)]]]) simp_all
  have un: "settled w w' target op' (\<lambda>ds d. True)"
    if "(None, emit_metric (record_replication_consumer_outcome x (bc_name target) ''skipped_unsupported'') w) = (None :: pyexc option, w')" for x op'
    using that extends_emit [of "[Metric (record_replication_consumer_outcome x (bc_name target) ''skipped_unsupported'')]" w]
    by (auto simp: settled_def skipped_def intro!: bexI [of _ "''skipped_unsupported''"])
  note tol = apply_tolerant_settled [OF _ assms(3), THEN settled_weaken]
  note put = replicate_put_settled [OF _ assms(2,3), THEN settled_weaken]
  have "settled w w' target op (\<lambda>ds d. True)"
    using assms(1) False
    unfolding replicate_operation_def replicate_bucket_config_def
    apply (cases op)
    apply (simp_all only: S3Operation.case)
    apply (erule put | (erule tol, simp) | erule un | erule src | simp)+
    done

  then show ?thesis unfolding settled_def by blast
qed

section \<open>Witnesses\<close>

definition copy_services :: "unit services" where
  "copy_services = sample_services\<lparr>s3_call := (\<lambda>n op ps b x.
     (Inr (if op = GET_OBJECT then [(''Body'', VStreamBody ''data'')] else [(''ContentLength'', VInt 4)]), b, 1, x))\<rparr>"

definition sample_config :: ReplicationRetryConfig where
  "sample_config = \<lparr>retry_delay = 1, max_retry_delay = 60, max_retries = 10, skip_if_etag_matches = False\<rparr>"

definition sample_secondary :: BackendClient where
  "sample_secondary = \<lparr>bc_name = ''s1'', is_primary = False, priority = 1, bc_type = BT_S3, started = True\<rparr>"

definition sample_message :: "S3Operation \<Rightarrow> ReplicationMessage" where
  "sample_message op = \<lparr>message_id = ''m'', msg_timestamp = 0, msg_operation = op_value op, msg_bucket = ''b'', msg_key = Some ''k'',
     source_backend = ''p'', target_backends = [''s1''], msg_metadata = [], retry_count = 0\<rparr>"

lemma sample_clients_ready: "ready sample_primary" "ready sample_secondary"
  by (simp_all add: ready_def sample_primary_def sample_secondary_def)

lemma sample_copy_ok:
  "fst (replicate_operation copy_services sample_config PUT_OBJECT (sample_message PUT_OBJECT) sample_primary sample_secondary sample_world) = None"
  by code_simp

theorem replicated_put_is_a_copy_witness:
  "\<exists>w' cs. replicate_operation copy_services sample_config PUT_OBJECT (sample_message PUT_OBJECT) sample_primary sample_secondary sample_world = (None, w') \<and>
     extends sample_world w' cs \<and> ((\<exists>what \<in> SKIPS. skipped sample_world w' ''s1'' what) \<or>
       (\<exists>ds bytes r resp. cs = ds @ [(''s1'', PUT_OBJECT, bytes, Inr resp)] \<and>
          (''p'', GET_OBJECT, [], Inr r) \<in> set ds \<and> map_of r ''Body'' = Some (VStreamBody bytes)))"
proof -
  obtain w' where q: "replicate_operation copy_services sample_config PUT_OBJECT (sample_message PUT_OBJECT) sample_primary sample_secondary sample_world = (None, w')"
    using sample_copy_ok by (metis prod.collapse)
  from replicated_put_is_a_copy [OF q sample_clients_ready] q show ?thesis
    by (simp add: sample_primary_def sample_secondary_def)
qed

lemma sample_delete_ok:
  "fst (replicate_operation copy_services sample_config DELETE_OBJECT (sample_message DELETE_OBJECT) sample_primary sample_secondary sample_world) = None"
  by code_simp

theorem replication_is_accounted_for_witness:
  "\<exists>w' cs. replicate_operation copy_services sample_config DELETE_OBJECT (sample_message DELETE_OBJECT) sample_primary sample_secondary sample_world = (None, w') \<and>
     extends sample_world w' cs \<and> ((\<exists>what \<in> SKIPS. skipped sample_world w' ''s1'' what) \<or>
       (\<exists>ds d r. cs = ds @ [(''s1'', DELETE_OBJECT, d, Inr r)]))"
proof -
  obtain w' where q: "replicate_operation copy_services sample_config DELETE_OBJECT (sample_message DELETE_OBJECT) sample_primary sample_secondary sample_world = (None, w')"
    using sample_delete_ok by (metis prod.collapse)
  from replication_is_accounted_for [OF q sample_clients_ready] q show ?thesis
    by (simp add: sample_secondary_def)
qed

text \<open>
  Replication from an in-memory source cannot succeed.  An in-memory backend answers
  \<open>GetObject\<close> with a byte string, which does not support \<open>async with\<close>: whenever the object exists
  the worker raises \<open>TypeError\<close>, which is classified as retryable.
\<close>

theorem memory_source_never_replicates:
  assumes "map_of get_response ''Body'' = Some (VBytes bs)" and "get_default (msg_metadata m) ''ContentLength'' VNone = VInt n"
  shows "put_after_get E m src target get_response w = (Some (PyTypeError ''async context manager''), w) \<and>
    classify (PyTypeError ''async context manager'') = FALLBACK"
  using assms by (simp add: put_after_get_def put_to_target_def classify_def retryable_classes_def)

theorem memory_source_never_replicates_witness:
  "put_after_get copy_services ((sample_message PUT_OBJECT)\<lparr>msg_metadata := [(''ContentLength'', VInt 2)]\<rparr>) sample_primary sample_secondary
     [(''Body'', VBytes ''ab'')] sample_world = (Some (PyTypeError ''async context manager''), sample_world)"
  using memory_source_never_replicates [of "[(''Body'', VBytes ''ab'')]" "''ab''" "(sample_message PUT_OBJECT)\<lparr>msg_metadata := [(''ContentLength'', VInt 2)]\<rparr>" 2
      copy_services sample_primary sample_secondary sample_world]
  by (simp add: get_default_def)

end
