(* ===== verification/Dead_Letters.thy ===== *)
theory Dead_Letters
  imports Replication_Executor
begin

text \<open>
  Dead letters and message validation of the replication worker: \<open>src/s3mer/kafka/dlq.py\<close> and
  \<open>src/s3mer/kafka/message_validation.py\<close>, and the consumer operations the worker uses.

  The Kafka consumer is code of a library: \<open>consumer_ops\<close> holds the operations the worker calls on
  it, each of which may raise, and \<open>k_sleep\<close>, what becomes of the consumer while a task sleeps
  (a rebalance, a shutdown).  Decoding a message (\<open>model_validate_json\<close>) is an argument as well;
  \<open>None\<close> is its \<open>ValidationError\<close>.
\<close>

section \<open>DlqPublisher\<close>

record DlqPublisher =
  dlq_base_topic :: string
  dlq_on :: bool
  dlq_topic_suffix :: string

definition topic_for :: "DlqPublisher \<Rightarrow> string \<Rightarrow> bool \<Rightarrow> string" where
  "topic_for q target per_backend =
     (if per_backend then dlq_base_topic q @ ''.'' @ target @ dlq_topic_suffix q
      else dlq_base_topic q @ dlq_topic_suffix q)"

definition dlq_publish :: "'w services \<Rightarrow> DlqPublisher \<Rightarrow> ReplicationDeadLetter \<Rightarrow> bool \<Rightarrow> 'w world \<Rightarrow> pyexc option \<times> 'w world" where
  "dlq_publish E q entry per_backend w =
     (if \<not> dlq_on q then (None, w)
      else
        (let topic = topic_for q (dl_target_backend entry) per_backend;
           m = original_message entry;
           key = msg_bucket m @ ''/'' @ (case msg_key m of None \<Rightarrow> [] | Some k \<Rightarrow> k);
           (r, x) = kafka_publish E topic key (DeadLetter entry) (ext w);
           w = emit [KafkaPublish topic key (DeadLetter entry) r] (w\<lparr>ext := x\<rparr>)
         in case r of Some e \<Rightarrow> (Some e, w) | None \<Rightarrow> (None, emit_metric (record_replication_dlq (dl_reason entry)) w)))"

section \<open>Validation and skips\<close>

definition dead_letter_reasons :: "string list" where
  "dead_letter_reasons = [''skipped_permanent'', ''skipped_max_retries'', ''skipped_poison'']"

definition record_skip ::
  "'w services \<Rightarrow> DlqPublisher option \<Rightarrow> string \<Rightarrow> string \<Rightarrow> string \<Rightarrow> int \<Rightarrow> int \<Rightarrow> string option \<Rightarrow> ReplicationMessage option \<Rightarrow> bool \<Rightarrow> 'w world \<Rightarrow> pyexc option \<times> 'w world" where
  "record_skip E q op target what prt offset err m per_backend w =
     (let w = emit_metric (record_replication_consumer_outcome op target what) w in
      case (q, m) of
        (Some q, Some m) \<Rightarrow>
          if what \<in> set dead_letter_reasons then
            dlq_publish E q \<lparr>original_message = m, dl_reason = what, dl_error = err, dl_target_backend = target,
              dl_partition = prt, dl_offset = offset, dl_timestamp = clock w\<rparr> per_backend w
          else (None, w)
      | _ \<Rightarrow> (None, w))"

definition parse_message ::
  "(string \<Rightarrow> ReplicationMessage option) \<Rightarrow> string \<Rightarrow> string \<Rightarrow> 'w world \<Rightarrow> ReplicationMessage option \<times> 'w world" where
  "parse_message decode msg_raw target w =
     (case decode msg_raw of
        Some m \<Rightarrow> (Some m, w)
      | None \<Rightarrow> (None, emit_metric (record_replication_consumer_outcome ''unknown'' target ''skipped_poison'') w))"

definition resolve_operation :: "ReplicationMessage \<Rightarrow> string \<Rightarrow> 'w world \<Rightarrow> S3Operation option \<times> 'w world" where
  "resolve_operation m target w =
     (case op_of_value (msg_operation m) of
        Some op \<Rightarrow> (Some op, w)
      | None \<Rightarrow> (None, emit_metric (record_replication_consumer_outcome (msg_operation m) target ''skipped_poison'') w))"

section \<open>The consumer\<close>

type_synonym topic_partition = "string \<times> int"

record 'k consumer_ops =
  k_available :: "'k \<Rightarrow> bool" \<comment> \<open>\<open>subscriber.consumer is not None\<close>\<close>
  k_assignment :: "'k \<Rightarrow> topic_partition list"
  k_seek :: "topic_partition \<Rightarrow> int \<Rightarrow> 'k \<Rightarrow> pyexc option \<times> 'k"
  k_pause :: "topic_partition \<Rightarrow> 'k \<Rightarrow> pyexc option \<times> 'k"
  k_resume :: "topic_partition list \<Rightarrow> 'k \<Rightarrow> pyexc option \<times> 'k"
  k_sleep :: "int \<Rightarrow> 'k \<Rightarrow> 'k"

definition pause_partition ::
  "'k consumer_ops \<Rightarrow> topic_partition \<Rightarrow> 'k \<Rightarrow> 'w world \<Rightarrow> pyexc option \<times> 'k \<times> 'w world" where
  "pause_partition C tp k w =
     (case k_pause C tp k of
        (Some e, k) \<Rightarrow> (Some e, k, w)
      | (None, k) \<Rightarrow> (None, k, emit [Metric (record_replication_partition_paused (fst tp) (snd tp)),
                              Metric (set_replication_paused_partition (fst tp) (snd tp) True)] w))"

definition resumed_metrics :: "topic_partition list \<Rightarrow> event list" where
  "resumed_metrics tps = concat (map (\<lambda>tp. [Metric (record_replication_partition_resumed (fst tp) (snd tp)),
     Metric (set_replication_paused_partition (fst tp) (snd tp) False)]) tps)"

definition resume_partitions ::
  "'k consumer_ops \<Rightarrow> topic_partition list \<Rightarrow> 'k \<Rightarrow> 'w world \<Rightarrow> pyexc option \<times> 'k \<times> 'w world" where
  "resume_partitions C tps k w =
     (case k_resume C tps k of
        (Some e, k) \<Rightarrow> (Some e, k, w)
      | (None, k) \<Rightarrow> (None, k, emit (resumed_metrics tps) w))"

section \<open>Growth of the trace\<close>

text \<open>Nothing the worker does removes an event: its steps only grow the trace.\<close>

definition grows :: "'w world \<Rightarrow> 'w world \<Rightarrow> bool" where
  "grows w w' \<longleftrightarrow> (\<exists>es. trace w' = trace w @ es)"

lemma grows_refl [simp, intro]: "grows w w"
  by (simp add: grows_def)

lemma grows_trans: "grows w w' \<Longrightarrow> grows w' w'' \<Longrightarrow> grows w w''"
  by (auto simp: grows_def)

lemma grows_emit [simp]: "grows w (emit es w)"
  by (simp add: grows_def)

lemma grows_ext [simp]: "grows w (emit es (w\<lparr>ext := x\<rparr>))" "grows w (emit es (w\<lparr>clock := t\<rparr>))"
  by (simp_all add: grows_def)

lemma extends_grows: "extends w w' cs \<Longrightarrow> grows w w'"
  by (auto simp: extends_def grows_def)

lemma effects_grows: "grows w w1 \<Longrightarrow> grows w1 w2 \<Longrightarrow> effects w w2 = effects w w1 @ effects w1 w2"
  by (auto simp: grows_def effects_def)

lemma dlq_publish_grows: "grows w (snd (dlq_publish E q entry pb w))"
  by (auto simp: dlq_publish_def Let_def grows_def split: prod.splits option.splits)

lemma resume_partitions_grows: "grows w (snd (snd (resume_partitions C tps k w)))"
  by (auto simp: resume_partitions_def split: prod.splits option.splits)

lemma pause_partition_grows: "grows w (snd (snd (pause_partition C tp k w)))"
  by (auto simp: pause_partition_def split: prod.splits option.splits)

lemma execute_grows: "execute E c op ps b w = (r, b', w') \<Longrightarrow> grows w w'"
  by (blast dest: execute_extends extends_grows)

lemma on_client_error_grows: "grows w (snd (on_client_error cs what m t e w))"
  by (auto simp: on_client_error_def outcome_def split: option.splits)

lemma apply_tolerant_grows: "grows w (snd (apply_tolerant E c op ps cs what m w))"
  by (auto simp: apply_tolerant_def split: prod.splits sum.splits
      dest!: execute_grows intro: grows_trans [OF _ on_client_error_grows])

lemma apply_plain_grows: "grows w (snd (apply_plain E c op ps b w))"
  by (auto simp: apply_plain_def split: prod.splits sum.splits dest!: execute_grows)

lemma from_source_grows:
  assumes "\<And>r w. grows w (snd (k r w))"
  shows "grows w (snd (from_source E src op ps gone m t k w))"
  by (auto simp: from_source_def split: prod.splits sum.splits
      dest!: execute_grows intro: grows_trans [OF _ on_client_error_grows] grows_trans [OF _ assms])

lemma head_etag_grows: "grows w (snd (head_etag E c m w))"
  by (auto simp: head_etag_def split: prod.splits sum.splits dest!: execute_grows)

lemma etag_check_grows: "grows w (snd (etag_check E cfg m src c w))"
proof -
  obtain se w1 where s: "head_etag E src m w = (se, w1)" by force
  obtain te w2 where t: "head_etag E c m w1 = (te, w2)" by force
  have g: "grows w w1" "grows w1 w2" using head_etag_grows [of w E src m] head_etag_grows [of w1 E c m] s t by simp_all
  note grows_trans [OF g] grows_trans [OF grows_trans [OF g] grows_emit]
  with s t g show ?thesis by (auto simp: etag_check_def outcome_def split: sum.splits)
qed

lemma put_to_target_grows: "grows w (snd (put_to_target E c pp bv cl w))"
  by (auto simp: put_to_target_def apply_plain_grows split: sum.splits pyval.splits)

lemma put_after_get_grows: "grows w (snd (put_after_get E m src c r w))"
  by (auto simp: put_after_get_def Let_def put_to_target_grows split: option.splits intro!: from_source_grows)

lemma replicate_put_object_grows: "grows w (snd (replicate_put_object E cfg m src c w))"
proof -
  obtain r w1 where c: "etag_check E cfg m src c w = (r, w1)" by force
  have g: "grows w w1" using etag_check_grows [of w E cfg m src c] c by simp
  note grows_trans [OF g from_source_grows [OF put_after_get_grows]]
  with c g show ?thesis by (auto simp: replicate_put_object_def split: sum.splits bool.splits)
qed

lemma replicate_operation_grows: "grows w (snd (replicate_operation E cfg op m src c w))"
  unfolding replicate_operation_def replicate_bucket_config_def
  by (cases op, simp_all only: S3Operation.case)
    (simp_all add: replicate_put_object_grows apply_tolerant_grows apply_plain_grows from_source_grows Let_def)

lemma skipped_grows:
  "grows w w1 \<Longrightarrow> grows w1 w2 \<Longrightarrow> skipped w w2 t what \<longleftrightarrow> skipped w w1 t what \<or> skipped w1 w2 t what"
  unfolding skipped_def by (frule (1) effects_grows) auto

text \<open>
  \<open>dead_lettered w w' target what\<close>: Kafka accepted a dead letter that names the target and the reason.
\<close>

definition dead_lettered :: "'w world \<Rightarrow> 'w world \<Rightarrow> string \<Rightarrow> string \<Rightarrow> bool" where
  "dead_lettered w w' target what \<longleftrightarrow> (\<exists>topic key entry. KafkaPublish topic key (DeadLetter entry) None \<in> set (effects w w') \<and>
     dl_target_backend entry = target \<and> dl_reason entry = what)"

lemma dead_lettered_grows:
  "grows w w1 \<Longrightarrow> grows w1 w2 \<Longrightarrow> dead_lettered w w2 t what \<longleftrightarrow> dead_lettered w w1 t what \<or> dead_lettered w1 w2 t what"
  unfolding dead_lettered_def by (frule (1) effects_grows) (simp only: set_append Un_iff, blast)

lemma dlq_publish_law:
  assumes "dlq_publish E q entry pb w = (None, w')" and "dlq_on q"
  shows "dead_lettered w w' (dl_target_backend entry) (dl_reason entry)"
  using assms
  by (auto simp: dlq_publish_def dead_lettered_def effects_def Let_def split: prod.splits option.splits)

text \<open>
  The book on a target is closed when its success is recorded, or when it is recorded as skipped for
  one of the dead-letter reasons and, with a dead-letter queue, a dead letter says so.
\<close>

definition dead_letters_on :: "DlqPublisher option \<Rightarrow> bool" where
  "dead_letters_on q = (case q of None \<Rightarrow> False | Some q \<Rightarrow> dlq_on q)"

definition given_up :: "DlqPublisher option \<Rightarrow> 'w world \<Rightarrow> 'w world \<Rightarrow> string \<Rightarrow> string \<Rightarrow> bool" where
  "given_up q w w' target what \<longleftrightarrow> what \<in> set dead_letter_reasons \<and> skipped w w' target what \<and>
     (dead_letters_on q \<longrightarrow> dead_lettered w w' target what)"

definition accounted :: "DlqPublisher option \<Rightarrow> 'w world \<Rightarrow> 'w world \<Rightarrow> string \<Rightarrow> bool" where
  "accounted q w w' target \<longleftrightarrow> skipped w w' target ''success'' \<or> (\<exists>what. given_up q w w' target what)"

lemma given_up_grows:
  "grows w w1 \<Longrightarrow> grows w1 w2 \<Longrightarrow> given_up q w w1 t what \<or> given_up q w1 w2 t what \<Longrightarrow> given_up q w w2 t what"
  unfolding given_up_def using skipped_grows [of w w1 w2 t] dead_lettered_grows [of w w1 w2 t] by blast

lemma accounted_grows:
  "grows w w1 \<Longrightarrow> grows w1 w2 \<Longrightarrow> accounted q w w1 t \<or> accounted q w1 w2 t \<Longrightarrow> accounted q w w2 t"
  unfolding accounted_def using skipped_grows [of w w1 w2 t] given_up_grows [of w w1 w2 q t] by blast

lemma success_accounted: "bc_name c = n \<Longrightarrow> accounted q w (outcome m n ''success'' w) n"
  using outcome_law by (auto simp: accounted_def)

lemma record_skip_grows: "grows w (snd (record_skip E q op target what p off err m pb w))"
  by (cases q; cases m) (simp_all add: record_skip_def Let_def grows_trans [OF grows_emit dlq_publish_grows])

lemma record_skip_law:
  assumes "record_skip E q op target what p off err (Some m) pb w = (None, w')" and "what \<in> set dead_letter_reasons"
  shows "given_up q w w' target what"
proof -
  let ?w = "emit_metric (record_replication_consumer_outcome op target what) w"
  have s: "skipped w ?w target what" by (auto simp: skipped_def)
  show ?thesis
  proof (cases q)
    case None
    then show ?thesis using assms s by (auto simp: record_skip_def given_up_def dead_letters_on_def)
  next
    case (Some d)
    let ?e = "\<lparr>original_message = m, dl_reason = what, dl_error = err, dl_target_backend = target,
        dl_partition = p, dl_offset = off, dl_timestamp = clock ?w\<rparr>"
    have d: "dlq_publish E d ?e pb ?w = (None, w')" using assms Some by (simp add: record_skip_def)
    then have g: "grows w ?w" "grows ?w w'" using dlq_publish_grows [of ?w E d ?e pb] by simp_all
    have "dlq_on d \<Longrightarrow> dead_lettered ?w w' target what" using dlq_publish_law [OF d] by simp
    then show ?thesis
      using assms(2) s Some skipped_grows [OF g] dead_lettered_grows [OF g] by (auto simp: given_up_def dead_letters_on_def)
  qed
qed

lemma record_skip_accounted:
  "record_skip E q op target what p off err (Some m) pb w = (None, w') \<Longrightarrow> what \<in> set dead_letter_reasons \<Longrightarrow> accounted q w w' target"
  by (auto simp: accounted_def dest: record_skip_law)

end
