(* ===== verification/Retry_Scheduler.thy ===== *)
theory Retry_Scheduler
  imports Dead_Letters
begin

text \<open>
  Background retries of the replication worker: \<open>src/s3mer/kafka/retry_scheduler.py\<close>.

  The two loops are \<open>while True\<close>.  One pass is a step function, and \<open>retry_loop\<close> iterates it: it is a
  partial function, so that a loop that never ends is the value \<open>None\<close>.  A loop that ends yields the
  exception that escaped the task, if any, the consumer and the world.
\<close>

section \<open>Iteration\<close>

datatype ('s, 'r) loop_verdict = Finish 'r | Again 's

partial_function (option) retry_loop :: "('s \<Rightarrow> ('s, 'r) loop_verdict) \<Rightarrow> 's \<Rightarrow> 'r option" where
  "retry_loop step s = (case step s of Finish r \<Rightarrow> Some r | Again s' \<Rightarrow> retry_loop step s')"

declare retry_loop.simps [code]

text \<open>An iteration whose state has an invariant and a decreasing measure ends, in a result of the last step.\<close>

lemma retry_loop_ends:
  assumes "I s"
    and "\<And>s. I s \<Longrightarrow> (\<exists>r. step s = Finish r \<and> Q r) \<or> (\<exists>s'. step s = Again s' \<and> I s' \<and> size_of s' < (size_of s :: nat))"
  shows "\<exists>r. retry_loop step s = Some r \<and> Q r"
  using assms(1)
proof (induction "size_of s" arbitrary: s rule: less_induct)
  case less
  show ?case
  proof (cases "step s")
    case (Finish r)
    then show ?thesis using assms(2) [OF less.prems] by (simp add: retry_loop.simps [of step s])
  next
    case (Again s')
    then show ?thesis using assms(2) [OF less.prems] less.hyps [of s'] by (simp add: retry_loop.simps [of step s])
  qed
qed

text \<open>An iteration that stays within states whose step is never final does not end.\<close>

lemma retry_loop_diverges:
  assumes "I s" and "\<And>s. I s \<Longrightarrow> \<exists>s'. step s = Again s' \<and> I s'"
  shows "retry_loop step s = None"
proof -
  have *: "st = step \<longrightarrow> \<not> I s" if "retry_loop st s = Some r" for st s r
  proof (rule retry_loop.raw_induct [OF _ that, where P = "\<lambda>st s r. st = step \<longrightarrow> \<not> I s"], intro impI notI)
    fix f st s r
    assume IH: "\<And>st s r. f st s = Some r \<Longrightarrow> st = step \<longrightarrow> \<not> I s" and "st = step" "I s"
      and f: "(case st s of Finish r \<Rightarrow> Some r | Again s' \<Rightarrow> f st s') = Some r"
    then obtain s' where "step s = Again s'" "I s'" using assms(2) by blast
    then show False using IH [of st s' r] f \<open>st = step\<close> by simp
  qed
  show ?thesis
  proof (cases "retry_loop step s")
    case (Some r)
    then show ?thesis using * [OF Some] assms(1) by blast
  qed
qed

section \<open>Parts of the loops\<close>

definition retry_delay_seconds :: "ReplicationRetryConfig \<Rightarrow> int \<Rightarrow> int" where
  "retry_delay_seconds cfg attempt = min (retry_delay cfg * 2 ^ nat (attempt - 1)) (max_retry_delay cfg)"

text \<open>The worker's own state: the consumer and \<open>_background_retries_in_flight\<close>.\<close>

record 'k worker =
  consumer :: 'k
  in_flight :: "(string \<times> int) list"

definition inc_background_retries :: "string \<Rightarrow> 'k worker \<Rightarrow> 'w world \<Rightarrow> 'k worker \<times> 'w world" where
  "inc_background_retries mode wk w =
     (let n = get_default (in_flight wk) mode 0 + 1
      in (wk\<lparr>in_flight := AList.update mode n (in_flight wk)\<rparr>, emit_metric (set_replication_background_retries_in_flight mode n) w))"

definition dec_background_retries :: "string \<Rightarrow> 'k worker \<Rightarrow> 'w world \<Rightarrow> 'k worker \<times> 'w world" where
  "dec_background_retries mode wk w =
     (let n = max 0 (get_default (in_flight wk) mode 0 - 1)
      in (wk\<lparr>in_flight := AList.update mode n (in_flight wk)\<rparr>, emit_metric (set_replication_background_retries_in_flight mode n) w))"

definition no_consumer :: pyexc where
  "no_consumer = PyRuntimeError ''Cannot advance consumer offset: consumer is not available''"

definition advance_consumer_offset ::
  "'k consumer_ops \<Rightarrow> topic_partition \<Rightarrow> int \<Rightarrow> topic_partition list option \<Rightarrow> 'k \<Rightarrow> 'w world \<Rightarrow> pyexc option \<times> 'k \<times> 'w world" where
  "advance_consumer_offset C tp offset to_resume k w =
     (if \<not> k_available C k then (Some no_consumer, k, w)
      else (case k_seek C tp (offset + 1) k of
          (Some e, k) \<Rightarrow> (Some e, k, w)
        | (None, k) \<Rightarrow>
            (case to_resume of
               Some (tp' # tps) \<Rightarrow> resume_partitions C (tp' # tps) k w
             | _ \<Rightarrow> resume_partitions C [tp] k w)))"

text \<open>\<open>subscriber.consumer.seek(...)\<close> followed by \<open>resume_partitions\<close>.\<close>

definition seek_and_resume ::
  "'k consumer_ops \<Rightarrow> topic_partition \<Rightarrow> int \<Rightarrow> topic_partition list \<Rightarrow> 'k \<Rightarrow> 'w world \<Rightarrow> pyexc option \<times> 'k \<times> 'w world" where
  "seek_and_resume C tp offset tps k w =
     (if \<not> k_available C k then (Some (PyAttributeError ''seek''), k, w)
      else (case k_seek C tp offset k of
          (Some e, k) \<Rightarrow> (Some e, k, w)
        | (None, k) \<Rightarrow> resume_partitions C tps k w))"

text \<open>\<open>asyncio.sleep(delay)\<close>.\<close>

definition sleep :: "int \<Rightarrow> 'w world \<Rightarrow> 'w world" where
  "sleep d w = emit [Slept d] (w\<lparr>clock := clock w + d\<rparr>)"

text \<open>A task of the worker: everything a retry needs to know of the failed message.\<close>

record retry_task =
  rt_tp :: topic_partition
  rt_offset :: int
  rt_assigned :: "topic_partition list"
  rt_message :: ReplicationMessage
  rt_operation :: S3Operation
  rt_source :: BackendClient
  rt_failed :: "string list"

section \<open>One target\<close>

datatype attempt_result = Replicated | Skipped | Retryable pyexc | Escaped pyexc

text \<open>
  Replicating to one target, with the handling of its errors: a permanent error is recorded (and the
  error of recording it escapes), any other one is left to a retry.
\<close>

definition attempt_target ::
  "'w services \<Rightarrow> ReplicationRetryConfig \<Rightarrow> DlqPublisher option \<Rightarrow> bool \<Rightarrow> S3Operation \<Rightarrow> ReplicationMessage \<Rightarrow> BackendClient \<Rightarrow> BackendClient \<Rightarrow> int \<Rightarrow> int \<Rightarrow> 'w world \<Rightarrow> attempt_result \<times> 'w world" where
  "attempt_target E cfg q per_backend op m src target prt offset w =
     (case replicate_operation E cfg op m src target w of
        (None, w) \<Rightarrow> (Replicated, outcome m (bc_name target) ''success'' w)
      | (Some e, w) \<Rightarrow>
          if classify e = FAIL then
            (case record_skip E q (msg_operation m) (bc_name target) ''skipped_permanent'' prt offset (Some (exc_str e)) (Some m) per_backend w of
               (Some e', w) \<Rightarrow> (Escaped e', w) | (None, w) \<Rightarrow> (Skipped, w))
          else (Retryable e, w))"

section \<open>schedule\_global\_retry\<close>

fun skip_all ::
  "'w services \<Rightarrow> DlqPublisher option \<Rightarrow> retry_task \<Rightarrow> string list \<Rightarrow> 'w world \<Rightarrow> pyexc option \<times> 'w world" where
  "skip_all E q t [] w = (None, w)"
| "skip_all E q t (n # ns) w =
     (case record_skip E q (msg_operation (rt_message t)) n ''skipped_max_retries'' (snd (rt_tp t)) (rt_offset t) None (Some (rt_message t)) False w of
        (Some e, w) \<Rightarrow> (Some e, w)
      | (None, w) \<Rightarrow> skip_all E q t ns w)"

fun retry_targets ::
  "'w services \<Rightarrow> ReplicationRetryConfig \<Rightarrow> DlqPublisher option \<Rightarrow> BackendPool \<Rightarrow> retry_task \<Rightarrow> string list \<Rightarrow> string list \<Rightarrow> 'w world \<Rightarrow> (pyexc + string list) \<times> 'w world" where
  "retry_targets E cfg q pool t [] still_failed w = (Inr still_failed, w)"
| "retry_targets E cfg q pool t (n # ns) still_failed w =
     (let m = rt_message t; w = emit_metric (record_replication_retry (msg_operation m) n) w in
      case pool_get pool n of
        Inl e \<Rightarrow> (Inl e, w)
      | Inr target \<Rightarrow>
          (case attempt_target E cfg q False (rt_operation t) m (rt_source t) target (snd (rt_tp t)) (rt_offset t) w of
             (Replicated, w) \<Rightarrow> retry_targets E cfg q pool t ns still_failed w
           | (Skipped, w) \<Rightarrow> retry_targets E cfg q pool t ns still_failed w
           | (Retryable e, w) \<Rightarrow> retry_targets E cfg q pool t ns (still_failed @ [n]) w
           | (Escaped e, w) \<Rightarrow> (Inl e, w)))"

definition global_retry_step ::
  "'w services \<Rightarrow> ReplicationRetryConfig \<Rightarrow> DlqPublisher option \<Rightarrow> BackendPool \<Rightarrow> 'k consumer_ops \<Rightarrow> retry_task \<Rightarrow>
   int \<times> string list \<times> 'k \<times> 'w world \<Rightarrow> (int \<times> string list \<times> 'k \<times> 'w world, pyexc option \<times> 'k \<times> 'w world) loop_verdict" where
  "global_retry_step E cfg q pool C t = (\<lambda>(attempt, failed, k, w).
     if attempt > max_retries cfg then
       (case skip_all E q t failed w of
          (Some e, w) \<Rightarrow> Finish (Some e, k, w)
        | (None, w) \<Rightarrow>
            (case advance_consumer_offset C (rt_tp t) (rt_offset t) (Some (rt_assigned t)) k w of
               (Some e, k, w) \<Rightarrow> Again (attempt + 1, failed, k, w)
             | (None, k, w) \<Rightarrow> Finish (None, k, w)))
     else
       (let d = retry_delay_seconds cfg attempt; w = sleep d w; k = k_sleep C d k in
        case retry_targets E cfg q pool t failed [] w of
          (Inl e, w) \<Rightarrow> Finish (Some e, k, w)
        | (Inr [], w) \<Rightarrow>
            (case seek_and_resume C (rt_tp t) (rt_offset t) (rt_assigned t) k w of
               (Some e, k, w) \<Rightarrow> Again (attempt + 1, failed, k, w)
             | (None, k, w) \<Rightarrow> Finish (None, k, w))
        | (Inr still_failed, w) \<Rightarrow> Again (attempt + 1, still_failed, k, w)))"

definition schedule_global_retry ::
  "'w services \<Rightarrow> ReplicationRetryConfig \<Rightarrow> DlqPublisher option \<Rightarrow> BackendPool \<Rightarrow> 'k consumer_ops \<Rightarrow> retry_task \<Rightarrow> 'k worker \<Rightarrow> 'w world \<Rightarrow> (pyexc option \<times> 'k worker \<times> 'w world) option" where
  "schedule_global_retry E cfg q pool C t wk w =
     (let (wk, w) = inc_background_retries ''batch'' wk w in
      case retry_loop (global_retry_step E cfg q pool C t) (1, rt_failed t, consumer wk, w) of
        None \<Rightarrow> None
      | Some (r, k, w) \<Rightarrow> (let (wk, w) = dec_background_retries ''batch'' (wk\<lparr>consumer := k\<rparr>) w in Some (r, wk, w)))"

section \<open>schedule\_per\_backend\_retry\<close>

definition per_backend_retry_step ::
  "'w services \<Rightarrow> ReplicationRetryConfig \<Rightarrow> DlqPublisher option \<Rightarrow> 'k consumer_ops \<Rightarrow> retry_task \<Rightarrow> BackendClient \<Rightarrow>
   int \<times> 'k \<times> 'w world \<Rightarrow> (int \<times> 'k \<times> 'w world, pyexc option \<times> 'k \<times> 'w world) loop_verdict" where
  "per_backend_retry_step E cfg q C t target = (\<lambda>(attempt, k, w).
     let m = rt_message t; name = bc_name target in
     if attempt > max_retries cfg then
       (case record_skip E q (msg_operation m) name ''skipped_max_retries'' (snd (rt_tp t)) (rt_offset t) None (Some m) True w of
          (Some e, w) \<Rightarrow> Finish (Some e, k, w)
        | (None, w) \<Rightarrow>
            (case advance_consumer_offset C (rt_tp t) (rt_offset t) None k w of
               (Some e, k, w) \<Rightarrow> Again (attempt + 1, k, w)
             | (None, k, w) \<Rightarrow> Finish (None, k, w)))
     else
       (let d = retry_delay_seconds cfg attempt; w = sleep d w; k = k_sleep C d k;
          w = emit_metric (record_replication_retry (msg_operation m) name) w;
          (failure, k, w) =
            (case replicate_operation E cfg (rt_operation t) m (rt_source t) target w of
               (Some e, w) \<Rightarrow> (Some e, k, w)
             | (None, w) \<Rightarrow> seek_and_resume C (rt_tp t) (rt_offset t) [rt_tp t] k (outcome m name ''success'' w))
        in case failure of
             None \<Rightarrow> Finish (None, k, w)
           | Some e \<Rightarrow>
               if classify e = FAIL then
                 (case record_skip E q (msg_operation m) name ''skipped_permanent'' (snd (rt_tp t)) (rt_offset t) (Some (exc_str e)) (Some m) True w of
                    (Some e', w) \<Rightarrow> Finish (Some e', k, w)
                  | (None, w) \<Rightarrow>
                      (case advance_consumer_offset C (rt_tp t) (rt_offset t) None k w of
                         (Some e', k, w) \<Rightarrow> Again (attempt + 1, k, w)
                       | (None, k, w) \<Rightarrow> Finish (None, k, w)))
               else Again (attempt + 1, k, w)))"

definition schedule_per_backend_retry ::
  "'w services \<Rightarrow> ReplicationRetryConfig \<Rightarrow> DlqPublisher option \<Rightarrow> 'k consumer_ops \<Rightarrow> retry_task \<Rightarrow> BackendClient \<Rightarrow> 'k worker \<Rightarrow> 'w world \<Rightarrow> (pyexc option \<times> 'k worker \<times> 'w world) option" where
  "schedule_per_backend_retry E cfg q C t target wk w =
     (let (wk, w) = inc_background_retries ''per_backend'' wk w in
      case retry_loop (per_backend_retry_step E cfg q C t target) (1, consumer wk, w) of
        None \<Rightarrow> None
      | Some (r, k, w) \<Rightarrow> (let (wk, w) = dec_background_retries ''per_backend'' (wk\<lparr>consumer := k\<rparr>) w in Some (r, wk, w)))"

section \<open>Backoff\<close>



section \<open>Laws of the parts\<close>

lemma pool_get_name: "pool_get pool n = Inr c \<Longrightarrow> bc_name c = n"
  by (auto simp: pool_get_def find_Some_iff split: option.splits)

lemma attempt_target_law:
  assumes "attempt_target E cfg q pb op m src c p off w = (r, w')"
  shows "grows w w'" and "r = Replicated \<or> r = Skipped \<Longrightarrow> accounted q w w' (bc_name c)"
proof -
  obtain x w1 where x: "replicate_operation E cfg op m src c w = (x, w1)" by force
  have g: "grows w w1" using replicate_operation_grows [of w E cfg op m src c] x by simp
  have "grows w w' \<and> (r = Replicated \<or> r = Skipped \<longrightarrow> accounted q w w' (bc_name c))"
  proof (cases x)
    case None
    then have "w' = outcome m (bc_name c) ''success'' w1" using assms x by (simp add: attempt_target_def)
    moreover have "grows w1 (outcome m (bc_name c) ''success'' w1)" by (simp add: outcome_def)
    ultimately show ?thesis
      using grows_trans [OF g] accounted_grows [OF g] success_accounted [of c "bc_name c"] by blast
  next
    case (Some e)
    show ?thesis
    proof (cases "classify e = FAIL")
      case True
      obtain y w2 where y: "record_skip E q (msg_operation m) (bc_name c) ''skipped_permanent'' p off (Some (exc_str e)) (Some m) pb w1 = (y, w2)"
        by force
      then have g2: "grows w1 w2" by (metis record_skip_grows snd_conv)
      have "y = None \<Longrightarrow> accounted q w1 w2 (bc_name c)"
        using record_skip_accounted [of E q _ _ _ p off _ m pb w1 w2] y by (simp add: dead_letter_reasons_def)
      moreover have "w' = w2" "r = (case y of Some e' \<Rightarrow> Escaped e' | None \<Rightarrow> Skipped)"
        using assms x Some True y by (auto simp: attempt_target_def split: option.splits)
      ultimately show ?thesis using accounted_grows [OF g g2] grows_trans [OF g g2] by (auto split: option.splits)
    next
      case False
      then show ?thesis using assms x Some g by (auto simp: attempt_target_def)
    qed
  qed
  then show "grows w w'" and "r = Replicated \<or> r = Skipped \<Longrightarrow> accounted q w w' (bc_name c)" by simp_all
qed

text \<open>
  \<open>open_or_closed q w w' ns rest\<close>: of the targets \<open>ns\<close>, those in \<open>rest\<close> are still to be retried and
  the book on the others is closed.
\<close>

definition open_or_closed :: "DlqPublisher option \<Rightarrow> 'w world \<Rightarrow> 'w world \<Rightarrow> string list \<Rightarrow> string list \<Rightarrow> bool" where
  "open_or_closed q w w' ns rest \<longleftrightarrow> grows w w' \<and> (\<forall>n \<in> set ns. n \<in> set rest \<or> accounted q w w' n)"

lemma open_or_closed_start: "open_or_closed q w w ns ns"
  by (simp add: open_or_closed_def)

lemma open_or_closed_trans:
  assumes "open_or_closed q w w1 ns ms" and "open_or_closed q w1 w2 ms rest"
  shows "open_or_closed q w w2 ns rest"
  using assms grows_trans [of w w1 w2] accounted_grows [of w w1 w2 q] unfolding open_or_closed_def by blast

lemma open_or_closed_grows: "grows w w' \<Longrightarrow> open_or_closed q w w' ns ns"
  by (simp add: open_or_closed_def)

lemma open_or_closed_Cons:
  assumes "grows w w1" and "n \<in> set rest \<or> accounted q w w1 n" and "open_or_closed q w1 w2 ns rest"
  shows "open_or_closed q w w2 (n # ns) rest"
  using assms grows_trans [of w w1 w2] accounted_grows [of w w1 w2 q] unfolding open_or_closed_def by auto

lemma retry_targets_law:
  assumes "retry_targets E cfg q pool t ns sf w = (res, w')"
  shows "grows w w' \<and> (\<forall>rest. res = Inr rest \<longrightarrow> set sf \<subseteq> set rest \<and> open_or_closed q w w' ns rest)"
  using assms
proof (induction ns arbitrary: sf w)
  case Nil
  then show ?case by (auto simp: open_or_closed_def)
next
  case (Cons n ns)
  let ?w = "emit_metric (record_replication_retry (msg_operation (rt_message t)) n) w"
  show ?case
  proof (cases "pool_get pool n")
    case (Inl e)
    then show ?thesis using Cons.prems by (auto simp: Let_def)
  next
    case (Inr c)
    obtain r w1 where a: "attempt_target E cfg q False (rt_operation t) (rt_message t) (rt_source t) c (snd (rt_tp t)) (rt_offset t) ?w = (r, w1)"
      by force
    note law = attempt_target_law [OF a, unfolded pool_get_name [OF Inr]]
    have g: "grows w w1" using grows_trans [OF grows_emit law(1)] .
    have acc: "r = Replicated \<or> r = Skipped \<Longrightarrow> accounted q w w1 n" using law accounted_grows [OF grows_emit law(1)] by blast
    show ?thesis
    proof (cases "\<exists>e. r = Escaped e")
      case True
      then show ?thesis using Cons.prems Inr a g by (auto simp: Let_def)
    next
      case False
      let ?sf = "if r = Replicated \<or> r = Skipped then sf else sf @ [n]"
      have rec: "retry_targets E cfg q pool t ns ?sf w1 = (res, w')"
        using Cons.prems Inr a False by (cases r) (auto simp: Let_def)
      note IH = Cons.IH [OF rec]
      have "open_or_closed q w w' (n # ns) rest" if "res = Inr rest" for rest
        by (rule open_or_closed_Cons [OF g]) (use IH that acc in \<open>auto split: if_splits\<close>)
      then show ?thesis using IH grows_trans [OF g] by (auto split: if_splits)
    qed
  qed
qed

lemma skip_all_law:
  assumes "skip_all E q t ns w = (r, w')"
  shows "grows w w' \<and> (r = None \<longrightarrow> (\<forall>n \<in> set ns. given_up q w w' n ''skipped_max_retries''))"
  using assms
proof (induction ns arbitrary: w)
  case (Cons n ns)
  obtain y w1 where y: "record_skip E q (msg_operation (rt_message t)) n ''skipped_max_retries'' (snd (rt_tp t)) (rt_offset t) None (Some (rt_message t)) False w = (y, w1)"
    by force
  then have g: "grows w w1" by (metis record_skip_grows snd_conv)
  show ?case
  proof (cases y)
    case None
    then have rec: "skip_all E q t ns w1 = (r, w')" using Cons.prems y by simp
    have "given_up q w w1 n ''skipped_max_retries''"
      using record_skip_law [of E q _ _ _ _ _ _ _ False w w1] y None by (simp add: dead_letter_reasons_def)
    then show ?thesis using Cons.IH [OF rec] grows_trans [OF g] given_up_grows [OF g] by auto
  qed (use Cons.prems y g in auto)
qed auto

lemma advance_consumer_offset_grows: "grows w (snd (snd (advance_consumer_offset C tp off tps k w)))"
  by (auto simp: advance_consumer_offset_def resume_partitions_grows split: prod.splits option.splits list.splits)

lemma seek_and_resume_grows: "grows w (snd (snd (seek_and_resume C tp off tps k w)))"
  by (auto simp: seek_and_resume_def resume_partitions_grows split: prod.splits option.splits)

lemma sleep_grows: "grows w (sleep d w)"
  by (simp add: sleep_def)

section \<open>With a working dead-letter queue no exception escapes\<close>

definition dead_letters_accepted :: "'w services \<Rightarrow> bool" where
  "dead_letters_accepted E \<longleftrightarrow> (\<forall>topic key p x. fst (kafka_publish E topic key p x) = None)"

lemma record_skip_accepted:
  assumes "dead_letters_accepted E"
  shows "fst (record_skip E q op target what p off err m pb w) = None"
  using assms by (auto simp: record_skip_def dlq_publish_def dead_letters_accepted_def Let_def split: option.splits prod.splits)
    (metis fst_conv option.distinct(1))+

lemma attempt_target_accepted:
  assumes "dead_letters_accepted E"
  shows "fst (attempt_target E cfg q pb op m src c p off w) \<noteq> Escaped e"
  using record_skip_accepted [OF assms, of q "msg_operation m" "bc_name c" "''skipped_permanent''" p off _ "Some m" pb]
  by (auto simp: attempt_target_def split: prod.splits option.splits) (metis fst_conv option.distinct(1))+

text \<open>Targets the pool knows.\<close>

definition known :: "BackendPool \<Rightarrow> string list \<Rightarrow> bool" where
  "known pool ns \<longleftrightarrow> (\<forall>n \<in> set ns. \<exists>c. pool_get pool n = Inr c)"

lemma skip_all_accepted: "dead_letters_accepted E \<Longrightarrow> fst (skip_all E q t ns w) = None"
proof (induction ns arbitrary: w)
  case (Cons n ns)
  then show ?case
    using record_skip_accepted [OF Cons.prems, of q "msg_operation (rt_message t)" n "''skipped_max_retries''" "snd (rt_tp t)" "rt_offset t" None
        "Some (rt_message t)" False w]
    by (auto split: prod.split option.split)
qed simp

lemma retry_targets_accepted:
  assumes "dead_letters_accepted E" and "known pool ns" and "known pool sf"
  shows "\<exists>rest w'. retry_targets E cfg q pool t ns sf w = (Inr rest, w') \<and> known pool rest"
  using assms(2,3)
proof (induction ns arbitrary: sf w)
  case (Cons n ns)
  then obtain c where c: "pool_get pool n = Inr c" by (auto simp: known_def)
  let ?w = "emit_metric (record_replication_retry (msg_operation (rt_message t)) n) w"
  obtain r w1 where a: "attempt_target E cfg q False (rt_operation t) (rt_message t) (rt_source t) c (snd (rt_tp t)) (rt_offset t) ?w = (r, w1)"
    by force
  then have "\<nexists>e. r = Escaped e" using attempt_target_accepted [OF assms(1)] by (metis fst_conv)
  then have "retry_targets E cfg q pool t (n # ns) sf w = retry_targets E cfg q pool t ns (if r = Replicated \<or> r = Skipped then sf else sf @ [n]) w1"
    using c a by (cases r) (auto simp: Let_def)
  moreover have "known pool ns" "known pool (sf @ [n])" using Cons.prems c by (auto simp: known_def)
  ultimately show ?case using Cons by (cases "r = Replicated \<or> r = Skipped") simp_all
qed simp

section \<open>With a working consumer every retry ends\<close>

text \<open>A consumer that is available and whose calls succeed, in all states with the property \<open>K\<close>.\<close>

definition healthy :: "'k consumer_ops \<Rightarrow> ('k \<Rightarrow> bool) \<Rightarrow> bool" where
  "healthy C K \<longleftrightarrow> (\<forall>k. K k \<longrightarrow> k_available C k \<and>
     (\<forall>tp off. fst (k_seek C tp off k) = None \<and> K (snd (k_seek C tp off k))) \<and>
     (\<forall>tps. fst (k_resume C tps k) = None \<and> K (snd (k_resume C tps k))) \<and> (\<forall>d. K (k_sleep C d k)))"

lemma healthy_resume:
  assumes "healthy C K" and "K k"
  shows "\<exists>k' w'. resume_partitions C tps k w = (None, k', w') \<and> K k' \<and> grows w w'"
proof -
  obtain k1 where k: "k_resume C tps k = (None, k1)" "K k1"
    using assms unfolding healthy_def by (metis prod.collapse)
  then show ?thesis by (simp add: resume_partitions_def)
qed

lemma healthy_advance:
  assumes "healthy C K" and "K k"
  shows "\<exists>k' w'. advance_consumer_offset C tp off tps k w = (None, k', w') \<and> K k' \<and> grows w w'"
proof -
  obtain k1 where k: "k_available C k" "k_seek C tp (off + 1) k = (None, k1)" "K k1"
    using assms unfolding healthy_def by (metis prod.collapse)
  note healthy_resume [OF assms(1) k(3)]
  with k show ?thesis by (auto simp: advance_consumer_offset_def split: option.splits list.splits)
qed

lemma healthy_seek:
  assumes "healthy C K" and "K k"
  shows "\<exists>k' w'. seek_and_resume C tp off tps k w = (None, k', w') \<and> K k' \<and> grows w w'"
proof -
  obtain k1 where k: "k_available C k" "k_seek C tp off k = (None, k1)" "K k1"
    using assms unfolding healthy_def by (metis prod.collapse)
  note healthy_resume [OF assms(1) k(3)]
  with k show ?thesis by (auto simp: seek_and_resume_def)
qed

lemma healthy_sleep: "healthy C K \<Longrightarrow> K k \<Longrightarrow> K (k_sleep C d k)"
  by (simp add: healthy_def)

lemma accounted_skip: "given_up q w w' n what \<Longrightarrow> accounted q w w' n"
  by (auto simp: accounted_def)

lemma global_retry_step_law:
  assumes "healthy C K" and "K k" and "open_or_closed q w0 w ns failed" and "dead_letters_accepted E" and "known pool failed"
  shows "(\<exists>k' w'. global_retry_step E cfg q pool C t (attempt, failed, k, w) = Finish (None, k', w') \<and>
        grows w0 w' \<and> (\<forall>n \<in> set ns. accounted q w0 w' n)) \<or>
    (\<exists>failed' k' w'. global_retry_step E cfg q pool C t (attempt, failed, k, w) = Again (attempt + 1, failed', k', w') \<and>
        K k' \<and> open_or_closed q w0 w' ns failed' \<and> known pool failed' \<and> attempt \<le> max_retries cfg)"
proof (cases "attempt > max_retries cfg")
  case True
  obtain w1 where s: "skip_all E q t failed w = (None, w1)" using skip_all_accepted [OF assms(4)] by (metis prod.collapse)
  note law = skip_all_law [OF s]
  obtain k' w' where a: "advance_consumer_offset C (rt_tp t) (rt_offset t) (Some (rt_assigned t)) k w1 = (None, k', w')" "grows w1 w'"
    using healthy_advance [OF assms(1,2)] by blast
  have "open_or_closed q w w1 failed []" using law by (auto simp: open_or_closed_def accounted_skip)
  then have "open_or_closed q w0 w1 ns []" by (rule open_or_closed_trans [OF assms(3)])
  then have "open_or_closed q w0 w' ns []" by (rule open_or_closed_trans [OF _ open_or_closed_grows [OF a(2)]])
  with True s a show ?thesis by (simp add: global_retry_step_def open_or_closed_def)
next
  case False
  let ?d = "retry_delay_seconds cfg attempt"
  obtain still w1 where x: "retry_targets E cfg q pool t failed [] (sleep ?d w) = (Inr still, w1)" and still: "known pool still"
    using retry_targets_accepted [OF assms(4,5)] by (metis known_def empty_iff list.set(1))
  note law = retry_targets_law [OF x]
  then have oc: "open_or_closed q w0 w1 ns still"
    using open_or_closed_trans [OF assms(3) open_or_closed_trans [OF open_or_closed_grows [OF sleep_grows]]] by blast
  show ?thesis
  proof (cases still)
    case Nil
    obtain k' w' where a: "seek_and_resume C (rt_tp t) (rt_offset t) (rt_assigned t) (k_sleep C ?d k) w1 = (None, k', w')" "grows w1 w'"
      using healthy_seek [OF assms(1) healthy_sleep [OF assms(1,2)]] by blast
    have "open_or_closed q w0 w' ns []" using open_or_closed_trans [OF oc open_or_closed_grows [OF a(2)]] Nil by simp
    with False x Nil a show ?thesis by (simp add: global_retry_step_def Let_def open_or_closed_def)
  next
    case (Cons n ns')
    with False x oc still healthy_sleep [OF assms(1,2)] show ?thesis by (auto simp: global_retry_step_def Let_def)
  qed
qed

lemma inc_background_retries_law:
  "inc_background_retries mode wk w = (wk', w') \<Longrightarrow> consumer wk' = consumer wk \<and> grows w w'"
  by (auto simp: inc_background_retries_def Let_def)

lemma dec_background_retries_law:
  "dec_background_retries mode wk w = (wk', w') \<Longrightarrow> consumer wk' = consumer wk \<and> grows w w'"
  by (auto simp: dec_background_retries_def Let_def)

lemma accounted_within:
  "grows w w1 \<Longrightarrow> grows w1 w2 \<Longrightarrow> grows w2 w3 \<Longrightarrow> accounted q w1 w2 n \<Longrightarrow> accounted q w w3 n"
  using accounted_grows grows_trans by blast

lemma global_retry_law:
  assumes "healthy C K" and "K (consumer wk)" and "dead_letters_accepted E" and "known pool (rt_failed t)"
  shows "\<exists>wk' w'. schedule_global_retry E cfg q pool C t wk w = Some (None, wk', w') \<and> grows w w' \<and>
    (\<forall>n \<in> set (rt_failed t). accounted q w w' n)"
proof -
  obtain wk1 w1 where i: "inc_background_retries ''batch'' wk w = (wk1, w1)" by force
  note inc = inc_background_retries_law [OF i]
  let ?I = "\<lambda>(attempt :: int, failed, k, w). K k \<and> open_or_closed q w1 w (rt_failed t) failed \<and> known pool failed"
  let ?Q = "\<lambda>(r, k, w'). r = None \<and> grows w1 w' \<and> (\<forall>n \<in> set (rt_failed t). accounted q w1 w' n)"
  have "\<exists>y. retry_loop (global_retry_step E cfg q pool C t) (1, rt_failed t, consumer wk1, w1) = Some y \<and> ?Q y"
  proof (rule retry_loop_ends [where I = ?I and size_of = "\<lambda>s. nat (max_retries cfg + 1 - fst s)"])
    show "?I (1, rt_failed t, consumer wk1, w1)" using inc assms(2,4) open_or_closed_start by simp
  next
    fix s assume "?I s"
    then show "(\<exists>r. global_retry_step E cfg q pool C t s = Finish r \<and> ?Q r) \<or>
      (\<exists>s'. global_retry_step E cfg q pool C t s = Again s' \<and> ?I s' \<and>
         nat (max_retries cfg + 1 - fst s') < nat (max_retries cfg + 1 - fst s))"
      using global_retry_step_law [OF assms(1) _ _ assms(3), of "fst (snd (snd s))" q w1 "snd (snd (snd s))" "rt_failed t" "fst (snd s)" pool cfg t "fst s"]
      by (cases s) auto
  qed
  then obtain k w2 where l: "retry_loop (global_retry_step E cfg q pool C t) (1, rt_failed t, consumer wk1, w1) = Some (None, k, w2)"
    and Q: "grows w1 w2" "\<forall>n \<in> set (rt_failed t). accounted q w1 w2 n" by auto
  obtain wk3 w3 where d: "dec_background_retries ''batch'' (wk1\<lparr>consumer := k\<rparr>) w2 = (wk3, w3)" by force
  note dec = dec_background_retries_law [OF d]
  have "schedule_global_retry E cfg q pool C t wk w = Some (None, wk3, w3)" using i l d by (simp add: schedule_global_retry_def)
  moreover have "grows w w3" using inc Q dec grows_trans by blast
  ultimately show ?thesis using inc Q dec accounted_within [of w w1 w2 w3 q] by blast
qed

lemma per_backend_retry_step_law:
  assumes "healthy C K" and "K k" and "grows w0 w" and "dead_letters_accepted E"
  shows "(\<exists>k' w'. per_backend_retry_step E cfg q C t target (attempt, k, w) = Finish (None, k', w') \<and>
        grows w0 w' \<and> accounted q w0 w' (bc_name target)) \<or>
    (\<exists>k' w'. per_backend_retry_step E cfg q C t target (attempt, k, w) = Again (attempt + 1, k', w') \<and>
        K k' \<and> grows w0 w' \<and> attempt \<le> max_retries cfg)"
proof -
  let ?m = "rt_message t" and ?n = "bc_name target" and ?d = "retry_delay_seconds cfg attempt"
  have skip: "\<exists>k' w'. (case record_skip E q (msg_operation ?m) ?n what (snd (rt_tp t)) (rt_offset t) err (Some ?m) True v of
         (Some e, w) \<Rightarrow> Finish (Some e, kk, w)
       | (None, w) \<Rightarrow> (case advance_consumer_offset C (rt_tp t) (rt_offset t) None kk w of
             (Some e, k, w) \<Rightarrow> Again (attempt + 1, k, w) | (None, k, w) \<Rightarrow> Finish (None, k, w))) = Finish (None, k', w') \<and>
       grows w0 w' \<and> accounted q w0 w' ?n"
    if what: "what \<in> set dead_letter_reasons" and g: "grows w0 v" and "K kk" for what err v kk
  proof -
    obtain w1 where y: "record_skip E q (msg_operation ?m) ?n what (snd (rt_tp t)) (rt_offset t) err (Some ?m) True v = (None, w1)"
      using record_skip_accepted [OF assms(4)] by (metis prod.collapse)
    then have g1: "grows v w1" by (metis record_skip_grows snd_conv)
    obtain k' w' where a: "advance_consumer_offset C (rt_tp t) (rt_offset t) None kk w1 = (None, k', w')" "grows w1 w'"
      using healthy_advance [OF assms(1) \<open>K kk\<close>] by blast
    have "accounted q w0 w' ?n" using record_skip_accounted [OF y what] accounted_within [OF g g1 a(2)] by blast
    with y a grows_trans [OF grows_trans [OF g g1] a(2)] show ?thesis by simp
  qed
  show ?thesis
  proof (cases "attempt > max_retries cfg")
    case True
    then show ?thesis
      using skip [OF _ assms(3,2), of "''skipped_max_retries''" None]
      by (auto simp: per_backend_retry_step_def Let_def dead_letter_reasons_def)
  next
    case False
    let ?w = "emit_metric (record_replication_retry (msg_operation ?m) ?n) (sleep ?d w)" and ?k = "k_sleep C ?d k"
    have k: "K ?k" by (rule healthy_sleep [OF assms(1,2)])
    obtain x w1 where x: "replicate_operation E cfg (rt_operation t) ?m (rt_source t) target ?w = (x, w1)" by force
    then have "grows ?w w1" by (metis replicate_operation_grows snd_conv)
    then have g: "grows w0 w1" using assms(3) grows_trans [OF _ grows_trans [OF sleep_grows grows_trans [OF grows_emit]]] by blast
    show ?thesis
    proof (cases x)
      case None
      let ?w1 = "outcome ?m ?n ''success'' w1"
      obtain k' w' where a: "seek_and_resume C (rt_tp t) (rt_offset t) [rt_tp t] ?k ?w1 = (None, k', w')" "grows ?w1 w'"
        using healthy_seek [OF assms(1) k] by blast
      have o: "grows w1 ?w1" by (simp add: outcome_def)
      then have "accounted q w0 w' ?n" by (rule accounted_within [OF g _ a(2) success_accounted [OF refl]])
      with False x None a grows_trans [OF g grows_trans [OF o a(2)]] show ?thesis
        by (auto simp: per_backend_retry_step_def Let_def)
    next
      case (Some e)
      show ?thesis
      proof (cases "classify e = FAIL")
        case True
        with False x Some skip [OF _ g k, of "''skipped_permanent''" "Some (exc_str e)"] show ?thesis
          by (simp add: per_backend_retry_step_def Let_def dead_letter_reasons_def)
      next
        case nofail: False
        then show ?thesis using False x Some g k by (auto simp: per_backend_retry_step_def Let_def)
      qed
    qed
  qed
qed

lemma per_backend_retry_law:
  assumes "healthy C K" and "K (consumer wk)" and "dead_letters_accepted E"
  shows "\<exists>wk' w'. schedule_per_backend_retry E cfg q C t target wk w = Some (None, wk', w') \<and> grows w w' \<and>
    accounted q w w' (bc_name target)"
proof -
  obtain wk1 w1 where i: "inc_background_retries ''per_backend'' wk w = (wk1, w1)" by force
  note inc = inc_background_retries_law [OF i]
  let ?I = "\<lambda>(attempt :: int, k, w). K k \<and> grows w1 w"
  let ?Q = "\<lambda>(r, k, w'). r = None \<and> grows w1 w' \<and> accounted q w1 w' (bc_name target)"
  have "\<exists>y. retry_loop (per_backend_retry_step E cfg q C t target) (1, consumer wk1, w1) = Some y \<and> ?Q y"
  proof (rule retry_loop_ends [where I = ?I and size_of = "\<lambda>s. nat (max_retries cfg + 1 - fst s)"])
    show "?I (1, consumer wk1, w1)" using inc assms(2) by simp
  next
    fix s assume "?I s"
    then show "(\<exists>r. per_backend_retry_step E cfg q C t target s = Finish r \<and> ?Q r) \<or>
      (\<exists>s'. per_backend_retry_step E cfg q C t target s = Again s' \<and> ?I s' \<and>
         nat (max_retries cfg + 1 - fst s') < nat (max_retries cfg + 1 - fst s))"
      using per_backend_retry_step_law [OF assms(1) _ _ assms(3), of "fst (snd s)" w1 "snd (snd s)" cfg q t target "fst s"]
      by (cases s) auto
  qed
  then obtain k w2 where l: "retry_loop (per_backend_retry_step E cfg q C t target) (1, consumer wk1, w1) = Some (None, k, w2)"
    and Q: "grows w1 w2" "accounted q w1 w2 (bc_name target)" by auto
  obtain wk3 w3 where d: "dec_background_retries ''per_backend'' (wk1\<lparr>consumer := k\<rparr>) w2 = (wk3, w3)" by force
  note dec = dec_background_retries_law [OF d]
  have "schedule_per_backend_retry E cfg q C t target wk w = Some (None, wk3, w3)" using i l d by (simp add: schedule_per_backend_retry_def)
  moreover have "grows w w3" using inc Q dec grows_trans by blast
  ultimately show ?thesis using inc Q dec accounted_within [of w w1 w2 w3 q] by blast
qed

section \<open>The gauge of running retries\<close>

text \<open>What \<open>finally\<close> does to the counters after the increment.\<close>

definition counted :: "string \<Rightarrow> (string \<times> int) list \<Rightarrow> (string \<times> int) list" where
  "counted mode al = (let al = AList.update mode (get_default al mode 0 + 1) al in AList.update mode (max 0 (get_default al mode 0 - 1)) al)"

lemma global_retry_counters:
  "schedule_global_retry E cfg q pool C t wk w = Some (r, wk', w') \<Longrightarrow> in_flight wk' = counted ''batch'' (in_flight wk)"
  by (cases "retry_loop (global_retry_step E cfg q pool C t) (1, rt_failed t, consumer (fst (inc_background_retries ''batch'' wk w)), snd (inc_background_retries ''batch'' wk w))")
    (auto simp: schedule_global_retry_def inc_background_retries_def dec_background_retries_def counted_def Let_def simp del: get_default_update)

lemma per_backend_retry_counters:
  "schedule_per_backend_retry E cfg q C t target wk w = Some (r, wk', w') \<Longrightarrow> in_flight wk' = counted ''per_backend'' (in_flight wk)"
  by (cases "retry_loop (per_backend_retry_step E cfg q C t target) (1, consumer (fst (inc_background_retries ''per_backend'' wk w)), snd (inc_background_retries ''per_backend'' wk w))")
    (auto simp: schedule_per_backend_retry_def inc_background_retries_def dec_background_retries_def counted_def Let_def simp del: get_default_update)

text \<open>
  C20. Retries balance their gauge.  Whatever happens during a background retry, an escaping
  exception included, once it has ended the count of running retries of its mode is what it was
  before, and the count of the other mode is untouched.
\<close>

theorem retry_gauge_is_balanced:
  assumes "schedule_global_retry E cfg q pool C t wk w = Some (r, wk', w') \<or>
      schedule_per_backend_retry E cfg q C t target wk w = Some (r, wk', w')"
    and "\<forall>mode. 0 \<le> get_default (in_flight wk) mode 0"
  shows "\<forall>mode. get_default (in_flight wk') mode 0 = get_default (in_flight wk) mode 0"
proof -
  obtain mode where m: "in_flight wk' = counted mode (in_flight wk)"
    using assms(1) by (auto dest: global_retry_counters per_backend_retry_counters)
  show ?thesis unfolding m counted_def using assms(2) by (simp add: Let_def)
qed

section \<open>Without a consumer a retry never ends\<close>


section \<open>A consumer for the witnesses\<close>

text \<open>The paused partitions and the position of each partition; \<open>absent_consumer\<close> is \<open>subscriber.consumer is None\<close>.\<close>

type_synonym sample_consumer = "topic_partition list \<times> (topic_partition \<times> int) list"

definition working_consumer :: "sample_consumer consumer_ops" where
  "working_consumer = \<lparr>k_available = (\<lambda>k. True), k_assignment = (\<lambda>k. map fst (snd k)),
     k_seek = (\<lambda>tp off (ps, pos). (None, ps, AList.update tp off pos)),
     k_pause = (\<lambda>tp (ps, pos). (None, tp # ps, pos)),
     k_resume = (\<lambda>tps (ps, pos). (None, filter (\<lambda>tp. tp \<notin> set tps) ps, pos)),
     k_sleep = (\<lambda>d k. k)\<rparr>"

definition absent_consumer :: "sample_consumer consumer_ops" where
  "absent_consumer = working_consumer\<lparr>k_available := (\<lambda>k. False)\<rparr>"

lemma working_consumer_healthy: "healthy working_consumer (\<lambda>k. True)"
  by (auto simp: healthy_def working_consumer_def)

definition sample_worker :: "sample_consumer worker" where
  "sample_worker = \<lparr>consumer = ([], [((''t'', 0), 7)]), in_flight = [(''batch'', 0), (''per_backend'', 0)]\<rparr>"

definition sample_dlq :: DlqPublisher where
  "sample_dlq = \<lparr>dlq_base_topic = ''t'', dlq_on = True, dlq_topic_suffix = ''.dlq''\<rparr>"

definition sample_retry :: "S3Operation \<Rightarrow> retry_task" where
  "sample_retry op = \<lparr>rt_tp = (''t'', 0), rt_offset = 7, rt_assigned = [(''t'', 0)], rt_message = sample_message op, rt_operation = op,
     rt_source = sample_primary, rt_failed = [''s1'']\<rparr>"

text \<open>Services whose backends refuse every call with a server error.\<close>

definition failing_services :: "unit services" where
  "failing_services = sample_services\<lparr>s3_call := (\<lambda>n op ps b x.
     (Inl (ClientError ''boom'' (Some \<lparr>resp_code = Some ''InternalError'', resp_message = None, resp_status = Some 500\<rparr>)), b, 1, x))\<rparr>"

lemma failing_services_accept: "dead_letters_accepted failing_services"
  by (simp add: dead_letters_accepted_def failing_services_def sample_services_def)

theorem retry_gauge_is_balanced_witness:
  "\<exists>r wk' w'. schedule_per_backend_retry failing_services sample_config (Some sample_dlq) working_consumer (sample_retry DELETE_OBJECT)
       sample_secondary sample_worker sample_world = Some (r, wk', w') \<and>
     (\<forall>mode. get_default (in_flight wk') mode 0 = get_default (in_flight sample_worker) mode 0)"
proof -
  obtain r wk' w' where s: "schedule_per_backend_retry failing_services sample_config (Some sample_dlq) working_consumer (sample_retry DELETE_OBJECT)
      sample_secondary sample_worker sample_world = Some (r, wk', w')"
    using per_backend_retry_law [OF working_consumer_healthy _ failing_services_accept] by blast
  have "\<forall>mode. 0 \<le> get_default (in_flight sample_worker) mode 0" by (auto simp: sample_worker_def get_default_def split: option.splits)
  from retry_gauge_is_balanced [OF disjI2 [OF s] this] s show ?thesis by blast
qed


end
