(* ===== verification/Subscribers.thy ===== *)
theory Subscribers
  imports Retry_Scheduler
begin

text \<open>
  The consumers of the replication topics: \<open>src/s3mer/kafka/subscribers.py\<close>.

  A handler ends by acknowledging its message (no exception) or by raising, which leaves the message
  uncommitted; before raising it may start a background retry (\<open>retry_scheduler.py\<close>).  The handlers are
  modelled as functions that return the exception, if any, and the background task, if one was created.
  The library's decoding of a message is the argument \<open>decode\<close>, as in \<open>parse_message\<close>.
\<close>

section \<open>Registration\<close>

record kafka_settings =
  replication_retry_delay :: int
  replication_max_retry_delay :: int
  replication_max_retries :: int
  replication_skip_if_etag_matches :: bool
  concurrency :: int
  dlq_enabled :: bool
  dlq_suffix :: string

text \<open>A subscription: topic, consumer group, \<open>max_workers\<close>, and whose messages its handler applies.\<close>

datatype handler = BatchHandler | PerBackendHandler string

type_synonym subscription = "string \<times> string \<times> int \<times> handler"

definition register_batch_subscriber :: "string \<Rightarrow> kafka_settings option \<Rightarrow> subscription" where
  "register_batch_subscriber topic kafka_config =
     (topic, ''s3mer-workers'', case kafka_config of None \<Rightarrow> 1 | Some c \<Rightarrow> concurrency c, BatchHandler)"

definition register_per_backend_subscriber :: "string \<Rightarrow> string \<Rightarrow> kafka_settings option \<Rightarrow> subscription" where
  "register_per_backend_subscriber topic backend_name kafka_config =
     (topic, ''s3mer-workers-'' @ backend_name, case kafka_config of None \<Rightarrow> 1 | Some c \<Rightarrow> concurrency c, PerBackendHandler backend_name)"

text \<open>\<open>register_subscribers\<close>: the settings of the retries, the dead-letter publisher and the subscriptions.\<close>

definition register_subscribers ::
  "string \<Rightarrow> BackendPool \<Rightarrow> ReplicationMode \<Rightarrow> kafka_settings option \<Rightarrow> ReplicationRetryConfig \<Rightarrow> 'w world \<Rightarrow>
   ReplicationRetryConfig \<times> DlqPublisher \<times> subscription list \<times> 'w world" where
  "register_subscribers topic pool mode kafka_config cfg w =
     (let cfg = (case kafka_config of None \<Rightarrow> cfg
            | Some c \<Rightarrow> \<lparr>retry_delay = replication_retry_delay c, max_retry_delay = replication_max_retry_delay c,
                max_retries = replication_max_retries c, skip_if_etag_matches = replication_skip_if_etag_matches c\<rparr>);
          dlq = \<lparr>dlq_base_topic = topic, dlq_on = (case kafka_config of None \<Rightarrow> True | Some c \<Rightarrow> dlq_enabled c),
            dlq_topic_suffix = (case kafka_config of None \<Rightarrow> ''.dlq'' | Some c \<Rightarrow> dlq_suffix c)\<rparr>;
          w = emit_metric (set_replication_consumer_concurrency (case kafka_config of None \<Rightarrow> 1 | Some c \<Rightarrow> concurrency c)) w
      in (cfg, dlq,
          if mode = PER_BACKEND
          then map (\<lambda>backend. register_per_backend_subscriber (topic @ ''.'' @ bc_name backend) (bc_name backend) kafka_config) (get_secondaries pool)
          else [register_batch_subscriber topic kafka_config], w))"

section \<open>The batch handler\<close>

datatype background = GlobalRetry retry_task | BackendRetry retry_task BackendClient

definition all_targets :: "ReplicationMessage \<Rightarrow> string" where
  "all_targets m = (let s = join '','' (target_backends m) in if s = [] then ''unknown'' else s)"

text \<open>The loop over the targets: it collects those to retry, and an exception of the dead-letter queue ends it.\<close>

fun batch_targets ::
  "'w services \<Rightarrow> ReplicationRetryConfig \<Rightarrow> DlqPublisher option \<Rightarrow> BackendPool \<Rightarrow> S3Operation \<Rightarrow> ReplicationMessage \<Rightarrow> BackendClient \<Rightarrow> int \<Rightarrow> int \<Rightarrow>
   string list \<Rightarrow> string list \<Rightarrow> 'w world \<Rightarrow> (pyexc + string list) \<times> 'w world" where
  "batch_targets E cfg q pool op m src prt offset [] failed_targets w = (Inr failed_targets, w)"
| "batch_targets E cfg q pool op m src prt offset (n # ns) failed_targets w =
     (case pool_get pool n of
        Inl exc \<Rightarrow>
          (case record_skip E q (msg_operation m) n ''skipped_poison'' prt offset (Some (exc_str exc)) (Some m) False w of
             (Some e, w) \<Rightarrow> (Inl e, w)
           | (None, w) \<Rightarrow> batch_targets E cfg q pool op m src prt offset ns failed_targets w)
      | Inr target \<Rightarrow>
          (case attempt_target E cfg q False op m src target prt offset w of
             (Replicated, w) \<Rightarrow> batch_targets E cfg q pool op m src prt offset ns failed_targets w
           | (Skipped, w) \<Rightarrow> batch_targets E cfg q pool op m src prt offset ns failed_targets w
           | (Retryable e, w) \<Rightarrow> batch_targets E cfg q pool op m src prt offset ns (failed_targets @ [n]) w
           | (Escaped e, w) \<Rightarrow> (Inl e, w)))"

fun pause_all :: "'k consumer_ops \<Rightarrow> topic_partition list \<Rightarrow> 'k \<Rightarrow> 'w world \<Rightarrow> pyexc option \<times> 'k \<times> 'w world" where
  "pause_all C [] k w = (None, k, w)"
| "pause_all C (tp # tps) k w =
     (case pause_partition C tp k w of
        (Some e, k, w) \<Rightarrow> (Some e, k, w)
      | (None, k, w) \<Rightarrow> pause_all C tps k w)"

text \<open>What the handler does when targets are left to retry.\<close>

definition hand_over_batch ::
  "'k consumer_ops \<Rightarrow> retry_task \<Rightarrow> 'k \<Rightarrow> 'w world \<Rightarrow> pyexc option \<times> background option \<times> 'k \<times> 'w world" where
  "hand_over_batch C t k w =
     (let m = rt_message t in
      if \<not> k_available C k then
        (Some (PyRuntimeError ''Replication failed and consumer is unavailable.''), None, k,
         emit_metric (record_replication_consumer_outcome (msg_operation m) (join '','' (rt_failed t)) ''failed_no_consumer'') w)
      else
        (let assigned = k_assignment C k in
         case pause_all C assigned k w of
           (Some e, k, w) \<Rightarrow> (Some e, None, k, w)
         | (None, k, w) \<Rightarrow> (Some (PyRuntimeError ''Replication failed. Consumer paused.''), Some (GlobalRetry (t\<lparr>rt_assigned := assigned\<rparr>)), k, w)))"

definition handle_batch_replication ::
  "(string \<Rightarrow> ReplicationMessage option) \<Rightarrow> 'w services \<Rightarrow> ReplicationRetryConfig \<Rightarrow> DlqPublisher option \<Rightarrow> BackendPool \<Rightarrow> 'k consumer_ops \<Rightarrow>
   string \<Rightarrow> string \<Rightarrow> int \<Rightarrow> int \<Rightarrow> 'k \<Rightarrow> 'w world \<Rightarrow> pyexc option \<times> background option \<times> 'k \<times> 'w world" where
  "handle_batch_replication decode E cfg q pool C topic msg_raw prt offset k w =
     (case parse_message decode msg_raw ''unknown'' w of
        (None, w) \<Rightarrow> (None, None, k, w)
      | (Some m, w) \<Rightarrow>
     (case resolve_operation m (all_targets m) w of
        (None, w) \<Rightarrow> (None, None, k, w)
      | (Some op, w) \<Rightarrow>
     (case pool_get pool (source_backend m) of
        Inl exc \<Rightarrow>
          (let (e, w) = record_skip E q (msg_operation m) (all_targets m) ''skipped_poison'' prt offset (Some (exc_str exc)) (Some m) False w
           in (e, None, k, w))
      | Inr src \<Rightarrow>
     (case batch_targets E cfg q pool op m src prt offset (target_backends m) [] w of
        (Inl e, w) \<Rightarrow> (Some e, None, k, w)
      | (Inr [], w) \<Rightarrow> (None, None, k, w)
      | (Inr failed_targets, w) \<Rightarrow>
          hand_over_batch C \<lparr>rt_tp = (topic, prt), rt_offset = offset, rt_assigned = [], rt_message = m, rt_operation = op,
            rt_source = src, rt_failed = failed_targets\<rparr> k w))))"

section \<open>The per-backend handler\<close>

definition hand_over_backend ::
  "'k consumer_ops \<Rightarrow> retry_task \<Rightarrow> BackendClient \<Rightarrow> 'k \<Rightarrow> 'w world \<Rightarrow> pyexc option \<times> background option \<times> 'k \<times> 'w world" where
  "hand_over_backend C t target k w =
     (let m = rt_message t in
      if \<not> k_available C k then
        (Some (PyRuntimeError ''Replication failed and consumer is unavailable.''), None, k,
         emit_metric (record_replication_consumer_outcome (msg_operation m) (bc_name target) ''failed_no_consumer'') w)
      else
        (case pause_partition C (rt_tp t) k w of
           (Some e, k, w) \<Rightarrow> (Some e, None, k, w)
         | (None, k, w) \<Rightarrow> (Some (PyRuntimeError ''Replication failed. Partition paused.''), Some (BackendRetry t target), k, w)))"

definition handle_per_backend_replication ::
  "(string \<Rightarrow> ReplicationMessage option) \<Rightarrow> 'w services \<Rightarrow> ReplicationRetryConfig \<Rightarrow> DlqPublisher option \<Rightarrow> BackendPool \<Rightarrow> 'k consumer_ops \<Rightarrow>
   string \<Rightarrow> string \<Rightarrow> string \<Rightarrow> int \<Rightarrow> int \<Rightarrow> 'k \<Rightarrow> 'w world \<Rightarrow> pyexc option \<times> background option \<times> 'k \<times> 'w world" where
  "handle_per_backend_replication decode E cfg q pool C topic backend_name msg_raw prt offset k w =
     (case parse_message decode msg_raw backend_name w of
        (None, w) \<Rightarrow> (None, None, k, w)
      | (Some m, w) \<Rightarrow>
     (case resolve_operation m backend_name w of
        (None, w) \<Rightarrow> (None, None, k, w)
      | (Some op, w) \<Rightarrow>
     (case (case pool_get pool (source_backend m) of
              Inl exc \<Rightarrow> Inl exc
            | Inr src \<Rightarrow> (case pool_get pool backend_name of Inl exc \<Rightarrow> Inl exc | Inr target \<Rightarrow> Inr (src, target))) of
        Inl exc \<Rightarrow>
          (let (e, w) = record_skip E q (msg_operation m) backend_name ''skipped_poison'' prt offset (Some (exc_str exc)) (Some m) True w
           in (e, None, k, w))
      | Inr (src, target) \<Rightarrow>
     (case attempt_target E cfg q True op m src target prt offset w of
        (Replicated, w) \<Rightarrow> (None, None, k, w)
      | (Skipped, w) \<Rightarrow> (None, None, k, w)
      | (Escaped e, w) \<Rightarrow> (Some e, None, k, w)
      | (Retryable e, w) \<Rightarrow>
          hand_over_backend C \<lparr>rt_tp = (topic, prt), rt_offset = offset, rt_assigned = [], rt_message = m, rt_operation = op,
            rt_source = src, rt_failed = [backend_name]\<rparr> target k w))))"

text \<open>The background task, once it is created.\<close>

definition run_background ::
  "'w services \<Rightarrow> ReplicationRetryConfig \<Rightarrow> DlqPublisher option \<Rightarrow> BackendPool \<Rightarrow> 'k consumer_ops \<Rightarrow> background \<Rightarrow> 'k worker \<Rightarrow> 'w world \<Rightarrow> (pyexc option \<times> 'k worker \<times> 'w world) option" where
  "run_background E cfg q pool C b wk w =
     (case b of
        GlobalRetry t \<Rightarrow> schedule_global_retry E cfg q pool C t wk w
      | BackendRetry t target \<Rightarrow> schedule_per_backend_retry E cfg q C t target wk w)"

text \<open>What a subscription does with a message.\<close>

definition consume ::
  "(string \<Rightarrow> ReplicationMessage option) \<Rightarrow> 'w services \<Rightarrow> ReplicationRetryConfig \<Rightarrow> DlqPublisher option \<Rightarrow> BackendPool \<Rightarrow> 'k consumer_ops \<Rightarrow>
   subscription \<Rightarrow> string \<Rightarrow> int \<Rightarrow> int \<Rightarrow> 'k \<Rightarrow> 'w world \<Rightarrow> pyexc option \<times> background option \<times> 'k \<times> 'w world" where
  "consume decode E cfg q pool C sub msg_raw prt offset k w =
     (case sub of (topic, _, _, h) \<Rightarrow>
       (case h of
          BatchHandler \<Rightarrow> handle_batch_replication decode E cfg q pool C topic msg_raw prt offset k w
        | PerBackendHandler n \<Rightarrow> handle_per_backend_replication decode E cfg q pool C topic n msg_raw prt offset k w))"

section \<open>Laws of the handlers\<close>

lemma pause_all_grows: "grows w (snd (snd (pause_all C tps k w)))"
proof (induction tps arbitrary: k w)
  case (Cons tp tps)
  obtain r k1 w1 where p: "pause_partition C tp k w = (r, k1, w1)" by (metis prod_cases3)
  then have "grows w w1" using pause_partition_grows [of w C tp k] by simp
  with p grows_trans [OF _ Cons.IH] show ?case by (cases r) auto
qed simp

lemma batch_targets_law:
  assumes "batch_targets E cfg q pool op m src p off ns ft w = (res, w')"
  shows "grows w w' \<and> (\<forall>rest. res = Inr rest \<longrightarrow> set ft \<subseteq> set rest \<and> open_or_closed q w w' ns rest)"
  using assms
proof (induction ns arbitrary: ft w)
  case Nil
  then show ?case by (auto simp: open_or_closed_def)
next
  case (Cons n ns)
  show ?case
  proof (cases "pool_get pool n")
    case (Inl exc)
    obtain y w1 where y: "record_skip E q (msg_operation m) n ''skipped_poison'' p off (Some (exc_str exc)) (Some m) False w = (y, w1)" by force
    then have g: "grows w w1" by (metis record_skip_grows snd_conv)
    show ?thesis
    proof (cases y)
      case None
      then have rec: "batch_targets E cfg q pool op m src p off ns ft w1 = (res, w')" using Cons.prems Inl y by simp
      have "accounted q w w1 n" using record_skip_accepted y None by (auto intro: record_skip_accounted simp: dead_letter_reasons_def)
      then show ?thesis using Cons.IH [OF rec] open_or_closed_Cons [OF g] grows_trans [OF g] by blast
    qed (use Cons.prems Inl y g in auto)
  next
    case (Inr c)
    obtain r w1 where a: "attempt_target E cfg q False op m src c p off w = (r, w1)" by force
    note law = attempt_target_law [OF a, unfolded pool_get_name [OF Inr]]
    show ?thesis
    proof (cases "\<exists>e. r = Escaped e")
      case True
      then show ?thesis using Cons.prems Inr a law(1) by auto
    next
      case False
      let ?ft = "if r = Replicated \<or> r = Skipped then ft else ft @ [n]"
      have rec: "batch_targets E cfg q pool op m src p off ns ?ft w1 = (res, w')"
        using Cons.prems Inr a False by (cases r) auto
      note IH = Cons.IH [OF rec]
      have "open_or_closed q w w' (n # ns) rest" if "res = Inr rest" for rest
        by (rule open_or_closed_Cons [OF law(1)]) (use IH that law(2) in \<open>auto split: if_splits\<close>)
      then show ?thesis using IH grows_trans [OF law(1)] by (auto split: if_splits)
    qed
  qed
qed

lemma batch_targets_known:
  "batch_targets E cfg q pool op m src p off ns ft w = (Inr rest, w') \<Longrightarrow> known pool ft \<Longrightarrow> known pool rest"
proof (induction ns arbitrary: ft w)
  case (Cons n ns)
  show ?case
  proof (cases "pool_get pool n")
    case (Inl exc)
    obtain y w1 where y: "record_skip E q (msg_operation m) n ''skipped_poison'' p off (Some (exc_str exc)) (Some m) False w = (y, w1)" by force
    then show ?thesis using Cons Inl by (cases y) simp_all
  next
    case (Inr c)
    obtain r w1 where a: "attempt_target E cfg q False op m src c p off w = (r, w1)" by force
    have "known pool (ft @ [n])" using Cons.prems(2) Inr by (auto simp: known_def)
    then show ?thesis using Cons Inr a by (cases r) simp_all
  qed
qed simp

text \<open>What a message still waits for when its handler has ended: the targets of the background task.\<close>

fun waiting :: "background option \<Rightarrow> string list" where
  "waiting None = []"
| "waiting (Some (GlobalRetry t)) = rt_failed t"
| "waiting (Some (BackendRetry t c)) = [bc_name c]"

lemma hand_over_batch_law:
  assumes "hand_over_batch C t k w = (r, b, k', w')"
  shows "grows w w' \<and> r \<noteq> None \<and> (b \<noteq> None \<longrightarrow> waiting b = rt_failed t)"
proof -
  obtain y k1 w1 where y: "pause_all C (k_assignment C k) k w = (y, k1, w1)" by (metis prod_cases3)
  with pause_all_grows [of w C "k_assignment C k" k] have "grows w w1" by simp
  with y assms show ?thesis by (auto simp: hand_over_batch_def Let_def split: if_splits option.splits)
qed

lemma hand_over_backend_law:
  assumes "hand_over_backend C t c k w = (r, b, k', w')"
  shows "grows w w' \<and> r \<noteq> None \<and> (b \<noteq> None \<longrightarrow> waiting b = [bc_name c])"
proof -
  obtain y k1 w1 where y: "pause_partition C (rt_tp t) k w = (y, k1, w1)" by (metis prod_cases3)
  with pause_partition_grows [of w C "rt_tp t" k] have "grows w w1" by simp
  with y assms show ?thesis by (auto simp: hand_over_backend_def Let_def split: if_splits option.splits)
qed

text \<open>A message that can be handled: it decodes, its operation is known and its source is configured.\<close>

definition handleable :: "(string \<Rightarrow> ReplicationMessage option) \<Rightarrow> BackendPool \<Rightarrow> string \<Rightarrow> ReplicationMessage \<Rightarrow> bool" where
  "handleable decode pool msg_raw m \<longleftrightarrow> decode msg_raw = Some m \<and> op_of_value (msg_operation m) \<noteq> None \<and>
     (\<exists>src. pool_get pool (source_backend m) = Inr src)"

lemma batch_handler_law:
  assumes "handle_batch_replication decode E cfg q pool C topic msg_raw prt off k w = (r, b, k', w')"
    and "handleable decode pool msg_raw m"
  shows "grows w w' \<and> (r = None \<longrightarrow> b = None) \<and> known pool (waiting b) \<and>
    (r = None \<or> b \<noteq> None \<longrightarrow> open_or_closed q w w' (target_backends m) (waiting b))"
proof -
  obtain op src where op: "op_of_value (msg_operation m) = Some op" and src: "pool_get pool (source_backend m) = Inr src"
    and m: "decode msg_raw = Some m" using assms(2) by (auto simp: handleable_def)
  obtain res w1 where t: "batch_targets E cfg q pool op m src prt off (target_backends m) [] w = (res, w1)" by force
  note law = batch_targets_law [OF t]
  note eq = assms(1) [unfolded handle_batch_replication_def parse_message_def resolve_operation_def m op src option.case prod.case sum.case t]
  show ?thesis
  proof (cases res)
    case (Inl e)
    then show ?thesis using eq law by (auto simp: known_def)
  next
    case (Inr rest)
    show ?thesis
    proof (cases rest)
      case Nil
      then show ?thesis using eq law Inr by (auto simp: known_def)
    next
      case (Cons n ns)
      let ?t = "\<lparr>rt_tp = (topic, prt), rt_offset = off, rt_assigned = [], rt_message = m, rt_operation = op, rt_source = src, rt_failed = rest\<rparr>"
      have h: "hand_over_batch C ?t k w1 = (r, b, k', w')" using eq Inr Cons by simp
      note ho = hand_over_batch_law [OF h]
      have "known pool (waiting b)" using batch_targets_known [OF t [unfolded Inr]] ho by (cases b) (auto simp: known_def)
      then show ?thesis using law Inr ho grows_trans [of w w1 w'] open_or_closed_trans [OF _ open_or_closed_grows, of q w w1 _ rest w'] by auto
    qed
  qed
qed


lemma batch_settles_law:
  assumes "handle_batch_replication decode E cfg q pool C topic msg_raw prt off k w = (r, Some b, k', w1)"
    and "handleable decode pool msg_raw m" and "healthy C K" and "K k'" and "consumer wk = k'" and "dead_letters_accepted E"
  shows "\<exists>wk' w'. run_background E cfg q pool C b wk w1 = Some (None, wk', w') \<and> (\<forall>n \<in> set (target_backends m). accounted q w w' n)"
proof -
  have h: "grows w w1" "open_or_closed q w w1 (target_backends m) (waiting (Some b))" "known pool (waiting (Some b))"
    using batch_handler_law [OF assms(1,2)] by auto
  obtain wk' w' where "run_background E cfg q pool C b wk w1 = Some (None, wk', w')" "grows w1 w'"
    "\<forall>n \<in> set (waiting (Some b)). accounted q w1 w' n"
  proof (cases b)
    case (GlobalRetry t)
    then show ?thesis using that global_retry_law [OF assms(3) _ assms(6), of wk pool t cfg q w1] assms(4,5) h(3) by (auto simp: run_background_def)
  next
    case (BackendRetry t c)
    then show ?thesis using that per_backend_retry_law [OF assms(3) _ assms(6), of wk cfg q t c w1] assms(4,5) by (auto simp: run_background_def)
  qed
  then show ?thesis using h accounted_grows [OF h(1)] unfolding open_or_closed_def by blast
qed


lemma per_backend_handler_law:
  assumes "handle_per_backend_replication decode E cfg q pool C topic n msg_raw prt off k w = (r, b, k', w')"
    and "handleable decode pool msg_raw m" and "pool_get pool n = Inr c"
  shows "grows w w' \<and> (r = None \<longrightarrow> b = None \<and> accounted q w w' n) \<and>
    (\<forall>x. b = Some x \<longrightarrow> (\<exists>t. x = BackendRetry t c))"
proof -
  obtain op src where op: "op_of_value (msg_operation m) = Some op" and src: "pool_get pool (source_backend m) = Inr src"
    and m: "decode msg_raw = Some m" using assms(2) by (auto simp: handleable_def)
  obtain x w1 where a: "attempt_target E cfg q True op m src c prt off w = (x, w1)" by force
  note law = attempt_target_law [OF a, unfolded pool_get_name [OF assms(3)]]
  note eq = assms(1) [unfolded handle_per_backend_replication_def parse_message_def resolve_operation_def m op src assms(3)
      option.case prod.case sum.case a]
  show ?thesis
  proof (cases x)
    case (Retryable e)
    let ?t = "\<lparr>rt_tp = (topic, prt), rt_offset = off, rt_assigned = [], rt_message = m, rt_operation = op, rt_source = src, rt_failed = [n]\<rparr>"
    have h: "hand_over_backend C ?t c k w1 = (r, b, k', w')" using eq Retryable by simp
    have "\<forall>x. b = Some x \<longrightarrow> x = BackendRetry ?t c"
      using h by (auto simp: hand_over_backend_def Let_def split: if_splits option.splits prod.splits)
    then show ?thesis using hand_over_backend_law [OF h] law(1) grows_trans by blast
  qed (use eq law in auto)
qed

lemma per_backend_settles_law:
  assumes "handle_per_backend_replication decode E cfg q pool C topic n msg_raw prt off k w = (r, b, k', w1)"
    and "handleable decode pool msg_raw m" and "pool_get pool n = Inr c"
    and "healthy C K" and "K k'" and "consumer wk = k'" and "dead_letters_accepted E"
  shows "case b of
      None \<Rightarrow> r = None \<longrightarrow> accounted q w w1 n
    | Some b \<Rightarrow> \<exists>wk' w'. run_background E cfg q pool C b wk w1 = Some (None, wk', w') \<and> accounted q w w' n"
proof (cases b)
  case None
  then show ?thesis using per_backend_handler_law [OF assms(1-3)] by simp
next
  case (Some x)
  then obtain t where x: "x = BackendRetry t c" and g: "grows w w1"
    using per_backend_handler_law [OF assms(1-3)] by auto
  have "K (consumer wk)" using assms(5,6) by simp
  from per_backend_retry_law [OF assms(4) this assms(7), of cfg q t c w1] obtain wk' w' where
    "schedule_per_backend_retry E cfg q C t c wk w1 = Some (None, wk', w')" "grows w1 w'" "accounted q w1 w' n"
    using pool_get_name [OF assms(3)] by auto
  then show ?thesis using Some x accounted_grows [OF g] by (auto simp: run_background_def)
qed


section \<open>Which topics are consumed\<close>

lemma schedule_replication_topics:
  assumes "schedule_replication E mode topic op ps resp src targets w = (None, w')" and "bucket_param ps = Inr bk"
    and "x \<in> set (tasks_of (effects w w'))"
  shows "case mode of BATCH \<Rightarrow> fst x = topic | PER_BACKEND \<Rightarrow> \<exists>t. fst x = topic @ ''.'' @ t \<and> snd (snd (snd (snd (snd x)))) = [t]"
proof (cases "targets = []")
  case True
  then have "w' = w" using assms(1) by (auto simp: schedule_replication_def batch_schedule_def per_backend_schedule_def split: if_splits)
  then show ?thesis using assms(3) by (simp add: effects_def)
next
  case False
  show ?thesis
  proof (cases mode)
    case BATCH
    then have "batch_schedule E topic op ps resp src targets w = (None, w')" using assms(1) by (simp add: schedule_replication_def)
    with batch_schedule_tasks [of w E topic op ps resp src targets] False assms(2,3) BATCH show ?thesis
      by (auto simp: published_def effects_def)
  next
    case PER_BACKEND
    then have "per_backend_schedule E topic op ps resp src targets w = (None, w')" using assms(1) by (simp add: schedule_replication_def)
    with per_backend_schedule_tasks [of w E topic op ps resp src targets] False assms(2,3) PER_BACKEND show ?thesis
      by (auto simp: published_def effects_def per_backend_tasks_def)
  qed
qed

text \<open>
  C17. Which replication tasks have a consumer.  A task that a successful scheduling publishes for a
  backend of the pool goes to a topic that some registered subscriber consumes if and only if the
  mode is batch or the backend is a secondary: in per-backend mode, which is the default, a task
  whose target is the primary (as scheduled after a write that fell back to a secondary) goes to a
  topic nobody consumes.
\<close>

theorem task_is_consumed_iff:
  assumes "schedule_replication E mode topic op ps resp src targets w = (None, w')" and "bucket_param ps = Inr bk"
    and "(topic', op', bk', key, src', ts) \<in> set (tasks_of (effects w w'))"
    and "wf_pool pool" and "c \<in> set (clients pool)" and "bc_name c \<in> set ts"
  shows "topic' \<in> fst ` set (fst (snd (snd (register_subscribers topic pool mode kc cfg v)))) \<longleftrightarrow> mode = BATCH \<or> \<not> is_primary c"
proof (cases mode)
  case BATCH
  with schedule_replication_topics [OF assms(1-3)] show ?thesis
    by (simp add: register_subscribers_def register_batch_subscriber_def Let_def)
next
  case PER_BACKEND
  with schedule_replication_topics [OF assms(1-3)] assms(6) have t: "topic' = topic @ ''.'' @ bc_name c" by auto
  have "(\<exists>d \<in> set (clients pool). \<not> is_primary d \<and> bc_name d = bc_name c) \<longleftrightarrow> \<not> is_primary c"
    using assms(4,5) unfolding wf_pool_def by (metis distinct_map inj_onD)
  moreover have "fst ` set (fst (snd (snd (register_subscribers topic pool mode kc cfg v)))) =
      (\<lambda>d. topic @ ''.'' @ bc_name d) ` {d \<in> set (clients pool). \<not> is_primary d}"
    by (simp add: PER_BACKEND register_subscribers_def register_per_backend_subscriber_def get_secondaries_def Let_def image_image)
  ultimately show ?thesis using PER_BACKEND t by (simp add: image_iff) metis
qed

section \<open>Witnesses\<close>

definition sample_decode :: "S3Operation \<Rightarrow> string \<Rightarrow> ReplicationMessage option" where
  "sample_decode op raw = Some (sample_message op)"

abbreviation sample_batch :: "unit services \<Rightarrow> pyexc option \<times> background option \<times> sample_consumer \<times> unit world" where
  "sample_batch E \<equiv> handle_batch_replication (sample_decode DELETE_OBJECT) E sample_config (Some sample_dlq) sample_pool working_consumer
     ''t'' ''{}'' 0 7 (consumer sample_worker) sample_world"

abbreviation sample_per_backend :: "unit services \<Rightarrow> pyexc option \<times> background option \<times> sample_consumer \<times> unit world" where
  "sample_per_backend E \<equiv> handle_per_backend_replication (sample_decode DELETE_OBJECT) E sample_config (Some sample_dlq) sample_pool working_consumer
     ''t.s1'' ''s1'' ''{}'' 0 7 (consumer sample_worker) sample_world"

lemma sample_handleable: "handleable (sample_decode op) sample_pool raw (sample_message op)"
proof -
  have "\<not> (case pool_get sample_pool ''p'' of Inl e \<Rightarrow> True | Inr c \<Rightarrow> False)" by code_simp
  then show ?thesis by (auto simp: handleable_def sample_decode_def sample_message_def split: sum.splits)
qed

lemma sample_batch_ok: "fst (sample_batch copy_services) = None"
  by code_simp

lemma sample_batch_retries: "fst (snd (sample_batch failing_services)) \<noteq> None"
  by code_simp

lemma sample_per_backend_retries: "fst (snd (sample_per_backend failing_services)) \<noteq> None"
  by code_simp




lemma sample_schedule_ok:
  "fst (schedule_replication sample_services PER_BACKEND ''t'' PUT_OBJECT sample_put [] ''s1'' [''p''] sample_world) = None"
  "tasks_of (effects sample_world (snd (schedule_replication sample_services PER_BACKEND ''t'' PUT_OBJECT sample_put [] ''s1'' [''p''] sample_world))) =
     [(''t.p'', ''put_object'', ''b'', Some ''k'', ''s1'', [''p''])]"
  by code_simp+

theorem task_is_consumed_iff_witness:
  "''t.p'' \<notin> fst ` set (fst (snd (snd (register_subscribers ''t'' sample_pool PER_BACKEND None sample_config sample_world))))"
proof -
  obtain w' where s: "schedule_replication sample_services PER_BACKEND ''t'' PUT_OBJECT sample_put [] ''s1'' [''p''] sample_world = (None, w')"
    using sample_schedule_ok(1) by (metis prod.collapse)
  have "bucket_param sample_put = Inr ''b''" by code_simp
  note law = task_is_consumed_iff [OF s this _ sample_pool_wf(1), of "''t.p''" "''put_object''" "''b''" "Some ''k''" "''s1''" "[''p'']" sample_primary None sample_config sample_world]
  have c: "sample_primary \<in> set (clients sample_pool)" using sample_pool_wf unfolding wf_pool_def by auto
  have "(''t.p'', ''put_object'', ''b'', Some ''k'', ''s1'', [''p'']) \<in> set (tasks_of (effects sample_world w'))"
    using sample_schedule_ok(2) unfolding s by simp
  from law [OF this c] have "''t.p'' \<in> fst ` set (fst (snd (snd (register_subscribers ''t'' sample_pool PER_BACKEND None sample_config sample_world)))) \<longleftrightarrow>
      PER_BACKEND = BATCH \<or> \<not> is_primary sample_primary" by (simp add: sample_primary_def)
  then show ?thesis by (simp add: sample_primary_def)
qed

end
