(* ===== verification/Settings.thy ===== *)
theory Settings
  imports Sync_Guarantees Distributed_Upload Subscribers
begin

text \<open>
  The configuration: \<open>src/s3mer/config/settings.py\<close>, and what is built from it
  (\<open>src/s3mer/backends/write_factory.py\<close>, \<open>src/s3mer/state/factory.py\<close>, \<open>StreamConfig.from_settings\<close>).

  Reading YAML and the environment and converting texts to the types of the fields is done by the
  Pydantic library.  The model starts where the code of the repository does: a settings record whose
  fields have their types, except for the values that a \<open>mode="before"\<close> validator receives
  (\<open>verify\<close>, \<open>bootstrap_servers\<close> and the text of \<open>write_strategy\<close>).  \<open>make_settings\<close> runs the
  validators and the bounds declared with \<open>ge=\<close>, and reports the first violation.
\<close>

section \<open>The settings\<close>

datatype WriteStrategyType =
  PRIMARY_REPLICATION | MULTI_SYNC | MULTI_SYNC_SIMPLE | QUORUM_REPLICATION | MULTI_SYNC_DISTRIBUTED

fun write_strategy_value :: "WriteStrategyType \<Rightarrow> string" where
  "write_strategy_value PRIMARY_REPLICATION = ''primary_replication''"
| "write_strategy_value MULTI_SYNC = ''multi_sync''"
| "write_strategy_value MULTI_SYNC_SIMPLE = ''multi_sync_simple''"
| "write_strategy_value QUORUM_REPLICATION = ''quorum_replication''"
| "write_strategy_value MULTI_SYNC_DISTRIBUTED = ''multi_sync_distributed''"

definition write_strategy_of_value :: "string \<Rightarrow> WriteStrategyType option" where
  "write_strategy_of_value v = List.find (\<lambda>t. write_strategy_value t = v)
     [PRIMARY_REPLICATION, MULTI_SYNC, MULTI_SYNC_SIMPLE, QUORUM_REPLICATION, MULTI_SYNC_DISTRIBUTED]"

fun backend_type_value :: "BackendType \<Rightarrow> string" where
  "backend_type_value BT_S3 = ''s3''"
| "backend_type_value BT_MEMORY = ''memory''"

fun replication_mode_value :: "ReplicationMode \<Rightarrow> string" where
  "replication_mode_value BATCH = ''batch''"
| "replication_mode_value PER_BACKEND = ''per_backend''"

text \<open>What the pool reads of a backend's configuration is its first part; the S3 client gets the rest.\<close>

record BackendSettings = BackendConfig +
  endpoint_url :: string
  region :: string
  access_key :: string
  secret_key :: string
  addressing_style :: string
  max_pool_connections :: int
  connect_timeout :: int
  read_timeout :: int
  max_attempts :: int
  verify :: pyval

record KafkaConfig = kafka_settings +
  bootstrap_servers :: pyval
  kafka_topic :: string
  consumer_group :: string

record ValkeySettings = ValkeyConfig +
  valkey_url :: string

record WorkerConfig =
  worker_host :: string
  worker_port :: int

record Settings =
  st_backends :: "(string \<times> BackendSettings) list"
  st_kafka :: KafkaConfig
  st_worker :: WorkerConfig
  st_log_level :: string
  st_log_file :: "string option"
  st_replication_mode :: ReplicationMode
  st_write_strategy :: WriteStrategyType
  st_sync_quorum :: int
  st_sync_backends :: "string list"
  st_response_backend :: "string option"
  st_valkey :: ValkeySettings
  st_stream_chunk_size :: int
  st_max_memory_stream_buffer_size :: int
  st_buffer_dir :: "string option"
  st_latency_probe_interval :: int
  st_circuit_breaker :: CircuitBreakerConfig

text \<open>The defaults of the fields; the access keys of a backend have none.\<close>

definition default_backend :: "string \<Rightarrow> string \<Rightarrow> BackendSettings" where
  "default_backend key secret = \<lparr>backend_type = BT_S3, cfg_is_primary = False, cfg_priority = 0, endpoint_url = ''http://localhost:9000'',
     region = ''us-east-1'', access_key = key, secret_key = secret, addressing_style = ''path'', max_pool_connections = 10,
     connect_timeout = 10, read_timeout = 30, max_attempts = 2, verify = VBool False\<rparr>"

definition default_kafka :: KafkaConfig where
  "default_kafka = \<lparr>replication_retry_delay = 1, replication_max_retry_delay = 60, replication_max_retries = 10,
     replication_skip_if_etag_matches = False, concurrency = 1, dlq_enabled = True, dlq_suffix = ''.dlq'',
     bootstrap_servers = VList [VStr ''localhost:9092''], kafka_topic = ''s3mer.replication'', consumer_group = ''s3mer-workers''\<rparr>"

definition default_valkey :: ValkeySettings where
  "default_valkey = \<lparr>session_ttl_seconds = 604800, key_prefix = ''s3mer:mpu:'', valkey_url = ''valkey://localhost:6379/0''\<rparr>"

definition default_breaker :: CircuitBreakerConfig where
  "default_breaker = \<lparr>cb_enabled = True, cb_failure_threshold = 3, cb_open_duration = 30\<rparr>"

definition default_settings :: Settings where
  "default_settings = \<lparr>st_backends = [], st_kafka = default_kafka, st_worker = \<lparr>worker_host = ''0.0.0.0'', worker_port = 8010\<rparr>,
     st_log_level = ''INFO'', st_log_file = None, st_replication_mode = PER_BACKEND, st_write_strategy = PRIMARY_REPLICATION,
     st_sync_quorum = 1, st_sync_backends = [], st_response_backend = None, st_valkey = default_valkey,
     st_stream_chunk_size = 65536, st_max_memory_stream_buffer_size = 10485760, st_buffer_dir = None,
     st_latency_probe_interval = 0, st_circuit_breaker = default_breaker\<rparr>"

datatype SettingsError =
    BadAddressingStyle string
  | BelowMinimum string
  | UnknownWriteStrategy string
  | NoPrimary
  | SeveralPrimaries "string list"
  | QuorumTooLarge int nat
  | UnknownSyncBackend string
  | UnknownResponseBackend string
  | ValkeyUrlRequired

section \<open>Validators of single fields\<close>

definition validate_addressing_style :: "string \<Rightarrow> SettingsError + string" where
  "validate_addressing_style v = (if v \<notin> {''path'', ''virtual''} then Inl (BadAddressingStyle v) else Inr v)"

definition parse_verify :: "pyval \<Rightarrow> pyval" where
  "parse_verify v =
     (case v of
        VStr t \<Rightarrow>
          (let low = lower (py_strip t) in
           if low \<in> {''true'', ''1'', ''yes'', ''on''} then VBool True
           else if low \<in> {''false'', ''0'', ''no'', ''off''} then VBool False
           else v)
      | _ \<Rightarrow> v)"

text \<open>
  \<open>json.loads\<close> is an argument, with \<open>None\<close> for its \<open>JSONDecodeError\<close>, and so is \<open>str\<close> on the items of
  the parsed array.
\<close>

record json_lib =
  json_loads :: "string \<Rightarrow> pyval option"
  str_of_item :: "pyval \<Rightarrow> string"

definition comma_separated :: "string \<Rightarrow> pyval" where
  "comma_separated v = VList (map VStr (filter (\<lambda>t. t \<noteq> []) (map py_strip (split_char CHR '','' v))))"

definition parse_bootstrap_servers :: "json_lib \<Rightarrow> pyval \<Rightarrow> pyval" where
  "parse_bootstrap_servers J v =
     (case v of
        VStr t \<Rightarrow>
          (let t = py_strip t in
           if t \<noteq> [] \<and> hd t = CHR ''['' \<and> last t = CHR '']'' then
             (case json_loads J t of
                Some (VList items) \<Rightarrow> VList (map (\<lambda>i. VStr (py_strip (str_of_item J i))) items)
              | _ \<Rightarrow> comma_separated t)
           else comma_separated t)
      | _ \<Rightarrow> v)"

definition normalize_write_strategy :: "string \<Rightarrow> string" where
  "normalize_write_strategy v = (if v = ''multi_sync'' then write_strategy_value MULTI_SYNC_SIMPLE else v)"

definition at_least_one :: "string \<Rightarrow> int \<Rightarrow> SettingsError + int" where
  "at_least_one field n = (if n < 1 then Inl (BelowMinimum field) else Inr n)"

definition validate_backend :: "BackendSettings \<Rightarrow> SettingsError + BackendSettings" where
  "validate_backend b =
     ebind (validate_addressing_style (addressing_style b)) (\<lambda>style.
       Inr (b\<lparr>addressing_style := style, verify := parse_verify (verify b)\<rparr>))"

fun validate_backend_list :: "(string \<times> BackendSettings) list \<Rightarrow> SettingsError + (string \<times> BackendSettings) list" where
  "validate_backend_list [] = Inr []"
| "validate_backend_list ((n, b) # bs) =
     ebind (validate_backend b) (\<lambda>b. ebind (validate_backend_list bs) (\<lambda>bs. Inr ((n, b) # bs)))"

definition validate_kafka :: "json_lib \<Rightarrow> KafkaConfig \<Rightarrow> SettingsError + KafkaConfig" where
  "validate_kafka J k =
     ebind (at_least_one ''concurrency'' (concurrency k)) (\<lambda>_.
     ebind (at_least_one ''replication_max_retries'' (replication_max_retries k)) (\<lambda>_.
       Inr (k\<lparr>bootstrap_servers := parse_bootstrap_servers J (bootstrap_servers k)\<rparr>)))"

definition validate_breaker :: "CircuitBreakerConfig \<Rightarrow> SettingsError + CircuitBreakerConfig" where
  "validate_breaker cb =
     ebind (at_least_one ''failure_threshold'' (cb_failure_threshold cb)) (\<lambda>_.
     ebind (at_least_one ''open_duration_seconds'' (cb_open_duration cb)) (\<lambda>_. Inr cb))"

section \<open>The model validator\<close>

definition secondary_names :: "Settings \<Rightarrow> string list" where
  "secondary_names s = map fst (filter (\<lambda>(n, cfg). \<not> cfg_is_primary cfg) (st_backends s))"

definition primary_names :: "Settings \<Rightarrow> string list" where
  "primary_names s = map fst (filter (\<lambda>(n, cfg). cfg_is_primary cfg) (st_backends s))"

text \<open>\<open>self.sync_backends or list(self.backends.keys())\<close>.\<close>

definition sync_names :: "Settings \<Rightarrow> string list" where
  "sync_names s = (if st_sync_backends s = [] then map fst (st_backends s) else st_sync_backends s)"

definition validate_backends :: "Settings \<Rightarrow> SettingsError + Settings" where
  "validate_backends s =
     (if st_backends s = [] then Inr s
      else if length (primary_names s) = 0 then Inl NoPrimary
      else if length (primary_names s) > 1 then Inl (SeveralPrimaries (primary_names s))
      else if st_sync_quorum s > int (length (sync_names s)) then Inl (QuorumTooLarge (st_sync_quorum s) (length (sync_names s)))
      else (case List.find (\<lambda>n. \<not> has_key (st_backends s) n) (sync_names s) of
          Some n \<Rightarrow> Inl (UnknownSyncBackend n)
        | None \<Rightarrow>
            (case (case st_response_backend s of None \<Rightarrow> None
                   | Some n \<Rightarrow> if has_key (st_backends s) n then None else Some n) of
               Some n \<Rightarrow> Inl (UnknownResponseBackend n)
             | None \<Rightarrow>
                 if st_write_strategy s = MULTI_SYNC_DISTRIBUTED \<and> valkey_url (st_valkey s) = []
                 then Inl ValkeyUrlRequired else Inr s)))"

definition make_settings :: "json_lib \<Rightarrow> string \<Rightarrow> Settings \<Rightarrow> SettingsError + Settings" where
  "make_settings J strategy s =
     ebind (validate_backend_list (st_backends s)) (\<lambda>bs.
     ebind (validate_kafka J (st_kafka s)) (\<lambda>k.
     ebind (case write_strategy_of_value (normalize_write_strategy strategy) of
         None \<Rightarrow> Inl (UnknownWriteStrategy strategy) | Some t \<Rightarrow> Inr t) (\<lambda>t.
     ebind (at_least_one ''sync_quorum'' (st_sync_quorum s)) (\<lambda>_.
     ebind (validate_breaker (st_circuit_breaker s)) (\<lambda>cb.
       validate_backends (s\<lparr>st_backends := bs, st_kafka := k, st_write_strategy := t, st_circuit_breaker := cb\<rparr>))))))"

section \<open>What is built from the settings\<close>

definition from_settings :: "Settings \<Rightarrow> StreamConfig" where
  "from_settings s = \<lparr>sc_chunk_size = st_stream_chunk_size s,
     sc_max_memory_size = st_max_memory_stream_buffer_size s, sc_buffer_dir = st_buffer_dir s\<rparr>"

text \<open>The pool's view of the configured backends.\<close>

definition pool_configs :: "Settings \<Rightarrow> (string \<times> BackendConfig) list" where
  "pool_configs s = map (\<lambda>(n, b). (n, BackendConfig.truncate b)) (st_backends s)"

definition sync_kwargs :: "Settings \<Rightarrow> StreamConfig \<Rightarrow> sync_config" where
  "sync_kwargs s cfg = \<lparr>sync_stream_config = cfg,
     sync_backend_names = (if st_sync_backends s = [] then None else Some (st_sync_backends s)),
     sync_quorum = st_sync_quorum s, response_backend = st_response_backend s\<rparr>"

text \<open>
  The four strategy classes with what their constructors receive.  The replication manager is its mode and
  the base topic of its publisher; the session store is the one of the application.
\<close>

datatype WriteStrategy =
    WritePrimaryReplication ReplicationMode string StreamConfig
  | SimpleMultiSync sync_config
  | QuorumReplication ReplicationMode string sync_config
  | DistributedMultiSync ReplicationMode string sync_config

definition build_write_strategy :: "Settings \<Rightarrow> ReplicationMode \<Rightarrow> string \<Rightarrow> StreamConfig \<Rightarrow> WriteStrategy" where
  "build_write_strategy s mode topic cfg =
     (case st_write_strategy s of
        PRIMARY_REPLICATION \<Rightarrow> WritePrimaryReplication mode topic cfg
      | MULTI_SYNC \<Rightarrow> SimpleMultiSync (sync_kwargs s cfg)
      | MULTI_SYNC_SIMPLE \<Rightarrow> SimpleMultiSync (sync_kwargs s cfg)
      | QUORUM_REPLICATION \<Rightarrow> QuorumReplication mode topic (sync_kwargs s cfg)
      | MULTI_SYNC_DISTRIBUTED \<Rightarrow> DistributedMultiSync mode topic (sync_kwargs s cfg))"

text \<open>The session store: an object of one of two classes, whose methods are those of its class.\<close>

datatype 'r MultipartSessionStore = MemoryStore memory_sessions | ValkeyStore ValkeyConfig "'r valkey_store"

definition create_multipart_session_store :: "Settings \<Rightarrow> 'r \<Rightarrow> 'r MultipartSessionStore" where
  "create_multipart_session_store s server =
     (if st_write_strategy s \<noteq> MULTI_SYNC_DISTRIBUTED then MemoryStore []
      else ValkeyStore (ValkeyConfig.truncate (st_valkey s)) \<lparr>vk_started = False, vk_server = server\<rparr>)"

definition on_store ::
  "(memory_sessions \<Rightarrow> 'a \<times> memory_sessions) \<Rightarrow> (ValkeyConfig \<Rightarrow> 'r valkey_store \<Rightarrow> 'a \<times> 'r valkey_store) \<Rightarrow>
   'r MultipartSessionStore \<Rightarrow> 'a \<times> 'r MultipartSessionStore" where
  "on_store f g st =
     (case st of
        MemoryStore d \<Rightarrow> (case f d of (x, d) \<Rightarrow> (x, MemoryStore d))
      | ValkeyStore cfg v \<Rightarrow> (case g cfg v of (x, v) \<Rightarrow> (x, ValkeyStore cfg v)))"

definition session_methods :: "'r redis \<Rightarrow> 'r MultipartSessionStore store_ops" where
  "session_methods R = \<lparr>
     create_session = (\<lambda>b k u. on_store (memory_create_session b k u) (\<lambda>cfg. vk_create_session R cfg b k u)),
     get_session = (\<lambda>u st. case st of MemoryStore d \<Rightarrow> memory_get_session u d | ValkeyStore cfg v \<Rightarrow> vk_get_session R cfg u v),
     set_backend_upload_ids = (\<lambda>u ids. on_store (memory_set_backend_upload_ids u ids) (\<lambda>cfg. vk_set_backend_upload_ids R cfg u ids)),
     record_part_etags = (\<lambda>u n etags. on_store (memory_record_part_etags u n etags) (\<lambda>cfg. vk_record_part_etags R cfg u n etags)),
     delete_session = (\<lambda>u. on_store (memory_delete_session u) (\<lambda>cfg. vk_delete_session R cfg u))\<rparr>"

section \<open>The application's store keeps the contract of a session store\<close>

definition store_sessions :: "'r redis \<Rightarrow> 'r MultipartSessionStore \<Rightarrow> string \<Rightarrow> MultipartSession option" where
  "store_sessions R st = (case st of MemoryStore d \<Rightarrow> map_of d | ValkeyStore cfg v \<Rightarrow> vk_sessions R cfg v)"

definition store_inv :: "'r redis \<Rightarrow> 'r MultipartSessionStore \<Rightarrow> bool" where
  "store_inv R st \<longleftrightarrow> (case st of MemoryStore d \<Rightarrow> True | ValkeyStore cfg v \<Rightarrow> vk_inv R cfg v)"

lemmas session_methods_defs = session_methods_def on_store_def store_sessions_def store_inv_def

context redis_client
begin

lemma store_contract: "session_store (session_methods R) (store_sessions R) (store_inv R)"
proof -
  have m: "session_store memory_session_store map_of (\<lambda>_. True)" by (rule mem_sessions.session_store_axioms)
  have v: "session_store (valkey_session_store R cfg) (vk_sessions R cfg) (vk_inv R cfg)" for cfg
    by (rule valkey.session_store_axioms)
  note [simp] = session_methods_defs memory_session_store_def valkey_session_store_def
  show ?thesis
  proof
    fix s assume inv: "store_inv R s"
    show "\<exists>s'. create_session (session_methods R) b k u s = (Inr (new_session b k u), s') \<and> store_inv R s' \<and>
        store_sessions R s' = (store_sessions R s)(u \<mapsto> new_session b k u)" for b k u
    proof (cases s)
      case (MemoryStore d)
      then show ?thesis using session_store.create_law [OF m, where s = d and b = b and k = k and u = u] by fastforce
    next
      case (ValkeyStore cfg x)
      then show ?thesis using session_store.create_law [OF v, where s = x and b = b and k = k and u = u] inv by fastforce
    qed
    show "get_session (session_methods R) u s = Inr (store_sessions R s u)" for u
      using session_store.get_law [OF m, where u = u] session_store.get_law [OF v, where u = u] inv by (cases s) simp_all
    show "\<exists>s'. set_backend_upload_ids (session_methods R) u ids s = (None, s') \<and> store_inv R s' \<and>
        store_sessions R s' = (store_sessions R s)(u \<mapsto> m\<lparr>backend_upload_ids := ids\<rparr>)"
      if "store_sessions R s u = Some m" "distinct (map fst ids)" for u m ids
    proof (cases s)
      case (MemoryStore d)
      then show ?thesis using session_store.set_ids_known [OF m, where s = d and u = u and ids = ids] that by fastforce
    next
      case (ValkeyStore cfg x)
      then show ?thesis using session_store.set_ids_known [OF v, where s = x and u = u and ids = ids] that inv by fastforce
    qed
    show "set_backend_upload_ids (session_methods R) u ids s = (Some (unknown_session u), s)"
      "record_part_etags (session_methods R) u n ids s = (Some (unknown_session u), s)"
      if "store_sessions R s u = None" for u ids n
      using session_store.set_ids_unknown [OF m, where u = u and ids = ids] session_store.set_ids_unknown [OF v, where u = u and ids = ids]
        session_store.record_etags_unknown [OF m, where u = u and n = n and etags = ids]
        session_store.record_etags_unknown [OF v, where u = u and n = n and etags = ids] that inv
      by (cases s; simp)+
    show "\<exists>s'. record_part_etags (session_methods R) u n etags s = (None, s') \<and> store_inv R s' \<and>
        store_sessions R s' = (store_sessions R s)(u \<mapsto> m\<lparr>part_etags := AList.update n etags (part_etags m)\<rparr>)"
      if "store_sessions R s u = Some m" "distinct (map fst etags)" for u m n etags
    proof (cases s)
      case (MemoryStore d)
      then show ?thesis using session_store.record_etags_known [OF m, where s = d and u = u and n = n and etags = etags] that by fastforce
    next
      case (ValkeyStore cfg x)
      then show ?thesis using session_store.record_etags_known [OF v, where s = x and u = u and n = n and etags = etags] that inv by fastforce
    qed
    show "\<exists>s'. delete_session (session_methods R) u s = (None, s') \<and> store_inv R s' \<and>
        store_sessions R s' = (store_sessions R s)(u := None)" for u
    proof (cases s)
      case (MemoryStore d)
      then show ?thesis using session_store.delete_law [OF m, where s = d and u = u] by fastforce
    next
      case (ValkeyStore cfg x)
      then show ?thesis using session_store.delete_law [OF v, where s = x and u = u] inv by fastforce
    qed
  qed
qed

end

sublocale redis_client \<subseteq> app_store: session_store "session_methods R" "store_sessions R" "store_inv R"
  by (rule store_contract)

section \<open>What validation guarantees\<close>

lemma validate_backend_list_names:
  "validate_backend_list bs = Inr bs' \<Longrightarrow> map fst bs' = map fst bs \<and>
     (\<forall>(n, b) \<in> set bs'. addressing_style b \<in> {''path'', ''virtual''})"
proof (induction bs arbitrary: bs')
  case (Cons nb bs)
  then show ?case
    by (cases nb) (auto simp: ebind_Inr_iff validate_backend_def validate_addressing_style_def split: if_splits)
qed simp

lemma validate_backends_same: "validate_backends s = Inr s' \<Longrightarrow> s' = s"
  by (auto simp: validate_backends_def simp del: find.simps split: if_splits option.splits)

text \<open>Settings that \<open>make_settings\<close> returns, for a configuration with at least one backend.\<close>

definition valid_settings :: "Settings \<Rightarrow> bool" where
  "valid_settings s \<longleftrightarrow> distinct (map fst (st_backends s)) \<and> (\<exists>p. primary_names s = [p]) \<and>
     set (sync_names s) \<subseteq> fst ` set (st_backends s) \<and>
     1 \<le> st_sync_quorum s \<and> st_sync_quorum s \<le> int (length (sync_names s)) \<and>
     (\<forall>n. st_response_backend s = Some n \<longrightarrow> n \<in> fst ` set (st_backends s)) \<and>
     st_write_strategy s \<noteq> MULTI_SYNC \<and> (st_write_strategy s = MULTI_SYNC_DISTRIBUTED \<longrightarrow> valkey_url (st_valkey s) \<noteq> []) \<and>
     (\<forall>(n, b) \<in> set (st_backends s). addressing_style b \<in> {''path'', ''virtual''}) \<and>
     1 \<le> concurrency (st_kafka s) \<and> 1 \<le> replication_max_retries (st_kafka s) \<and>
     1 \<le> cb_failure_threshold (st_circuit_breaker s) \<and> 1 \<le> cb_open_duration (st_circuit_breaker s)"

lemma normalized_not_alias: "write_strategy_of_value (normalize_write_strategy v) \<noteq> Some MULTI_SYNC"
  by (auto simp: write_strategy_of_value_def normalize_write_strategy_def)

lemma validate_backends_valid:
  assumes "validate_backends s = Inr s" and "st_backends s \<noteq> []" and "distinct (map fst (st_backends s))"
  shows "(\<exists>p. primary_names s = [p]) \<and> set (sync_names s) \<subseteq> fst ` set (st_backends s) \<and>
     st_sync_quorum s \<le> int (length (sync_names s)) \<and>
     (\<forall>n. st_response_backend s = Some n \<longrightarrow> n \<in> fst ` set (st_backends s)) \<and>
     (st_write_strategy s = MULTI_SYNC_DISTRIBUTED \<longrightarrow> valkey_url (st_valkey s) \<noteq> [])"
proof -
  have n: "length (primary_names s) \<noteq> 0" "\<not> length (primary_names s) > 1" and q: "st_sync_quorum s \<le> int (length (sync_names s))"
    and f: "List.find (\<lambda>n. \<not> has_key (st_backends s) n) (sync_names s) = None"
    and r: "(case st_response_backend s of None \<Rightarrow> None | Some n \<Rightarrow> if has_key (st_backends s) n then None else Some n) = None"
    and u: "\<not> (st_write_strategy s = MULTI_SYNC_DISTRIBUTED \<and> valkey_url (st_valkey s) = [])"
    using assms(1,2) unfolding validate_backends_def by (auto simp del: find.simps split: if_splits option.splits)
  from n have "length (primary_names s) = 1" by linarith
  then obtain p where "primary_names s = [p]" by (auto simp: length_Suc_conv)
  moreover from f have "set (sync_names s) \<subseteq> fst ` set (st_backends s)"
    by (auto simp: find_None_iff has_key_iff_set)
  moreover from r have "\<forall>n. st_response_backend s = Some n \<longrightarrow> n \<in> fst ` set (st_backends s)"
    by (auto simp: has_key_iff_set split: if_splits)
  ultimately show ?thesis using q u by blast
qed

lemma make_settings_valid:
  assumes "make_settings J strategy s0 = Inr s" and "st_backends s0 \<noteq> []" and "distinct (map fst (st_backends s0))"
  shows "valid_settings s"
proof -
  obtain bs k t cb where v: "validate_backend_list (st_backends s0) = Inr bs" "validate_kafka J (st_kafka s0) = Inr k"
    "write_strategy_of_value (normalize_write_strategy strategy) = Some t" "at_least_one ''sync_quorum'' (st_sync_quorum s0) = Inr (st_sync_quorum s0)"
    "validate_breaker (st_circuit_breaker s0) = Inr cb"
    "validate_backends (s0\<lparr>st_backends := bs, st_kafka := k, st_write_strategy := t, st_circuit_breaker := cb\<rparr>) = Inr s"
    using assms(1) by (auto simp: make_settings_def ebind_Inr_iff at_least_one_def split: option.splits if_splits)
  have s: "s = s0\<lparr>st_backends := bs, st_kafka := k, st_write_strategy := t, st_circuit_breaker := cb\<rparr>"
    using validate_backends_same [OF v(6)] .
  have names: "map fst (st_backends s) = map fst (st_backends s0)"
    "\<forall>(n, b) \<in> set (st_backends s). addressing_style b \<in> {''path'', ''virtual''}"
    using validate_backend_list_names [OF v(1)] s by simp_all
  then have "st_backends s \<noteq> []" using assms(2) by auto
  with validate_backends_valid [of s] v(6) s names assms(3)
  have core: "(\<exists>p. primary_names s = [p]) \<and> set (sync_names s) \<subseteq> fst ` set (st_backends s) \<and>
     st_sync_quorum s \<le> int (length (sync_names s)) \<and>
     (\<forall>n. st_response_backend s = Some n \<longrightarrow> n \<in> fst ` set (st_backends s)) \<and>
     (st_write_strategy s = MULTI_SYNC_DISTRIBUTED \<longrightarrow> valkey_url (st_valkey s) \<noteq> [])" by simp
  have "1 \<le> st_sync_quorum s" using v(4) s by (auto simp: at_least_one_def split: if_splits)
  moreover have "1 \<le> concurrency (st_kafka s) \<and> 1 \<le> replication_max_retries (st_kafka s)"
    using v(2) s by (auto simp: validate_kafka_def at_least_one_def ebind_Inr_iff split: if_splits)
  moreover have "1 \<le> cb_failure_threshold (st_circuit_breaker s) \<and> 1 \<le> cb_open_duration (st_circuit_breaker s)"
    using v(5) s by (auto simp: validate_breaker_def at_least_one_def ebind_Inr_iff split: if_splits)
  moreover have "st_write_strategy s \<noteq> MULTI_SYNC" using v(3) s normalized_not_alias [of strategy] by auto
  ultimately show ?thesis using core names assms(3) by (simp add: valid_settings_def)
qed

text \<open>A configured pool is well formed, and the names in the settings resolve.\<close>

lemma fold_last: "fold (\<lambda>x p. if P x then Some (f x) else p) xs acc =
  (case filter P xs of [] \<Rightarrow> acc | y # ys \<Rightarrow> Some (f (last (y # ys))))"
  by (induction xs arbitrary: acc) (auto split: list.split)

lemma pool_configs_names [simp]: "map fst (pool_configs s) = map fst (st_backends s)"
  by (simp add: pool_configs_def case_prod_unfold comp_def)

lemma new_pool_names [simp]: "map bc_name (clients (new_pool configs)) = map fst configs"
  by (simp add: new_pool_def make_client_def comp_def)

lemma valid_pool:
  assumes "valid_settings s"
  shows "wf_pool (new_pool (pool_configs s))"
proof -
  let ?cs = "pool_configs s"
  have d: "distinct (map fst ?cs)" using assms by (simp add: valid_settings_def)
  obtain p where p: "primary_names s = [p]" using assms by (auto simp: valid_settings_def)
  have "map fst (filter (\<lambda>nc. cfg_is_primary (snd nc)) ?cs) = primary_names s"
    by (simp add: pool_configs_def primary_names_def filter_map comp_def case_prod_unfold BackendConfig.truncate_def)
  then obtain nc where nc: "filter (\<lambda>nc. cfg_is_primary (snd nc)) ?cs = [nc]" "fst nc = p"
    using p by (auto simp: map_eq_Cons_conv)
  have prim: "pool_primary (new_pool ?cs) = Some (make_client nc)" by (simp add: new_pool_def fold_last nc(1))
  have mem: "x \<in> set ?cs \<and> cfg_is_primary (snd x) \<longleftrightarrow> x = nc" for x
    using arg_cong [OF nc(1), of set] by auto
  have "inj_on fst (set ?cs)" using d unfolding distinct_map by blast
  then have inj: "x \<in> set ?cs \<Longrightarrow> make_client x = make_client nc \<longleftrightarrow> x = nc" for x
    using mem [of nc] by (auto simp: make_client_def dest: inj_onD)
  have "distinct (map bc_name (clients (new_pool ?cs)))" using d by simp
  moreover have "make_client nc \<in> set (clients (new_pool ?cs))" using mem [of nc] by (simp add: new_pool_def)
  moreover have "\<forall>c \<in> set (clients (new_pool ?cs)). is_primary c \<longleftrightarrow> c = make_client nc"
    using mem inj by (auto simp: new_pool_def) (auto simp: make_client_def)
  ultimately show ?thesis using prim by (auto simp: wf_pool_def)
qed

lemma pool_start_wf:
  assumes "wf_pool pool"
  shows "wf_pool (pool_start pool)"
proof -
  obtain p where p: "pool_primary pool = Some p" "p \<in> set (clients pool)" "\<forall>c \<in> set (clients pool). is_primary c \<longleftrightarrow> c = p"
    and d: "distinct (map bc_name (clients pool))" using assms by (auto simp: wf_pool_def)
  have n: "bc_name (client_start c) = bc_name c" "is_primary (client_start c) = is_primary c" for c
    by (simp_all add: client_start_def)
  have "inj_on bc_name (set (clients pool))" using d by (simp add: distinct_map)
  then have "c \<in> set (clients pool) \<Longrightarrow> client_start c = client_start p \<Longrightarrow> c = p" for c
    using p(2) n(1) by (metis inj_onD)
  with p n have "\<forall>c \<in> set (clients pool). is_primary (client_start c) \<longleftrightarrow> client_start c = client_start p" by metis
  moreover have "distinct (map bc_name (clients (pool_start pool)))" using d by (simp add: pool_start_def n(1) comp_def)
  ultimately show ?thesis using p by (auto simp: wf_pool_def pool_start_def)
qed

lemma pool_start_ready: "c \<in> set (clients (pool_start pool)) \<Longrightarrow> ready c"
  by (auto simp: pool_start_def client_start_def ready_def)

lemma new_breakers_inv:
  "valid_settings s \<Longrightarrow> breakers w = new_breakers (pool_configs s) (st_circuit_breaker s) \<Longrightarrow> world_inv w"
  by (auto simp: world_inv_def new_breakers_def valid_settings_def intro!: breaker_inv_new split: if_splits)

end
