(* ===== verification/Configured_Strategy.thy ===== *)
theory Configured_Strategy
  imports Settings
begin

text \<open>
  The write strategy that the settings choose, as the handlers see it: the object that
  \<open>build_write_strategy\<close> returns (\<open>src/s3mer/backends/write_factory.py\<close>) with its \<open>execute\<close> method, on a
  state that consists of the session store and the world.  Whatever class the object has, it meets the
  contract \<open>write_access\<close> with one promise: a successful upload is on as many backends as the settings ask for.
\<close>

section \<open>The execute method of the configured object\<close>

fun run_strategy ::
  "'r redis \<Rightarrow> 'w services \<Rightarrow> (nat \<Rightarrow> nat list) \<Rightarrow> BackendPool \<Rightarrow> WriteStrategy \<Rightarrow> S3Operation \<Rightarrow> pdict \<Rightarrow> body \<Rightarrow> bool \<Rightarrow>
   'r MultipartSessionStore \<times> 'w world \<Rightarrow> (pyexc + pdict) \<times> 'r MultipartSessionStore \<times> 'w world" where
  "run_strategy R E sched pool (WritePrimaryReplication mode topic cfg) op ps b rp (st, w) =
     (case primary_run E mode topic cfg pool op ps b rp w of (r, w) \<Rightarrow> (r, st, w))"
| "run_strategy R E sched pool (SimpleMultiSync cfg) op ps b rp (st, w) =
     (case simple_run E sched cfg pool op ps b rp w of (r, w) \<Rightarrow> (r, st, w))"
| "run_strategy R E sched pool (QuorumReplication mode topic cfg) op ps b rp (st, w) =
     (case quorum_run E sched mode topic cfg pool op ps b rp w of (r, w) \<Rightarrow> (r, st, w))"
| "run_strategy R E sched pool (DistributedMultiSync mode topic cfg) op ps b rp (st, w) =
     distributed_execute (session_methods R) E sched mode topic cfg op pool ps b rp st w"

section \<open>Errors of the distributed strategy\<close>

lemma json_str_error: "json_str j = Inl e \<Longrightarrow> error_code_ok e"
  by (cases j) auto

lemma json_items_error: "json_items j = Inl e \<Longrightarrow> error_code_ok e"
  by (cases j) auto

lemma json_strs_error: "json_strs d = Inl e \<Longrightarrow> error_code_ok e"
  by (induction d rule: json_strs.induct) (auto simp: ebind_Inl_iff json_str_error)

lemma json_parts_error: "json_parts d = Inl e \<Longrightarrow> error_code_ok e"
  by (induction d rule: json_parts.induct) (auto simp: ebind_Inl_iff json_items_error json_strs_error split: option.splits)

lemma json_field_error: "json_field d k = Inl e \<Longrightarrow> error_code_ok e"
  by (auto simp: json_field_def json_str_error split: option.splits)

lemma deserialize_error: "deserialize j = Inl e \<Longrightarrow> error_code_ok e"
  by (auto simp: deserialize_def ebind_Inl_iff json_items_error json_strs_error json_parts_error json_field_error)

lemma vk_get_session_error: "vk_get_session R cfg u v = Inl e \<Longrightarrow> error_code_ok e"
  by (auto simp: vk_get_session_def not_started_def ebind_Inl_iff deserialize_error split: if_splits option.splits)

lemma vk_save_error: "vk_save R cfg m v = (Some e, v') \<Longrightarrow> error_code_ok e"
  by (auto simp: vk_save_def not_started_def split: if_splits)

text \<open>Whatever a method of the session store raises is reported as an error.\<close>

lemma store_errors:
  "create_session (session_methods R) b k u st = (Inl e, st') \<Longrightarrow> error_code_ok e"
  "get_session (session_methods R) u st = Inl e \<Longrightarrow> error_code_ok e"
  "set_backend_upload_ids (session_methods R) u ids st = (Some e, st') \<Longrightarrow> error_code_ok e"
  "record_part_etags (session_methods R) u n etags st = (Some e, st') \<Longrightarrow> error_code_ok e"
  "delete_session (session_methods R) u st = (Some e, st') \<Longrightarrow> error_code_ok e"
  using vk_save_error vk_get_session_error
  by (auto simp: session_methods_def on_store_def memory_session_defs vk_create_session_def
      vk_set_backend_upload_ids_def vk_record_part_etags_def vk_delete_session_def unknown_session_def not_started_def Let_def
      split: MultipartSessionStore.splits prod.splits option.splits sum.splits if_splits)

lemma backend_parts_error: "backend_parts m n ps = Inl e \<Longrightarrow> error_code_ok e"
proof (induction ps)
  case (Cons p ps)
  then show ?case
    by (cases "map_of (as_dict p) ''PartNumber''"; cases "backend_parts m n ps")
      (auto split: option.splits pyval.splits)
qed simp

lemma good_prep_backend [simp]: "good_prep (prepare_backend_params op ps m)"
  using backend_parts_error
  by (auto simp: good_prep_def prepare_backend_params_def ebind_Inl_iff Let_def split: option.splits if_splits)

lemma load_session_error: "load_session (session_methods R) u st = Inl e \<Longrightarrow> error_code_ok e"
  using store_errors(2) by (auto simp: load_session_def no_such_upload_def NO_SUCH_UPLOAD_def ebind_Inl_iff split: option.splits)

lemma part_number_param_error: "part_number_param ps = Inl e \<Longrightarrow> error_code_ok e"
  by (auto simp: part_number_param_def split: option.splits pyval.splits)

lemma select_error: "select_client_response succ resp = Inl e \<Longrightarrow> error_code_ok e"
  by (auto simp: select_client_response_def simp del: find.simps split: list.splits option.splits)

lemma create_multipart_error:
  assumes "handle_create_multipart (session_methods R) E sched mode topic cfg pool ps b rp st w = (Inl e, st', w')"
    and "fair_sched sched" and "foreign_errors E"
  shows "error_code_ok e"
proof -
  have on_backends: "error_code_ok e"
    if "create_on_backends (session_methods R) E sched mode topic cfg pool ps b rp u s1 w1 = (Inl e, s2, w2)" for u s1 w1 s2 w2 e
  proof -
    obtain r w3 where r: "run_concurrent E sched cfg (prepare_backend_params CREATE_MULTIPART_UPLOAD (AList.delete ''UploadId'' ps) None)
        CREATE_MULTIPART_UPLOAD pool b w1 = (r, w3)" by force
    note err = run_concurrent_error [OF r assms(2,3) good_prep_backend]
    show ?thesis
    proof (cases r)
      case (Inl e')
      then show ?thesis using that r err by (simp add: create_on_backends_def)
    next
      case (Inr result)
      show ?thesis
      proof (cases "quorum_met (length (successes result)) (sync_quorum cfg)")
        case False
        then have "settle cfg (sync_quorum cfg) result = Inl e"
          using that r Inr by (simp add: create_on_backends_def settle_def)
        then show ?thesis using settle_error err Inr by fastforce
      next
        case True
        then show ?thesis
          using that r Inr store_errors(3) select_error fill_error [OF _ assms(3)]
          by (fastforce simp: create_on_backends_def Let_def split: prod.splits option.splits sum.splits if_splits)
      qed
    qed
  qed
  show ?thesis
    using assms(1) on_backends store_errors(1,5)
    by (fastforce simp: handle_create_multipart_def draw_uuid_def split: prod.splits sum.splits option.splits)
qed

lemma upload_part_error:
  assumes "strategy_handle_upload_part (session_methods R) E sched cfg pool ps b st w = (Inl e, st', w')"
    and "fair_sched sched" and "foreign_errors E"
  shows "error_code_ok e"
proof (cases "load_session (session_methods R) (str_param ps ''UploadId'') st")
  case (Inl e')
  then show ?thesis using assms(1) load_session_error by (auto simp: strategy_handle_upload_part_def)
next
  case m: (Inr m)
  obtain r w3 where r: "run_concurrent E sched cfg (prepare_backend_params UPLOAD_PART ps (Some m)) UPLOAD_PART pool b w = (r, w3)" by force
  note err = run_concurrent_error [OF r assms(2,3) good_prep_backend]
  show ?thesis
  proof (cases r)
    case (Inl e')
    then show ?thesis using assms(1) m r err by (simp add: strategy_handle_upload_part_def)
  next
    case (Inr result)
    show ?thesis
    proof (cases "quorum_met (length (successes result)) (sync_quorum cfg)")
      case False
      then have "settle cfg (sync_quorum cfg) result = Inl e"
        using assms(1) m r Inr by (simp add: strategy_handle_upload_part_def settle_def)
      then show ?thesis using settle_error err Inr by fastforce
    next
      case True
      then show ?thesis
        using assms(1) m r Inr store_errors(4) select_error part_number_param_error
        by (fastforce simp: strategy_handle_upload_part_def split: prod.splits option.splits sum.splits)
    qed
  qed
qed

lemma complete_or_abort_error:
  assumes "handle_complete_or_abort (session_methods R) E sched mode topic cfg op pool ps b rp st w = (Inl e, st', w')"
    and "fair_sched sched" and "foreign_errors E"
  shows "error_code_ok e"
proof (cases "load_session (session_methods R) (str_param ps ''UploadId'') st")
  case (Inl e')
  then show ?thesis using assms(1) load_session_error by (auto simp: handle_complete_or_abort_def)
next
  case m: (Inr m)
  obtain r w3 where r: "run_concurrent E sched cfg (prepare_backend_params op ps (Some m)) op pool b w = (r, w3)" by force
  note err = run_concurrent_error [OF r assms(2,3) good_prep_backend]
  show ?thesis
  proof (cases r)
    case (Inl e')
    then show ?thesis using assms(1) m r err by (simp add: handle_complete_or_abort_def)
  next
    case (Inr result)
    then show ?thesis
      using assms(1) m r err settle_error [of cfg "sync_quorum cfg" result] store_errors(5) fill_error [OF _ assms(3)]
      by (fastforce simp: handle_complete_or_abort_def split: prod.splits option.splits sum.splits if_splits)
  qed
qed

lemma distributed_error:
  assumes "distributed_execute (session_methods R) E sched mode topic cfg op pool ps b rp st w = (Inl e, st', w')"
    and "fair_sched sched" and "foreign_errors E"
  shows "error_code_ok e"
proof (cases "op \<in> MULTIPART_OPERATIONS")
  case True
  then show ?thesis
    using assms create_multipart_error [of R E sched mode topic cfg pool ps b rp st w e st' w']
      upload_part_error [of R E sched cfg pool ps b st w e st' w']
      complete_or_abort_error [of R E sched mode topic cfg op pool ps b rp st w e st' w']
    by (auto simp: distributed_execute_def MULTIPART_OPERATIONS_def)
next
  case False
  obtain r w3 where r: "run_concurrent E sched cfg (prepare_backend_params op ps None) op pool b w = (r, w3)" by force
  note err = run_concurrent_error [OF r assms(2,3) good_prep_backend]
  have d: "op \<noteq> CREATE_MULTIPART_UPLOAD" "op \<noteq> UPLOAD_PART" "op \<notin> {COMPLETE_MULTIPART_UPLOAD, ABORT_MULTIPART_UPLOAD}"
    using False by (auto simp: MULTIPART_OPERATIONS_def)
  show ?thesis
  proof (cases r)
    case (Inl e')
    then show ?thesis using assms(1) d r err by (simp add: distributed_execute_def)
  next
    case (Inr result)
    then show ?thesis
      using assms(1) d r err settle_error [of cfg "sync_quorum cfg" result] fill_error [OF _ assms(3)]
      by (fastforce simp: distributed_execute_def split: prod.splits option.splits sum.splits if_splits)
  qed
qed

section \<open>Copies\<close>

text \<open>The backends that accepted a call of the operation with exactly these bytes.\<close>

definition copies :: "event list \<Rightarrow> S3Operation \<Rightarrow> bytes \<Rightarrow> string set" where
  "copies es op d = set (map fst (filter (\<lambda>(n, o', b, r). o' = op \<and> b = d \<and> (case r of Inr _ \<Rightarrow> True | Inl _ \<Rightarrow> False)) (calls_of es)))"

lemma in_copies: "n \<in> copies es op d \<longleftrightarrow> (\<exists>r. (n, op, d, Inr r) \<in> set (calls_of es))"
proof
  assume "n \<in> copies es op d"
  then obtain x where "(n, op, d, x) \<in> set (calls_of es)" "case x of Inr _ \<Rightarrow> True | Inl _ \<Rightarrow> False"
    by (auto simp: copies_def)
  then show "\<exists>r. (n, op, d, Inr r) \<in> set (calls_of es)" by (cases x) auto
next
  assume "\<exists>r. (n, op, d, Inr r) \<in> set (calls_of es)"
  then show "n \<in> copies es op d" by (force simp: copies_def)
qed

definition required_copies :: "Settings \<Rightarrow> nat" where
  "required_copies s =
     (case st_write_strategy s of
        PRIMARY_REPLICATION \<Rightarrow> 1
      | MULTI_SYNC \<Rightarrow> length (sync_names s)
      | MULTI_SYNC_SIMPLE \<Rightarrow> length (sync_names s)
      | QUORUM_REPLICATION \<Rightarrow> nat (st_sync_quorum s)
      | MULTI_SYNC_DISTRIBUTED \<Rightarrow> nat (st_sync_quorum s))"

definition stored_enough :: "Settings \<Rightarrow> S3Operation \<Rightarrow> bytes \<Rightarrow> event list \<Rightarrow> bool" where
  "stored_enough s op d es \<longleftrightarrow> required_copies s \<le> card (copies es op d \<inter> fst ` set (st_backends s))"

lemma get_all_names: "get_all pool ns = Inr bs \<Longrightarrow> map bc_name bs = ns \<and> set bs \<subseteq> set (clients pool)"
  by (induction ns arbitrary: bs) (auto simp: ebind_Inr_iff pool_get_def find_Some_iff split: option.splits)

lemma resolve_names:
  assumes "resolve_sync_backends pool (sync_backend_names (sync_kwargs s cfg)) = Inr bs"
    and "map bc_name (clients pool) = map fst (st_backends s)"
  shows "map bc_name bs = sync_names s \<and> set (map bc_name bs) \<subseteq> fst ` set (st_backends s)"
proof -
  have "map bc_name bs = sync_names s \<and> set bs \<subseteq> set (clients pool)"
    using assms get_all_names [of pool "st_sync_backends s" bs]
    by (auto simp: resolve_sync_backends_def sync_kwargs_def sync_names_def split: if_splits)
  moreover have "bc_name ` set (clients pool) = fst ` set (st_backends s)"
    using arg_cong [OF assms(2), of set] by simp
  ultimately show ?thesis unfolding set_map by (metis image_mono)
qed

lemma in_fan_out: "(n, op, d, Inr r) \<in> set (fan_out_calls op d rs) \<longleftrightarrow> (\<exists>c. (c, Inr r) \<in> set rs \<and> bc_name c = n)"
  by (auto simp: fan_out_calls_def)

text \<open>A fan-out to backends with different names leaves as many copies as it has successes.\<close>

lemma fan_out_copies:
  assumes "mset (calls_of es) = mset (fan_out_calls op d rs)" and "distinct (map (bc_name \<circ> fst) rs)"
    and "bc_name ` fst ` set rs \<subseteq> names"
  shows "card (copies es op d \<inter> names) = length (filter (\<lambda>(c, r). \<exists>x. r = Inr x) rs)"
proof -
  let ?ok = "filter (\<lambda>(c, r). \<exists>x. r = Inr x) rs"
  have eq: "set (calls_of es) = set (fan_out_calls op d rs)" using assms(1) by (metis set_mset_mset)
  have "n \<in> copies es op d \<longleftrightarrow> (\<exists>c r. (c, Inr r) \<in> set rs \<and> bc_name c = n)" for n
    unfolding in_copies eq in_fan_out by blast
  moreover have "n \<in> set (map (bc_name \<circ> fst) ?ok) \<longleftrightarrow> (\<exists>c r. (c, Inr r) \<in> set rs \<and> bc_name c = n)" for n
    by force
  ultimately have "copies es op d = set (map (bc_name \<circ> fst) ?ok)" by blast
  moreover have "set (map (bc_name \<circ> fst) ?ok) \<subseteq> names" using assms(3) by auto
  ultimately have "copies es op d \<inter> names = set (map (bc_name \<circ> fst) ?ok)" by (simp only: Int_absorb2)
  then show ?thesis
    using distinct_card [OF filter_key_distinct [OF assms(2)], of "\<lambda>(c, r). \<exists>x. r = Inr x"] by (simp only: length_map)
qed

lemma fan_out_stored:
  assumes "resolve_sync_backends pool (sync_backend_names (sync_kwargs s cfg)) = Inr (map fst rs)"
    and "map bc_name (clients pool) = map fst (st_backends s)" and "distinct (sync_names s)"
    and "mset (calls_of es) = mset (fan_out_calls op d rs)"
    and "required_copies s \<le> length (filter (\<lambda>(c, r). \<exists>x. r = Inr x) rs)"
  shows "stored_enough s op d es"
proof -
  have n: "map bc_name (map fst rs) = sync_names s" "set (map bc_name (map fst rs)) \<subseteq> fst ` set (st_backends s)"
    using resolve_names [OF assms(1,2)] by blast+
  then have "distinct (map (bc_name \<circ> fst) rs)" using assms(3) by simp
  moreover have "bc_name ` fst ` set rs \<subseteq> fst ` set (st_backends s)" using n(2) unfolding set_map .
  ultimately show ?thesis using fan_out_copies [OF assms(4)] assms(5) by (simp add: stored_enough_def)
qed

lemma last_call_stored:
  assumes "calls_of es \<noteq> []" and "last (calls_of es) = (n, op, d, Inr r)" and "n \<in> fst ` set (st_backends s)"
    and "st_write_strategy s = PRIMARY_REPLICATION"
  shows "stored_enough s op d es"
proof -
  have "n \<in> copies es op d \<inter> fst ` set (st_backends s)"
    using last_in_set [OF assms(1)] assms(2,3) by (auto simp: in_copies)
  then have "1 \<le> card (copies es op d \<inter> fst ` set (st_backends s))"
    by (metis List.finite_set One_nat_def Suc_leI card_gt_0_iff empty_iff finite_Int finite_imageI)
  then show ?thesis using assms(4) by (simp add: stored_enough_def required_copies_def)
qed

section \<open>The configured strategy keeps the contract\<close>

text \<open>A proxy with these settings: its pool is started, and the libraries behave as documented.\<close>

definition proxy_ready :: "'w services \<Rightarrow> (nat \<Rightarrow> nat list) \<Rightarrow> Settings \<Rightarrow> BackendPool \<Rightarrow> bool" where
  "proxy_ready E sched s pool \<longleftrightarrow> valid_settings s \<and> distinct (st_sync_backends s) \<and>
     map bc_name (clients pool) = map fst (st_backends s) \<and> deployed E (from_settings s) pool \<and> fair_sched sched"

definition stored_after ::
  "Settings \<Rightarrow> S3Operation \<Rightarrow> pdict \<Rightarrow> bytes \<Rightarrow> pdict \<Rightarrow> 'st \<times> 'w world \<Rightarrow> 'st \<times> 'w world \<Rightarrow> bool" where
  "stored_after s op ps d r x y \<longleftrightarrow> op \<notin> MULTIPART_OPERATIONS \<longrightarrow>
     (\<exists>es. trace (snd y) = trace (snd x) @ es \<and> stored_enough s op d es)"

lemma proxy_ready_facts:
  assumes "proxy_ready E sched s pool"
  shows "foreign_errors E" "fair_sched sched" "\<forall>c \<in> set (clients pool). ready c" "distinct (sync_names s)"
    "map bc_name (clients pool) = map fst (st_backends s)" "sync_deployed E sched pool" "bc_name ` set (clients pool) = fst ` set (st_backends s)"
proof -
  show names: "map bc_name (clients pool) = map fst (st_backends s)" using assms by (simp add: proxy_ready_def)
  show "bc_name ` set (clients pool) = fst ` set (st_backends s)" using arg_cong [OF names, of set] by simp
  show "foreign_errors E" "fair_sched sched" "\<forall>c \<in> set (clients pool). ready c" "sync_deployed E sched pool"
    using assms by (simp_all add: proxy_ready_def deployed_def sync_deployed_def)
  show "distinct (sync_names s)" using assms by (simp add: proxy_ready_def sync_names_def valid_settings_def)
qed

lemma primary_stored:
  assumes "proxy_ready E sched s pool" and "request_body b" and "st_write_strategy s = PRIMARY_REPLICATION"
    and "primary_run E mode topic (from_settings s) pool op ps b True w = (Inr r, w')"
  shows "\<exists>es. trace w' = trace w @ es \<and> stored_enough s op (body_rest b) es"
proof -
  have "deployed E (from_settings s) pool" using assms(1) by (simp add: proxy_ready_def)
  from primary_run_success [OF this assms(2,4)] obtain es src where es: "trace w' = trace w @ es" "src \<in> set (clients pool)"
    "calls_of es \<noteq> []" "last (calls_of es) = (bc_name src, op, body_rest b, Inr r)"
    by (auto simp: replicated_write_def replicated_everywhere_def)
  have "bc_name src \<in> fst ` set (st_backends s)" using es(2) proxy_ready_facts(7) [OF assms(1)] by auto
  from last_call_stored [OF es(3,4) this assms(3)] es(1) show ?thesis by blast
qed

lemma all_succeeded: "\<forall>(c, r) \<in> set rs. \<exists>x. r = Inr x \<Longrightarrow> filter (\<lambda>(c, r). \<exists>x. r = Inr x) rs = rs"
  by (rule filter_True) simp

lemma simple_stored:
  assumes "proxy_ready E sched s pool" and "st_write_strategy s = MULTI_SYNC_SIMPLE"
    and "simple_run E sched (sync_kwargs s cfg) pool op ps b rp w = (Inr r, w')"
  shows "\<exists>es. trace w' = trace w @ es \<and> stored_enough s op (body_rest b) es"
proof -
  note f = proxy_ready_facts [OF assms(1)]
  from simple_execute_law [OF assms(3) [unfolded simple_run_def] f(2,3)] obtain rs calls where
    rs: "resolve_sync_backends pool (sync_backend_names (sync_kwargs s cfg)) = Inr (map fst rs)"
    "\<forall>(c, r) \<in> set rs. \<exists>x. r = Inr x" "extends w w' calls" "mset calls = mset (fan_out_calls op (body_rest b) rs)" by blast
  then obtain es where es: "trace w' = trace w @ es" "calls_of es = calls" by (auto simp: extends_def)
  have "length (sync_names s) = length rs" using resolve_names [OF rs(1) f(5)] by (metis length_map)
  then have "required_copies s \<le> length (filter (\<lambda>(c, r). \<exists>x. r = Inr x) rs)"
    using all_succeeded [OF rs(2)] assms(2) by (simp add: required_copies_def)
  from fan_out_stored [OF rs(1) f(5,4) _ this] rs(4) es show ?thesis by blast
qed

lemma quorum_stored:
  assumes "proxy_ready E sched s pool" and "st_write_strategy s \<in> {QUORUM_REPLICATION, MULTI_SYNC_DISTRIBUTED}"
    and "quorum_guarantee (sync_kwargs s cfg) op pool ps r d rs es"
  shows "stored_enough s op d es"
proof -
  note f = proxy_ready_facts [OF assms(1)]
  have "nat (st_sync_quorum s) \<le> length (filter (\<lambda>(c, r). \<exists>x. r = Inr x) rs)"
    using assms(3) unfolding quorum_guarantee_def sync_kwargs_def by (simp add: nat_le_iff)
  then have "required_copies s \<le> length (filter (\<lambda>(c, r). \<exists>x. r = Inr x) rs)"
    using assms(2) by (auto simp: required_copies_def)
  with fan_out_stored [OF _ f(5,4)] assms(3) show ?thesis unfolding quorum_guarantee_def by blast
qed

lemma distributed_stored:
  assumes "proxy_ready E sched s pool" and "st_write_strategy s = MULTI_SYNC_DISTRIBUTED" and "op \<notin> MULTIPART_OPERATIONS"
    and "distributed_execute S E sched mode topic (sync_kwargs s cfg) op pool ps b True st w = (Inr r, st', w')"
  shows "\<exists>es. trace w' = trace w @ es \<and> stored_enough s op (body_rest b) es"
proof -
  note f = proxy_ready_facts [OF assms(1)]
  have d: "op \<noteq> CREATE_MULTIPART_UPLOAD" "op \<noteq> UPLOAD_PART" "op \<notin> {COMPLETE_MULTIPART_UPLOAD, ABORT_MULTIPART_UPLOAD}"
    using assms(3) by (auto simp: MULTIPART_OPERATIONS_def)
  from assms(4) d obtain result w1 where
    r: "run_concurrent E sched (sync_kwargs s cfg) (prepare_backend_params op ps None) op pool b w = (Inr result, w1)"
    "settle (sync_kwargs s cfg) (sync_quorum (sync_kwargs s cfg)) result = Inr r"
    "schedule_async_fill E mode topic (sync_kwargs s cfg) op pool ps r (successes result) w1 = (None, w')"
    by (auto simp: distributed_execute_def split: prod.splits sum.splits option.splits)
  from quorum_law [OF r(1) f(2,3) r(2,3)] quorum_stored [OF assms(1)] assms(2) show ?thesis by blast
qed

lemma configured_success:
  assumes "proxy_ready E sched s pool" and "request_body b"
    and "run_strategy R E sched pool (build_write_strategy s mode topic (from_settings s)) op ps b True x = (Inr r, y)"
  shows "stored_after s op ps (body_rest b) r x y"
proof -
  obtain st w where x: "x = (st, w)" by force
  have P: ?thesis if "\<exists>es. trace (snd y) = trace w @ es \<and> stored_enough s op (body_rest b) es"
    using that by (simp add: stored_after_def x)
  note run = assms(3) [unfolded x build_write_strategy_def]
  show ?thesis
  proof (cases "st_write_strategy s")
    case PRIMARY_REPLICATION
    then have "primary_run E mode topic (from_settings s) pool op ps b True w = (Inr r, snd y)"
      using run by (auto split: prod.splits)
    from P [OF primary_stored [OF assms(1,2) PRIMARY_REPLICATION this]] show ?thesis .
  next
    case MULTI_SYNC
    then show ?thesis using assms(1) by (simp add: proxy_ready_def valid_settings_def)
  next
    case MULTI_SYNC_SIMPLE
    then have "simple_run E sched (sync_kwargs s (from_settings s)) pool op ps b True w = (Inr r, snd y)"
      using run by (auto split: prod.splits)
    from P [OF simple_stored [OF assms(1) MULTI_SYNC_SIMPLE this]] show ?thesis .
  next
    case QUORUM_REPLICATION
    then have "quorum_execute E sched mode topic (sync_kwargs s (from_settings s)) op pool ps b True w = (Inr r, snd y)"
      using run by (auto simp: quorum_run_def split: prod.splits)
    from quorum_execute_law [OF this proxy_ready_facts(2,3) [OF assms(1)]] obtain rs es where
      "trace (snd y) = trace w @ es" "quorum_guarantee (sync_kwargs s (from_settings s)) op pool ps r (body_rest b) rs es" by blast
    with quorum_stored [OF assms(1)] QUORUM_REPLICATION show ?thesis by (intro P) blast
  next
    case MULTI_SYNC_DISTRIBUTED
    then have "distributed_execute (session_methods R) E sched mode topic (sync_kwargs s (from_settings s)) op pool ps b True st w =
        (Inr r, fst y, snd y)" using run by simp
    from P [OF distributed_stored [OF assms(1) MULTI_SYNC_DISTRIBUTED _ this]] show ?thesis
      by (cases "op \<in> MULTIPART_OPERATIONS") (auto simp: stored_after_def)
  qed
qed

lemma configured_error:
  assumes "proxy_ready E sched s pool" and "request_body b"
    and "run_strategy R E sched pool (build_write_strategy s mode topic (from_settings s)) op ps b rp x = (Inl e, y)"
  shows "error_code_ok e"
proof -
  obtain st w where x: "x = (st, w)" by force
  note f = proxy_ready_facts [OF assms(1)]
  note run = assms(3) [unfolded x build_write_strategy_def]
  have simple: ?thesis if "st_write_strategy s \<in> {MULTI_SYNC, MULTI_SYNC_SIMPLE}"
  proof -
    have "simple_run E sched (sync_kwargs s (from_settings s)) pool op ps b rp w = (Inl e, snd y)"
      using that run by (auto split: prod.splits)
    from simple_access.run_error [OF f(6) this] show ?thesis .
  qed
  show ?thesis
  proof (cases "st_write_strategy s")
    case PRIMARY_REPLICATION
    then have "primary_run E mode topic (from_settings s) pool op ps b rp w = (Inl e, snd y)"
      using run by (auto split: prod.splits)
    from primary_run_error [OF f(1) this] show ?thesis .
  next
    case QUORUM_REPLICATION
    then have "quorum_run E sched mode topic (sync_kwargs s (from_settings s)) pool op ps b rp w = (Inl e, snd y)"
      using run by (auto split: prod.splits)
    from quorum_access.run_error [OF f(6) this] show ?thesis .
  next
    case MULTI_SYNC_DISTRIBUTED
    then have "distributed_execute (session_methods R) E sched mode topic (sync_kwargs s (from_settings s)) op pool ps b rp st w =
        (Inl e, fst y, snd y)" using run by simp
    from distributed_error [OF this f(2,1)] show ?thesis .
  qed (use simple in simp_all)
qed

interpretation configured: write_access "run_strategy R E sched pool (build_write_strategy s mode topic (from_settings s))"
  "\<lambda>b. proxy_ready E sched s pool \<and> request_body b" "stored_after s" for R E sched pool s mode topic
proof
  fix op ps b x r y
  assume "proxy_ready E sched s pool \<and> request_body b"
    "run_strategy R E sched pool (build_write_strategy s mode topic (from_settings s)) op ps b True x = (Inr r, y)"
  then show "stored_after s op ps (body_rest b) r x y" by (intro configured_success) auto
next
  fix op ps b rp x e y
  assume "proxy_ready E sched s pool \<and> request_body b"
    "run_strategy R E sched pool (build_write_strategy s mode topic (from_settings s)) op ps b rp x = (Inl e, y)"
  then show "error_code_ok e" by (auto intro: configured_error)
qed

end
