(* ===== verification/Latency_Prober.thy ===== *)
theory Latency_Prober
  imports Backend_Pool
begin

text \<open>
  The background task that measures the backends: \<open>src/s3mer/backends/prober.py\<close>.

  The task is represented by the \<open>await\<close> at which it is suspended, and \<open>loop_step\<close> runs it from one \<open>await\<close> to
  the next; a probe is one atomic step, as every backend call.  A task that sleeps can go on when the clock has
  reached its time.  The clients are those of the pool; the prober shares the objects.
\<close>

section \<open>The prober\<close>

datatype loop_point =
    Created \<comment> \<open>the task has not run yet\<close>
  | FirstSleep int \<comment> \<open>until when\<close>
  | Probing nat \<comment> \<open>the index of the client that is probed next\<close>
  | Sleeping int

text \<open>With a positive interval the object is a \<open>LatencyProber\<close>, otherwise a \<open>DummyLatencyProber\<close>, whose methods do nothing.\<close>

record Prober =
  probe_interval :: int
  prober_task :: "loop_point option"

definition new_prober :: "int \<Rightarrow> Prober" where
  "new_prober interval = \<lparr>probe_interval = interval, prober_task = None\<rparr>"

definition prober_start :: "Prober \<Rightarrow> Prober" where
  "prober_start p =
     (if probe_interval p > 0
      then (if prober_task p \<noteq> None then p else p\<lparr>prober_task := Some Created\<rparr>)
      else p)"

text \<open>
  How a cancelled task ends: \<open>CancelledError\<close> leaves the coroutine before the loop, inside the loop it is caught.
  \<open>close\<close> suppresses it.
\<close>

datatype task_end = Returned | RaisedCancelledError

fun cancel_task :: "loop_point \<Rightarrow> task_end" where
  "cancel_task Created = RaisedCancelledError"
| "cancel_task (FirstSleep t) = RaisedCancelledError"
| "cancel_task (Probing i) = Returned"
| "cancel_task (Sleeping t) = Returned"

definition prober_close :: "Prober \<Rightarrow> Prober" where
  "prober_close p =
     (if probe_interval p > 0
      then (case prober_task p of
          None \<Rightarrow> p
        | Some t \<Rightarrow> (case cancel_task t of Returned \<Rightarrow> p\<lparr>prober_task := None\<rparr> | RaisedCancelledError \<Rightarrow> p\<lparr>prober_task := None\<rparr>))
      else p)"

text \<open>The head of the \<open>for\<close> loop, and one run of the task.\<close>

definition next_client :: "int \<Rightarrow> BackendClient list \<Rightarrow> nat \<Rightarrow> 'w world \<Rightarrow> loop_point \<times> 'w world" where
  "next_client interval cs i w =
     (if i < length cs then (Probing i, w) else (Sleeping (clock w + interval), emit [Slept interval] w))"

fun loop_step :: "'w services \<Rightarrow> int \<Rightarrow> BackendClient list \<Rightarrow> loop_point \<Rightarrow> 'w world \<Rightarrow> loop_point \<times> 'w world" where
  "loop_step E interval cs Created w = (FirstSleep (clock w + 1), emit [Slept 1] w)"
| "loop_step E interval cs (FirstSleep t) w = (if clock w < t then (FirstSleep t, w) else next_client interval cs 0 w)"
| "loop_step E interval cs (Probing i) w = next_client interval cs (i + 1) (probe E (cs ! i) w)"
| "loop_step E interval cs (Sleeping t) w = (if clock w < t then (Sleeping t, w) else next_client interval cs 0 w)"

definition prober_step :: "'w services \<Rightarrow> BackendClient list \<Rightarrow> Prober \<Rightarrow> 'w world \<Rightarrow> Prober \<times> 'w world" where
  "prober_step E cs p w =
     (case prober_task p of
        None \<Rightarrow> (p, w)
      | Some t \<Rightarrow> (case loop_step E (probe_interval p) cs t w of (t, w) \<Rightarrow> (p\<lparr>prober_task := Some t\<rparr>, w)))"

lemma prober_start_start [simp]: "prober_start (prober_start p) = prober_start p"
  by (simp add: prober_start_def)

lemma prober_close_task [simp]: "prober_task p = None \<or> probe_interval p > 0 \<Longrightarrow> prober_task (prober_close p) = None"
  by (auto simp: prober_close_def split: option.splits task_end.splits)

lemma prober_interval [simp]:
  "probe_interval (prober_close p) = probe_interval p" "probe_interval (prober_start p) = probe_interval p"
  by (auto simp: prober_close_def prober_start_def split: option.splits task_end.splits)

section \<open>A round\<close>

text \<open>From the first probe of a round to the sleep after it, the task does what \<open>probe_round\<close> does.\<close>

lemma probing_steps:
  assumes "i < length cs"
  shows "((\<lambda>(t, w). loop_step E d cs t w) ^^ (length cs - i)) (Probing i, w) = next_client d cs (length cs) (fold (probe E) (drop i cs) w)"
  using assms
proof (induction "length cs - i" arbitrary: i w)
  case (Suc n)
  have d: "drop i cs = cs ! i # drop (i + 1) cs" using Suc.prems by (simp add: Cons_nth_drop_Suc)
  show ?case
  proof (cases "i + 1 < length cs")
    case True
    then have "length cs - i = Suc (length cs - (i + 1))" "n = length cs - (i + 1)" using Suc by simp_all
    then show ?thesis using Suc.hyps(1) [of "i + 1" "probe E (cs ! i) w"] True d
      by (simp add: funpow_Suc_right next_client_def del: funpow.simps)
  next
    case False
    then have "length cs = i + 1" using Suc.prems by simp
    then show ?thesis using d by simp
  qed
qed simp

lemma round_of_the_task:
  assumes "cs \<noteq> []" and "t \<le> clock w"
  shows "((\<lambda>(t, w). loop_step E d cs t w) ^^ (length cs + 1)) (Sleeping t, w) = next_client d cs (length cs) (probe_round E cs w)"
  using probing_steps [of 0 cs E d w] assms by (simp add: funpow_Suc_right next_client_def probe_round_def del: funpow.simps)

section \<open>What a round measures\<close>

lemma breaker_latency [simp]:
  "last_latency (breaker_failure n w) = last_latency w" "last_latency (breaker_success n w) = last_latency w"
  by (simp_all add: breaker_failure_def breaker_success_def Let_def split: option.split prod.split)

lemma execute_latency:
  assumes "execute E c op ps b w = (r, b', w')"
  shows "last_latency w' = last_latency w"
  using assms
  by (cases "bc_type c") (auto simp: execute_def s3_execute_def memory_execute_def after_call_def draw_uuid_def Let_def
      split: if_splits prod.splits sum.splits)

definition probe_call :: "BackendClient \<Rightarrow> pyexc + pdict \<Rightarrow> call" where
  "probe_call c r = (bc_name c, LIST_BUCKETS, [], r)"

lemma probe_result:
  assumes "bc_type c = BT_S3 \<longrightarrow> started c"
  obtains r where "extends w (probe E c w) [probe_call c r]" "last_latency (probe E c w) (bc_name c) = \<infinity> \<longleftrightarrow> isl r"
    "\<And>n. n \<noteq> bc_name c \<Longrightarrow> last_latency (probe E c w) n = last_latency w n"
proof -
  obtain r b w1 where e: "execute E c LIST_BUCKETS [] BodyAbsent w = (r, b, w1)" by (metis prod_cases3)
  obtain l where p: "probe E c w = w1\<lparr>last_latency := (last_latency w)(bc_name c := l)\<rparr>" "l = \<infinity> \<longleftrightarrow> isl r"
    using execute_latency [OF e] e by (cases r) (auto simp: probe_def Let_def)
  have "extends w w1 [probe_call c r]" using execute_extends [OF e] assms by (cases "bc_type c = BT_S3 \<and> \<not> started c") (auto simp: probe_call_def)
  then have "extends w (probe E c w) [probe_call c r]" by (simp add: p(1) extends_def world_inv_def)
  then show thesis using that p by simp
qed

text \<open>After a round: the calls it made, in order, and the latencies.\<close>

lemma round_result:
  assumes "\<forall>c \<in> set cs. bc_type c = BT_S3 \<longrightarrow> started c" and "distinct (map bc_name cs)"
  shows "\<exists>f. extends w (probe_round E cs w) (map (\<lambda>c. probe_call c (f (bc_name c))) cs) \<and>
    (\<forall>c \<in> set cs. last_latency (probe_round E cs w) (bc_name c) = \<infinity> \<longleftrightarrow> isl (f (bc_name c))) \<and>
    (\<forall>n. n \<notin> bc_name ` set cs \<longrightarrow> last_latency (probe_round E cs w) n = last_latency w n)"
  using assms
proof (induction cs arbitrary: w)
  case (Cons c cs)
  obtain r where r: "extends w (probe E c w) [probe_call c r]" "last_latency (probe E c w) (bc_name c) = \<infinity> \<longleftrightarrow> isl r"
    "\<And>n. n \<noteq> bc_name c \<Longrightarrow> last_latency (probe E c w) n = last_latency w n"
    using probe_result [of c w E] Cons.prems(1) by auto
  let ?w = "probe E c w"
  obtain f where f: "extends ?w (probe_round E cs ?w) (map (\<lambda>c. probe_call c (f (bc_name c))) cs)"
    "\<forall>c \<in> set cs. last_latency (probe_round E cs ?w) (bc_name c) = \<infinity> \<longleftrightarrow> isl (f (bc_name c))"
    "\<forall>n. n \<notin> bc_name ` set cs \<longrightarrow> last_latency (probe_round E cs ?w) n = last_latency ?w n"
    using Cons.IH [of ?w] Cons.prems by auto
  have c: "bc_name c \<notin> bc_name ` set cs" using Cons.prems(2) by simp
  have g: "map (\<lambda>d. probe_call d ((f(bc_name c := r)) (bc_name d))) cs = map (\<lambda>d. probe_call d (f (bc_name d))) cs"
    using c by (intro map_cong) (auto simp: image_iff)
  have "probe_round E (c # cs) w = probe_round E cs ?w" by (simp add: probe_round_def)
  moreover have "extends w (probe_round E cs ?w) (map (\<lambda>d. probe_call d ((f(bc_name c := r)) (bc_name d))) (c # cs))"
    using extends_trans [OF r(1) f(1)] unfolding list.map g by simp
  ultimately show ?case using r(2,3) f(2,3) c by (intro exI [of _ "f(bc_name c := r)"]) auto
qed (simp add: probe_round_def)

lemma sorted_prefix:
  "sorted (map f xs) \<Longrightarrow> \<exists>ys zs. xs = ys @ zs \<and> (\<forall>y \<in> set ys. \<not> P (f y)) \<and> (\<forall>z \<in> set zs. P (f z))"
  if "\<And>a b. a \<le> b \<Longrightarrow> P a \<Longrightarrow> P b"
proof (induction xs)
  case (Cons x xs)
  show ?case
  proof (cases "P (f x)")
    case True
    then have "\<forall>z \<in> set (x # xs). P (f z)" using Cons.prems that by auto
    then show ?thesis by (intro exI [of _ "[]"] exI [of _ "x # xs"]) simp
  next
    case False
    obtain ys zs where "xs = ys @ zs" "\<forall>y \<in> set ys. \<not> P (f y)" "\<forall>z \<in> set zs. P (f z)" using Cons by auto
    then show ?thesis using False by (intro exI [of _ "x # ys"] exI [of _ zs]) simp
  qed
qed simp

text \<open>
  C37. Backends that do not answer are read last.  After a round of the prober over a started pool, which sends
  each backend exactly one probe, the list of read candidates has all the admitted backends, the
  primary in front when it is admitted; and in the rest of the list every secondary whose probe was answered comes before every
  secondary whose probe failed.
\<close>

theorem unreachable_backends_are_read_last:
  assumes "wf_pool pool" and "pool_primary pool = Some p" and "\<forall>c \<in> set (clients pool). bc_type c = BT_S3 \<longrightarrow> started c"
    and "w1 = probe_round E (clients pool) w"
  shows "\<exists>f cs w2. extends w w1 (map (\<lambda>c. probe_call c (f (bc_name c))) (clients pool)) \<and>
    all_by_latency pool w1 = (Inr cs, w2) \<and> mset cs = filter_mset (breaker_allows w1) (mset (clients pool)) \<and>
    (breaker_allows w1 p \<longrightarrow> cs \<noteq> [] \<and> hd cs = p) \<and>
    (\<exists>xs ys. filter (\<lambda>c. c \<noteq> p) cs = xs @ ys \<and> (\<forall>c \<in> set xs. \<not> isl (f (bc_name c))) \<and> (\<forall>c \<in> set ys. isl (f (bc_name c))))"
proof -
  obtain f where f: "extends w w1 (map (\<lambda>c. probe_call c (f (bc_name c))) (clients pool))"
    "\<forall>c \<in> set (clients pool). last_latency w1 (bc_name c) = \<infinity> \<longleftrightarrow> isl (f (bc_name c))"
    using round_result [OF assms(3), where w = w and E = E] assms(1,4) by (auto simp: wf_pool_def)
  let ?f = "\<lambda>c. (last_latency w1 (bc_name c), priority c)"
  obtain cs w2 where cs: "all_by_latency pool w1 = (Inr cs, w2)" "mset cs = filter_mset (breaker_allows w1) (mset (clients pool))"
    "breaker_allows w1 p \<longrightarrow> cs \<noteq> [] \<and> hd cs = p" "sorted (map ?f (filter (\<lambda>c. c \<noteq> p) cs))"
    using read_candidates_order [OF assms(1,2), of w1] by blast
  obtain xs ys where xy: "filter (\<lambda>c. c \<noteq> p) cs = xs @ ys" "\<forall>c \<in> set xs. fst (?f c) \<noteq> \<infinity>" "\<forall>c \<in> set ys. fst (?f c) = \<infinity>"
    using sorted_prefix [where P = "\<lambda>x. fst x = \<infinity>", OF _ cs(4)] by (auto simp: less_eq_prod_def top_unique)
  have "set cs \<subseteq> set (clients pool)" using cs(2) by (metis filter_is_subset mset_filter set_mset_mset)
  moreover have "set xs \<union> set ys \<subseteq> set cs" using xy(1) by (metis filter_is_subset set_append)
  ultimately have "\<forall>c \<in> set xs. \<not> isl (f (bc_name c))" "\<forall>c \<in> set ys. isl (f (bc_name c))"
    using xy(2,3) f(2) by (fastforce dest: subsetD)+
  then show ?thesis using f(1) cs(1-3) xy(1) by blast
qed

text \<open>One secondary does not answer.\<close>

definition probed_services :: "unit services" where
  "probed_services = sample_services\<lparr>s3_call := (\<lambda>n op ps b x. if n = ''s1'' then (Inl (PyTimeoutError ''t''), b, 1, x) else (Inr [], b, 1, x))\<rparr>"

theorem unreachable_backends_are_read_last_witness:
  "\<exists>cs w2. all_by_latency sample_pool (probe_round probed_services (clients sample_pool) sample_world) = (Inr cs, w2) \<and>
     hd cs = sample_primary"
proof -
  have s: "\<forall>c \<in> set (clients sample_pool). bc_type c = BT_S3 \<longrightarrow> started c" by (simp add: sample_pool_def pool_start_def client_start_def)
  have "breaker_allows (probe_round probed_services (clients sample_pool) sample_world) sample_primary" by code_simp
  then show ?thesis
    using unreachable_backends_are_read_last [OF sample_pool_wf s, of "probe_round probed_services (clients sample_pool) sample_world" probed_services sample_world]
    by auto
qed

text \<open>Its priority is better than that of \<open>s2\<close>, but \<open>s2\<close> is read first.\<close>

lemma probed_order:
  "map_sum id (map bc_name) (fst (all_by_latency sample_pool (probe_round probed_services (clients sample_pool) sample_world))) = Inr [''p'', ''s2'', ''s1'']"
  by code_simp

end
