(* ===== verification/Logging.thy ===== *)
theory Logging
  imports Classifier World
begin

text \<open>
  The configuration of the root logger: \<open>src/s3mer/common/logging.py\<close>.

  A handler is the stream it writes to, its renderer and its level; the root logger is the list of its handlers
  and its level.  Opening a log file is the library's \<open>open_log\<close>, which may raise.  What structlog does to the
  text of a record (its processors, \<open>get_logger\<close>) is output only and is left out.
\<close>

datatype log_stream = Stderr | LogFile string

datatype log_renderer = ConsoleRenderer | JSONRenderer

record log_handler =
  lh_stream :: log_stream
  lh_renderer :: log_renderer
  lh_level :: int

record root_logger =
  root_level :: int
  root_handlers :: "log_handler list"

text \<open>
  \<open>getattr(logging, name)\<close> for a name without lower-case letters: a level, or for the two other attributes of
  the module the exception that \<open>setLevel\<close> raises on them (the text of the second ends before the printed dictionary).
\<close>

definition logging_attr :: "string \<Rightarrow> (pyexc + int) option" where
  "logging_attr = map_of
     [(''CRITICAL'', Inr 50), (''FATAL'', Inr 50), (''ERROR'', Inr 40), (''WARNING'', Inr 30), (''WARN'', Inr 30), (''INFO'', Inr 20),
      (''DEBUG'', Inr 10), (''NOTSET'', Inr 0),
      (''BASIC_FORMAT'', Inl (PyValueError (''Unknown level: '' @ [CHR 39] @ ''%(levelname)s:%(name)s:%(message)s'' @ [CHR 39]))),
      (''_STYLES'', Inl (PyTypeError ''Level not an integer or a valid string: ''))]"

definition level_of :: "string \<Rightarrow> pyexc + int" where
  "level_of log_level = (case logging_attr (upper log_level) of None \<Rightarrow> Inr 20 | Some r \<Rightarrow> r)"

text \<open>\<open>setup_logging\<close>: what it raises, the root logger, the state of the services.\<close>

definition setup_logging ::
  "(string \<Rightarrow> 'w \<Rightarrow> pyexc option \<times> 'w) \<Rightarrow> string \<Rightarrow> string option \<Rightarrow> root_logger \<Rightarrow> 'w \<Rightarrow> pyexc option \<times> root_logger \<times> 'w" where
  "setup_logging open_log log_level log_file root_logger x =
     (let root_logger = root_logger\<lparr>root_handlers := []\<rparr> in
      case level_of log_level of
        Inl e \<Rightarrow> (Some e, root_logger, x)
      | Inr level \<Rightarrow>
          (let root_logger = root_logger\<lparr>root_level := level,
                 root_handlers := [\<lparr>lh_stream = Stderr, lh_renderer = ConsoleRenderer, lh_level = level\<rparr>]\<rparr> in
           if log_file \<in> {None, Some []} then (None, root_logger, x)
           else
             (case open_log (the log_file) x of
                (Some e, x) \<Rightarrow> (Some e, root_logger, x)
              | (None, x) \<Rightarrow>
                  (None, root_logger\<lparr>root_handlers := root_handlers root_logger @
                     [\<lparr>lh_stream = LogFile (the log_file), lh_renderer = JSONRenderer, lh_level = level\<rparr>]\<rparr>, x))))"

text \<open>Where a record of a given level is written: the root logger drops what is below its level, and so does each handler.\<close>

definition written_to :: "root_logger \<Rightarrow> int \<Rightarrow> log_stream list" where
  "written_to r lvl = (if lvl < root_level r then [] else map lh_stream (filter (\<lambda>h. lh_level h \<le> lvl) (root_handlers r)))"

lemma setup_logging_cases:
  assumes "setup_logging op lv fl r x = (e, r', x')"
  obtains (bad_level) exc where "level_of lv = Inl exc" "e = Some exc" "root_handlers r' = []" "x' = x"
  | (no_file) exc n where "level_of lv = Inr n" "e = Some exc" "op (the fl) x = (Some exc, x')" "written_to r' = (\<lambda>k. if k < n then [] else [Stderr])"
  | (set_up) n where "level_of lv = Inr n" "e = None"
      "written_to r' = (\<lambda>k. if k < n then [] else Stderr # (if fl \<in> {None, Some []} then [] else [LogFile (the fl)]))"
proof (cases "level_of lv")
  case (Inl exc)
  then show thesis using assms that(1) by (auto simp: setup_logging_def Let_def)
next
  case (Inr n)
  show thesis
  proof (cases "fl \<in> {None, Some []}")
    case True
    then have "e = None" "written_to r' = (\<lambda>k. if k < n then [] else [Stderr])"
      using assms Inr by (auto simp: setup_logging_def Let_def written_to_def fun_eq_iff)
    then show thesis using that(3) Inr True by simp
  next
    case False
    obtain oe x1 where o: "op (the fl) x = (oe, x1)" by (rule prod.exhaust)
    show thesis
    proof (cases oe)
      case None
      then have "e = None" "written_to r' = (\<lambda>k. if k < n then [] else [Stderr, LogFile (the fl)])"
        using assms Inr False o by (auto simp: setup_logging_def Let_def written_to_def fun_eq_iff)
      then show thesis using Inr False by (intro that(3) [of n]) (auto simp: fun_eq_iff)
    next
      case (Some exc)
      then have "e = Some exc" "written_to r' = (\<lambda>k. if k < n then [] else [Stderr])" "x' = x1"
        using assms Inr False o by (auto simp: setup_logging_def Let_def written_to_def fun_eq_iff)
      then show thesis using that(2) Inr Some o by simp
    qed
  qed
qed

text \<open>
  Setting up logging again does not multiply the output.  Whatever handlers the root logger had, for instance those
  of an earlier set-up, after a successful one every record of the configured level or above is written exactly
  once to the error stream and, when a file is configured, exactly once to it; a record below is not written.
\<close>

theorem set_up_logger_writes_once:
  assumes "setup_logging op lv fl r x = (None, r', x')"
  shows "\<exists>n. level_of lv = Inr n \<and> (\<forall>k. written_to r' k =
    (if k < n then [] else Stderr # (case fl of None \<Rightarrow> [] | Some p \<Rightarrow> if p = [] then [] else [LogFile p])))"
  using assms by (cases rule: setup_logging_cases) (auto split: option.split)

theorem set_up_logger_writes_once_witness:
  "\<exists>r' x'. setup_logging (\<lambda>p x. (None, x)) ''info'' (Some ''/var/log/s3mer.json'')
      \<lparr>root_level = 30, root_handlers = [\<lparr>lh_stream = Stderr, lh_renderer = ConsoleRenderer, lh_level = 0\<rparr>]\<rparr> () = (None, r', x') \<and>
    written_to r' 20 = [Stderr, LogFile ''/var/log/s3mer.json''] \<and> written_to r' 10 = []"
proof -
  have lv: "level_of ''info'' = Inr 20" by code_simp
  obtain r' x' where s: "setup_logging (\<lambda>p x. (None, x)) ''info'' (Some ''/var/log/s3mer.json'')
      \<lparr>root_level = 30, root_handlers = [\<lparr>lh_stream = Stderr, lh_renderer = ConsoleRenderer, lh_level = 0\<rparr>]\<rparr> () = (None, r', x')"
    by (simp add: setup_logging_def lv Let_def)
  from set_up_logger_writes_once [OF s] s lv show ?thesis by auto
qed

text \<open>A level name that is another attribute of the module raises after the old handlers have been removed.\<close>

lemma bad_level_removes_handlers:
  "level_of lv = Inl e \<Longrightarrow> setup_logging op lv fl r x = (Some e, r\<lparr>root_handlers := []\<rparr>, x)"
  by (simp add: setup_logging_def Let_def)

end
