(* ===== verification/Application.thy ===== *)
theory Application
  imports Configured_Strategy Latency_Prober Logging
begin

text \<open>
  The application object that the ASGI server runs: \<open>src/s3mer/app.py\<close> (construction, startup, shutdown,
  the lifespan loop and the entry point), the lifecycle of the pool and of its clients
  (\<open>src/s3mer/backends/pool.py\<close>, \<open>client.py\<close>, \<open>prober.py\<close>), of the session store
  (\<open>src/s3mer/state/factory.py\<close>), and the replication worker (\<open>src/s3mer/worker/app.py\<close>).

  Opening and closing connections is done by the libraries (aiobotocore, redis, FastStream): each such
  call is a field of \<open>app_lib\<close> and may raise, as may the opening of the log file.  The other libraries are in
  \<open>http_lib\<close>.

  \<open>running\<close> is the set of states of a started proxy: after startup, any number of HTTP requests, of runs of the
  prober's task, and of moments in which time passes.  A request is one step of the relation; the task of the
  prober is interleaved with them, from one of its awaits to the next.
\<close>

section \<open>Connections\<close>

record 'w app_lib =
  lib_create_client :: "string \<Rightarrow> 'w \<Rightarrow> pyexc option \<times> 'w"
  lib_exit_client :: "string \<Rightarrow> 'w \<Rightarrow> pyexc option \<times> 'w"
  lib_broker_start :: "'w \<Rightarrow> pyexc option \<times> 'w"
  lib_broker_stop :: "'w \<Rightarrow> pyexc option \<times> 'w"
  redis_installed :: bool
  lib_from_url :: "string \<Rightarrow> pyexc option"
  lib_aclose :: "'w \<Rightarrow> pyexc option \<times> 'w"
  lib_open_log :: "string \<Rightarrow> 'w \<Rightarrow> pyexc option \<times> 'w"

text \<open>A library call on the state of the services.\<close>

definition on_ext :: "('w \<Rightarrow> pyexc option \<times> 'w) \<Rightarrow> 'w world \<Rightarrow> pyexc option \<times> 'w world" where
  "on_ext f w = (case f (ext w) of (e, x) \<Rightarrow> (e, w\<lparr>ext := x\<rparr>))"

text \<open>\<open>start\<close> and \<open>close\<close> of a client; those of an in-memory client do nothing.\<close>

definition start_client :: "'w app_lib \<Rightarrow> BackendClient \<Rightarrow> 'w world \<Rightarrow> pyexc option \<times> BackendClient \<times> 'w world" where
  "start_client L c w =
     (case bc_type c of
        BT_MEMORY \<Rightarrow> (None, c, w)
      | BT_S3 \<Rightarrow> (case on_ext (lib_create_client L (bc_name c)) w of
            (Some e, w) \<Rightarrow> (Some e, c, w) | (None, w) \<Rightarrow> (None, client_start c, w)))"

definition close_client :: "'w app_lib \<Rightarrow> BackendClient \<Rightarrow> 'w world \<Rightarrow> pyexc option \<times> BackendClient \<times> 'w world" where
  "close_client L c w =
     (if bc_type c = BT_MEMORY \<or> \<not> started c then (None, c, w)
      else (case on_ext (lib_exit_client L (bc_name c)) w of
          (Some e, w) \<Rightarrow> (Some e, c, w) | (None, w) \<Rightarrow> (None, client_close c, w)))"

text \<open>A loop over the clients that ends at the first exception.\<close>

fun each_client ::
  "(BackendClient \<Rightarrow> 'w world \<Rightarrow> pyexc option \<times> BackendClient \<times> 'w world) \<Rightarrow> BackendClient list \<Rightarrow> 'w world \<Rightarrow> pyexc option \<times> BackendClient list \<times> 'w world" where
  "each_client f [] w = (None, [], w)"
| "each_client f (c # cs) w =
     (case f c w of
        (Some e, c, w) \<Rightarrow> (Some e, c # cs, w)
      | (None, c, w) \<Rightarrow> (case each_client f cs w of (e, cs, w) \<Rightarrow> (e, c # cs, w)))"

text \<open>\<open>_primary\<close> is one of the objects in \<open>_clients\<close>: the client of its name.\<close>

definition with_clients :: "BackendPool \<Rightarrow> BackendClient list \<Rightarrow> BackendPool" where
  "with_clients pool cs = \<lparr>clients = cs,
     pool_primary = (case pool_primary pool of None \<Rightarrow> None | Some p \<Rightarrow> List.find (\<lambda>c. bc_name c = bc_name p) cs)\<rparr>"

section \<open>The application object\<close>

text \<open>What the proxy and the worker have in common, and the proxy with its session store.\<close>

record 'w runtime =
  app_settings :: Settings
  app_pool :: BackendPool
  app_prober :: Prober
  app_log :: root_logger
  app_world :: "'w world"

record ('r, 'w) S3ProxyApp = "'w runtime" +
  app_store :: "'r MultipartSessionStore"

text \<open>The world with the circuit breakers of a new pool; no latency has been measured.\<close>

definition new_pool_world :: "Settings \<Rightarrow> 'w world \<Rightarrow> 'w world" where
  "new_pool_world s w = w\<lparr>breakers := new_breakers (pool_configs s) (st_circuit_breaker s), last_latency := (\<lambda>_. 0)\<rparr>"

definition new_app :: "Settings \<Rightarrow> 'r \<Rightarrow> root_logger \<Rightarrow> 'w world \<Rightarrow> ('r, 'w) S3ProxyApp" where
  "new_app s server rlog w =
     \<lparr>app_settings = s, app_pool = new_pool (pool_configs s), app_prober = new_prober (st_latency_probe_interval s), app_log = rlog,
      app_world = new_pool_world s w, app_store = create_multipart_session_store s server\<rparr>"

definition logging_step :: "'w app_lib \<Rightarrow> ('w, 'm) runtime_scheme \<Rightarrow> pyexc option \<times> ('w, 'm) runtime_scheme" where
  "logging_step L app =
     (case setup_logging (lib_open_log L) (st_log_level (app_settings app)) (st_log_file (app_settings app)) (app_log app) (ext (app_world app)) of
        (e, rlog, x) \<Rightarrow> (e, app\<lparr>app_log := rlog, app_world := (app_world app)\<lparr>ext := x\<rparr>\<rparr>))"

definition pool_start_step :: "'w app_lib \<Rightarrow> ('w, 'm) runtime_scheme \<Rightarrow> pyexc option \<times> ('w, 'm) runtime_scheme" where
  "pool_start_step L app =
     (case each_client (start_client L) (clients (app_pool app)) (app_world app) of
        (e, cs, w) \<Rightarrow>
          (let app = app\<lparr>app_pool := with_clients (app_pool app) cs, app_world := w\<rparr>
           in (e, if e = None then app\<lparr>app_prober := prober_start (app_prober app)\<rparr> else app)))"

definition pool_close_step :: "'w app_lib \<Rightarrow> ('w, 'm) runtime_scheme \<Rightarrow> pyexc option \<times> ('w, 'm) runtime_scheme" where
  "pool_close_step L app =
     (case each_client (close_client L) (clients (app_pool app)) (app_world app) of
        (e, cs, w) \<Rightarrow> (e, app\<lparr>app_prober := prober_close (app_prober app), app_pool := with_clients (app_pool app) cs, app_world := w\<rparr>))"

definition start_multipart_session_store :: "'w app_lib \<Rightarrow> ('r, 'w) S3ProxyApp \<Rightarrow> pyexc option \<times> ('r, 'w) S3ProxyApp" where
  "start_multipart_session_store L app =
     (case app_store app of
        MemoryStore d \<Rightarrow> (None, app)
      | ValkeyStore cfg v \<Rightarrow>
          if \<not> redis_installed L then (Some (PyRuntimeError (''multi_sync_distributed requires the optional '' @
            [CHR 39] @ ''distributed'' @ [CHR 39] @ '' extra: uv pip install '' @ [CHR 39] @ ''s3mer[distributed]'' @ [CHR 39])), app)
          else (case lib_from_url L (valkey_url (st_valkey (app_settings app))) of
              Some e \<Rightarrow> (Some e, app) | None \<Rightarrow> (None, app\<lparr>app_store := ValkeyStore cfg (vk_start v)\<rparr>)))"

definition close_multipart_session_store :: "'w app_lib \<Rightarrow> ('r, 'w) S3ProxyApp \<Rightarrow> pyexc option \<times> ('r, 'w) S3ProxyApp" where
  "close_multipart_session_store L app =
     (case app_store app of
        MemoryStore d \<Rightarrow> (None, app)
      | ValkeyStore cfg v \<Rightarrow>
          if \<not> vk_started v then (None, app)
          else (case on_ext (lib_aclose L) (app_world app) of
              (Some e, w) \<Rightarrow> (Some e, app\<lparr>app_world := w\<rparr>)
            | (None, w) \<Rightarrow> (None, app\<lparr>app_store := ValkeyStore cfg (vk_close v), app_world := w\<rparr>)))"

definition broker_step :: "('w \<Rightarrow> pyexc option \<times> 'w) \<Rightarrow> ('r, 'w) S3ProxyApp \<Rightarrow> pyexc option \<times> ('r, 'w) S3ProxyApp" where
  "broker_step f app = (case on_ext f (app_world app) of (e, w) \<Rightarrow> (e, app\<lparr>app_world := w\<rparr>))"

text \<open>Statements in sequence: the first exception ends the method.\<close>

definition and_then :: "('a \<Rightarrow> pyexc option \<times> 'a) \<Rightarrow> ('a \<Rightarrow> pyexc option \<times> 'a) \<Rightarrow> 'a \<Rightarrow> pyexc option \<times> 'a" where
  "and_then f g x = (case f x of (Some e, x) \<Rightarrow> (Some e, x) | (None, x) \<Rightarrow> g x)"

definition startup :: "'w app_lib \<Rightarrow> ('r, 'w) S3ProxyApp \<Rightarrow> pyexc option \<times> ('r, 'w) S3ProxyApp" where
  "startup L = and_then (logging_step L)
     (and_then (start_multipart_session_store L) (and_then (pool_start_step L) (broker_step (lib_broker_start L))))"

definition shutdown :: "'w app_lib \<Rightarrow> ('r, 'w) S3ProxyApp \<Rightarrow> pyexc option \<times> ('r, 'w) S3ProxyApp" where
  "shutdown L = and_then (broker_step (lib_broker_stop L)) (and_then (pool_close_step L) (close_multipart_session_store L))"

section \<open>The lifespan protocol\<close>

datatype lifespan_event = StartupComplete | StartupFailed string | ShutdownComplete

text \<open>
  \<open>_handle_lifespan\<close>: the exception that leaves it, the events it sends, the messages it has not read.
  Awaiting a message when none is left never returns (\<open>None\<close>).
\<close>

fun handle_lifespan ::
  "'w app_lib \<Rightarrow> string list \<Rightarrow> ('r, 'w) S3ProxyApp \<Rightarrow>
   (pyexc option \<times> lifespan_event list \<times> string list \<times> ('r, 'w) S3ProxyApp) option" where
  "handle_lifespan L [] app = None"
| "handle_lifespan L (m # ms) app =
     (if m = ''lifespan.startup'' then
        (case startup L app of
           (Some e, app) \<Rightarrow> Some (None, [StartupFailed (exc_str e)], ms, app)
         | (None, app) \<Rightarrow>
             (case handle_lifespan L ms app of
                None \<Rightarrow> None
              | Some (exc, evs, rest, app) \<Rightarrow> Some (exc, StartupComplete # evs, rest, app)))
      else if m = ''lifespan.shutdown'' then
        (case shutdown L app of
           (Some e, app) \<Rightarrow> Some (Some e, [], ms, app)
         | (None, app) \<Rightarrow> Some (None, [ShutdownComplete], ms, app))
      else handle_lifespan L ms app)"

section \<open>Requests\<close>

record 'w http_lib =
  x_fromstring :: "string \<Rightarrow> pyexc + xml_node"
  x_fromstring_bytes :: "bytes \<Rightarrow> pyexc + xml_node"
  x_decode_utf8 :: "bytes \<Rightarrow> pyexc + string"
  x_generate_latest :: "'w world \<Rightarrow> bytes"
  x_content_type_latest :: string
  x_body_reads :: body_reads

definition app_read ::
  "'w services \<Rightarrow> BackendPool \<Rightarrow> S3Operation \<Rightarrow> pdict \<Rightarrow> 'st \<times> 'w world \<Rightarrow> (pyexc + pdict) \<times> 'st \<times> 'w world" where
  "app_read E pool op ps x = (case read_run E pool op ps (snd x) of (r, w) \<Rightarrow> (r, fst x, w))"

definition app_uuid :: "'w services \<Rightarrow> 'st \<times> 'w world \<Rightarrow> string \<times> 'st \<times> 'w world" where
  "app_uuid E x = (case draw_uuid E (snd x) of (u, w) \<Rightarrow> (u, fst x, w))"

text \<open>The handler that \<open>__init__\<close> puts together.\<close>

definition http_handler_of ::
  "'r redis \<Rightarrow> 'w services \<Rightarrow> (nat \<Rightarrow> nat list) \<Rightarrow> 'w http_lib \<Rightarrow> Settings \<Rightarrow> BackendPool \<Rightarrow> ('r MultipartSessionStore \<times> 'w world) S3HTTPHandler" where
  "http_handler_of R E sched X s pool =
     \<lparr>dispatcher = Some
        \<lparr>read_strategy = app_read E pool,
         write_strategy = run_strategy R E sched pool
           (build_write_strategy s (st_replication_mode s) (kafka_topic (st_kafka s)) (from_settings s)),
         stream_config = from_settings s, lib_fromstring = x_fromstring X, lib_fromstring_bytes = x_fromstring_bytes X,
         lib_decode_utf8 = x_decode_utf8 X, lib_fresh_id = app_uuid E, lib_now = clock \<circ> snd\<rparr>,
      lib_generate_latest = x_generate_latest X \<circ> snd, CONTENT_TYPE_LATEST = x_content_type_latest X,
      lib_uuid = app_uuid E, lib_clock = nat \<circ> clock \<circ> snd, lib_body_reads = x_body_reads X,
      response_chunk_size = sc_chunk_size (from_settings s)\<rparr>"

text \<open>One \<open>http\<close> call of the entry point: the exception, the events sent, the metrics of the front, the application.\<close>

definition app_http ::
  "'r redis \<Rightarrow> 'w services \<Rightarrow> (nat \<Rightarrow> nat list) \<Rightarrow> 'w http_lib \<Rightarrow> http_scope \<Rightarrow> asgi_msg list \<Rightarrow> ('r, 'w) S3ProxyApp \<Rightarrow>
   (pyexc option \<times> asgi_event list \<times> metric list \<times> ('r, 'w) S3ProxyApp) option" where
  "app_http R E sched X sc q app =
     (case http_call (http_handler_of R E sched X (app_settings app) (app_pool app)) sc
         \<lparr>incoming = q, sent = [], front_metrics = [], proxy = (app_store app, app_world app)\<rparr> of
        None \<Rightarrow> None
      | Some (exc, h) \<Rightarrow> Some (exc, sent h, front_metrics h, app\<lparr>app_store := fst (proxy h), app_world := snd (proxy h)\<rparr>))"

text \<open>\<open>__call__\<close>: what is called, and what it did.\<close>

datatype asgi_scope = HttpScope http_scope "asgi_msg list" | LifespanScope "string list" | OtherScope string

datatype app_events = HttpEvents "asgi_event list" | LifespanEvents "lifespan_event list" | Ignored

definition app_call ::
  "'w app_lib \<Rightarrow> 'r redis \<Rightarrow> 'w services \<Rightarrow> (nat \<Rightarrow> nat list) \<Rightarrow> 'w http_lib \<Rightarrow> asgi_scope \<Rightarrow> ('r, 'w) S3ProxyApp \<Rightarrow>
   (pyexc option \<times> app_events \<times> ('r, 'w) S3ProxyApp) option" where
  "app_call L R E sched X sc app =
     (case sc of
        HttpScope hs q \<Rightarrow>
          (case app_http R E sched X hs q app of None \<Rightarrow> None | Some (exc, evs, _, app) \<Rightarrow> Some (exc, HttpEvents evs, app))
      | LifespanScope ms \<Rightarrow>
          (case handle_lifespan L ms app of None \<Rightarrow> None | Some (exc, evs, _, app) \<Rightarrow> Some (exc, LifespanEvents evs, app))
      | OtherScope t \<Rightarrow> Some (None, Ignored, app))"

section \<open>The worker\<close>

text \<open>\<open>create_worker_app\<close>: logging, pool, breakers and the subscriptions of \<open>register_subscribers\<close>; its two hooks.\<close>

definition create_worker_app ::
  "'w app_lib \<Rightarrow> Settings \<Rightarrow> ReplicationRetryConfig \<Rightarrow> root_logger \<Rightarrow> 'w world \<Rightarrow>
   pyexc + ReplicationRetryConfig \<times> DlqPublisher \<times> subscription list \<times> 'w runtime" where
  "create_worker_app L s cfg rlog w =
     (case setup_logging (lib_open_log L) (st_log_level s) (st_log_file s) rlog (ext w) of
        (Some e, _, _) \<Rightarrow> Inl e
      | (None, rlog, x) \<Rightarrow>
          (let pool = new_pool (pool_configs s) in
           case register_subscribers (kafka_topic (st_kafka s)) pool (st_replication_mode s)
                (Some (kafka_settings.truncate (st_kafka s))) cfg (new_pool_world s (w\<lparr>ext := x\<rparr>)) of
             (cfg, dlq, subs, w) \<Rightarrow>
               Inr (cfg, dlq, subs, \<lparr>app_settings = s, app_pool = pool, app_prober = new_prober (st_latency_probe_interval s),
                 app_log = rlog, app_world = w\<rparr>)))"

definition worker_startup :: "'w app_lib \<Rightarrow> 'w runtime \<Rightarrow> pyexc option \<times> 'w runtime" where
  "worker_startup L = pool_start_step L"

definition worker_shutdown :: "'w app_lib \<Rightarrow> 'w runtime \<Rightarrow> pyexc option \<times> 'w runtime" where
  "worker_shutdown L = pool_close_step L"

section \<open>States of a started proxy\<close>

inductive running ::
  "'w app_lib \<Rightarrow> 'r redis \<Rightarrow> 'w services \<Rightarrow> (nat \<Rightarrow> nat list) \<Rightarrow> 'w http_lib \<Rightarrow> Settings \<Rightarrow> 'r \<Rightarrow> ('r, 'w) S3ProxyApp \<Rightarrow> bool"
  for L :: "'w app_lib" and R :: "'r redis" and E :: "'w services" and sched :: "nat \<Rightarrow> nat list" and X :: "'w http_lib"
    and s :: Settings and server :: 'r where
  started: "startup L (new_app s server rlog w) = (None, app) \<Longrightarrow> running L R E sched X s server app"
| request: "running L R E sched X s server app \<Longrightarrow> app_http R E sched X sc q app = Some (exc, evs, ms, app') \<Longrightarrow>
    running L R E sched X s server app'"
| probed: "running L R E sched X s server app \<Longrightarrow> prober_step E (clients (app_pool app)) (app_prober app) (app_world app) = (p, w) \<Longrightarrow>
    running L R E sched X s server (app\<lparr>app_prober := p, app_world := w\<rparr>)"
| waited: "running L R E sched X s server app \<Longrightarrow> 0 \<le> d \<Longrightarrow>
    running L R E sched X s server (app\<lparr>app_world := (app_world app)\<lparr>clock := clock (app_world app) + d\<rparr>\<rparr>)"

lemma client_start_started: "started c \<Longrightarrow> client_start c = c"
  by (cases c) (simp add: client_start_def)

lemma each_start:
  "each_client (start_client L) cs w = (None, cs', w') \<Longrightarrow> \<forall>c \<in> set cs. bc_type c = BT_MEMORY \<longrightarrow> started c \<Longrightarrow>
   cs' = map client_start cs"
proof (induction cs arbitrary: w cs')
  case (Cons c cs)
  obtain c1 w1 where c: "start_client L c w = (None, c1, w1)"
    using Cons.prems(1) by (cases "start_client L c w") (auto split: option.splits)
  then obtain cs1 where "each_client (start_client L) cs w1 = (None, cs1, w')" "cs' = c1 # cs1"
    using Cons.prems(1) by (auto split: prod.splits)
  moreover from c have "c1 = client_start c" using client_start_started [of c] Cons.prems(2)
    by (auto simp: start_client_def split: BackendType.splits prod.splits option.splits)
  ultimately show ?case using Cons.IH Cons.prems(2) by simp
qed simp

lemma each_close:
  "each_client (close_client L) cs w = (None, cs', w') \<Longrightarrow> c \<in> set cs' \<Longrightarrow> bc_type c = BT_S3 \<Longrightarrow> \<not> started c"
proof (induction cs arbitrary: w cs')
  case (Cons d cs)
  obtain c1 w1 where d: "close_client L d w = (None, c1, w1)"
    using Cons.prems(1) by (cases "close_client L d w") (auto split: option.splits)
  then obtain cs1 where "each_client (close_client L) cs w1 = (None, cs1, w')" "cs' = c1 # cs1"
    using Cons.prems(1) by (auto split: prod.splits)
  moreover from d have "bc_type c1 = BT_S3 \<longrightarrow> \<not> started c1"
    by (auto simp: close_client_def client_close_def split: if_splits prod.splits option.splits)
  ultimately show ?case using Cons.IH Cons.prems(2,3) by auto
qed simp

lemma with_started_clients:
  assumes "wf_pool pool"
  shows "with_clients pool (map client_start (clients pool)) = pool_start pool"
proof -
  obtain p where p: "pool_primary pool = Some p" "p \<in> set (clients pool)" and d: "distinct (map bc_name (clients pool))"
    using assms by (auto simp: wf_pool_def)
  have "distinct (map bc_name cs) \<Longrightarrow> p \<in> set cs \<Longrightarrow>
      List.find (\<lambda>c. bc_name c = bc_name p) (map client_start cs) = Some (client_start p)" for cs
    by (induction cs) (auto simp: client_start_def image_iff)
  from this [OF d p(2)] p(1) show ?thesis by (simp add: with_clients_def pool_start_def)
qed

lemma pool_start_step_pool:
  assumes "pool_start_step L app = (None, app')" and "app_pool app = new_pool (pool_configs s)" and "valid_settings s"
  shows "app_settings app' = app_settings app \<and> app_pool app' = pool_start (new_pool (pool_configs s)) \<and>
    app_prober app' = prober_start (app_prober app)"
proof -
  obtain cs w1 where cs: "each_client (start_client L) (clients (app_pool app)) (app_world app) = (None, cs, w1)"
    "app_settings app' = app_settings app" "app_pool app' = with_clients (app_pool app) cs" "app_prober app' = prober_start (app_prober app)"
    using assms(1) by (auto simp: pool_start_step_def Let_def split: prod.splits if_splits)
  have "\<forall>c \<in> set (clients (app_pool app)). bc_type c = BT_MEMORY \<longrightarrow> started c"
    by (auto simp: assms(2) new_pool_def make_client_def)
  from each_start [OF cs(1) this] with_started_clients [OF valid_pool [OF assms(3)]] cs(2-4) assms(2) show ?thesis by simp
qed

lemma startup_steps:
  assumes "startup L (new_app s server rlog w) = (None, app)"
  obtains app0 app1 app2 where "logging_step L (new_app s server rlog w) = (None, app0)" "start_multipart_session_store L app0 = (None, app1)"
    "pool_start_step L app1 = (None, app2)" "broker_step (lib_broker_start L) app2 = (None, app)"
    "app_settings app1 = s" "app_pool app1 = new_pool (pool_configs s)" "app_prober app1 = new_prober (st_latency_probe_interval s)"
proof -
  let ?app = "new_app s server rlog w"
  obtain app0 app1 app2 where a: "logging_step L ?app = (None, app0)" "start_multipart_session_store L app0 = (None, app1)"
    "pool_start_step L app1 = (None, app2)" "broker_step (lib_broker_start L) app2 = (None, app)"
    using assms by (auto simp: startup_def and_then_def split: prod.splits option.splits)
  have "app_settings app0 = s" "app_pool app0 = new_pool (pool_configs s)" "app_prober app0 = new_prober (st_latency_probe_interval s)"
    using a(1) by (auto simp: logging_step_def new_app_def split: prod.splits)
  then have "app_settings app1 = s" "app_pool app1 = new_pool (pool_configs s)" "app_prober app1 = new_prober (st_latency_probe_interval s)"
    using a(2) by (auto simp: start_multipart_session_store_def split: MultipartSessionStore.splits if_splits option.splits)
  then show thesis using that a by blast
qed

lemma startup_pool:
  assumes "startup L (new_app s server rlog w) = (None, app)" and "valid_settings s"
  shows "app_settings app = s \<and> app_pool app = pool_start (new_pool (pool_configs s))"
  using assms(1)
proof (rule startup_steps)
  fix app0 app1 app2
  assume a: "pool_start_step L app1 = (None, app2)" "broker_step (lib_broker_start L) app2 = (None, app)"
    "app_settings app1 = s" "app_pool app1 = new_pool (pool_configs s)"
  from pool_start_step_pool [OF a(1,4) assms(2)] a(2,3) show ?thesis by (auto simp: broker_step_def split: prod.splits)
qed

lemma running_pool:
  "running L R E sched X s server app \<Longrightarrow> valid_settings s \<Longrightarrow>
   app_settings app = s \<and> app_pool app = pool_start (new_pool (pool_configs s))"
proof (induction rule: running.induct)
  case (started rlog w app)
  from startup_pool [OF this] show ?case .
qed (auto simp: app_http_def split: option.splits)

lemma running_ready:
  assumes "running L R E sched X s server app" and "valid_settings s" and "distinct (st_sync_backends s)"
    and "0 < st_stream_chunk_size s" and "reads_body E" and "foreign_errors E" and "fair_sched sched"
  shows "proxy_ready E sched s (app_pool app)"
proof -
  have pool: "app_pool app = pool_start (new_pool (pool_configs s))" using running_pool [OF assms(1,2)] by simp
  have "map bc_name (clients (app_pool app)) = map fst (pool_configs s)"
    by (simp add: pool pool_start_def client_start_def new_pool_def make_client_def comp_def)
  then show ?thesis
    using assms pool_start_wf [OF valid_pool [OF assms(2)]] pool_start_ready
    by (auto simp: proxy_ready_def deployed_def pool from_settings_def)
qed

end
