(* ===== verification/Deployment.thy ===== *)
theory Deployment
  imports Application
begin

text \<open>
  The whole proxy, from its configuration to the status of a response: whatever settings pass validation,
  a proxy that was started with them reports an upload as successful only when it is stored on the number
  of backends that the settings ask for.  And the lifespan of the application: how the protocol ends.
\<close>

section \<open>A configured proxy acknowledges only what is stored\<close>

lemma app_uuid_world: "app_uuid E x = (u, y) \<Longrightarrow> trace (snd y) = trace (snd x)"
  by (auto simp: app_uuid_def draw_uuid_def)

text \<open>An \<open>http\<close> call outside the internal paths is a request of the handler, perhaps after drawing a request id.\<close>

lemma app_http_request:
  assumes "app_http R E sched X sc q app = Some (exc, evs, ms, app')" and "take 11 (sc_path sc) \<noteq> ''/.internal/''"
  obtains rid h h' where "trace (snd (proxy h)) = trace (app_world app)" "incoming h = q" "sent h = []"
    "handle_s3_request (http_handler_of R E sched X (app_settings app) (app_pool app)) sc (request_headers sc) rid h = Some (exc, h')"
    "sent h' = evs" "app_world app' = snd (proxy h')"
proof -
  let ?H = "http_handler_of R E sched X (app_settings app) (app_pool app)"
  let ?h = "\<lparr>incoming = q, sent = [], front_metrics = [], proxy = (app_store app, app_world app)\<rparr>"
  obtain h' where h': "http_call ?H sc ?h = Some (exc, h')" "evs = sent h'" "app_world app' = snd (proxy h')"
    using assms(1) by (auto simp: app_http_def split: option.splits)
  obtain u x where u: "app_uuid E (app_store app, app_world app) = (u, x)" by (rule prod.exhaust)
  have uuid: "lib_uuid ?H = app_uuid E" by (simp add: http_handler_of_def)
  show ?thesis
  proof (cases "\<exists>c cs. map_of (request_headers sc) REQUEST_ID = Some (c # cs)")
    case True
    then obtain c cs where "map_of (request_headers sc) REQUEST_ID = Some (c # cs)" by blast
    then have "handle_s3_request ?H sc (request_headers sc) (c # cs) ?h = Some (exc, h')"
      using h'(1) assms(2) by (simp add: http_call_def)
    then show ?thesis using h'(2,3) by (intro that [of ?h "c # cs" h']) simp_all
  next
    case False
    then have "map_of (request_headers sc) REQUEST_ID \<in> {None, Some []}"
      by (cases "map_of (request_headers sc) REQUEST_ID"; cases "the (map_of (request_headers sc) REQUEST_ID)") auto
    then have "handle_s3_request ?H sc (request_headers sc) u (?h\<lparr>proxy := x\<rparr>) = Some (exc, h')"
      using h'(1) assms(2) u uuid by (auto simp: http_call_def)
    then show ?thesis using h'(2,3) app_uuid_world [OF u] by (intro that [of "?h\<lparr>proxy := x\<rparr>" u h']) simp_all
  qed
qed


section \<open>How the lifespan protocol ends\<close>

definition all_closed :: "('r, 'w) S3ProxyApp \<Rightarrow> bool" where
  "all_closed app \<longleftrightarrow> (\<forall>c \<in> set (clients (app_pool app)). bc_type c = BT_S3 \<longrightarrow> \<not> started c) \<and>
     (probe_interval (app_prober app) > 0 \<longrightarrow> prober_task (app_prober app) = None) \<and>
     (case app_store app of MemoryStore d \<Rightarrow> True | ValkeyStore cfg v \<Rightarrow> \<not> vk_started v)"

lemma pool_close_frame: "app_store (snd (pool_close_step L app)) = app_store app"
  by (simp add: pool_close_step_def split: prod.split)

lemma shutdown_closes:
  assumes "shutdown L app = (None, app')"
  shows "all_closed app'"
proof -
  obtain app1 app2 where a: "broker_step (lib_broker_stop L) app = (None, app1)" "pool_close_step L app1 = (None, app2)"
    "close_multipart_session_store L app2 = (None, app')"
    using assms by (auto simp: shutdown_def and_then_def split: prod.splits option.splits)
  obtain cs w where cs: "each_client (close_client L) (clients (app_pool app1)) (app_world app1) = (None, cs, w)"
    "clients (app_pool app2) = cs" "probe_interval (app_prober app2) > 0 \<longrightarrow> prober_task (app_prober app2) = None"
    using a(2) by (auto simp: pool_close_step_def with_clients_def split: prod.splits)
  have "clients (app_pool app') = cs" "probe_interval (app_prober app') > 0 \<longrightarrow> prober_task (app_prober app') = None"
    "case app_store app' of MemoryStore d \<Rightarrow> True | ValkeyStore cfg v \<Rightarrow> \<not> vk_started v"
    using a(3) cs(2,3)
    by (auto simp: close_multipart_session_store_def vk_close_def split: MultipartSessionStore.splits if_splits prod.splits option.splits)
  then show ?thesis using each_close [OF cs(1)] by (simp add: all_closed_def)
qed

text \<open>The end of the loop: the exception, the events that were sent, the application.\<close>

definition lifespan_end :: "pyexc option \<Rightarrow> lifespan_event list \<Rightarrow> ('r, 'w) S3ProxyApp \<Rightarrow> bool" where
  "lifespan_end exc evs app \<longleftrightarrow>
     (\<exists>started final. evs = started @ final \<and> set started \<subseteq> {StartupComplete} \<and>
        (exc = None \<and> (\<exists>m. final = [StartupFailed m]) \<or>
         exc = None \<and> final = [ShutdownComplete] \<and> all_closed app \<or>
         exc \<noteq> None \<and> final = []))"

lemma lifespan_end_last:
  "lifespan_end None [StartupFailed m] app" "all_closed app \<Longrightarrow> lifespan_end None [ShutdownComplete] app"
  "lifespan_end (Some e) [] app"
  unfolding lifespan_end_def by (rule exI [of _ "[]"], simp)+

lemma lifespan_end_Cons: "lifespan_end exc evs app \<Longrightarrow> lifespan_end exc (StartupComplete # evs) app"
  unfolding lifespan_end_def by (elim exE) (rule exI [of _ "StartupComplete # _"], auto)


section \<open>A deployment with the distributed strategy\<close>

definition sample_backend :: "bool \<Rightarrow> BackendSettings" where
  "sample_backend prim = (default_backend ''key'' ''secret'')\<lparr>cfg_is_primary := prim, verify := VStr '' No ''\<rparr>"

definition sample_input :: Settings where
  "sample_input = default_settings\<lparr>
     st_backends := [(''p'', sample_backend True), (''s1'', sample_backend False), (''s2'', sample_backend False)],
     st_kafka := default_kafka\<lparr>bootstrap_servers := VStr ''kafka1:9092, kafka2:9092''\<rparr>,
     st_sync_quorum := 2, st_response_backend := Some ''p'', st_stream_chunk_size := 8, st_max_memory_stream_buffer_size := 100\<rparr>"

definition sample_settings :: Settings where
  "sample_settings = sample_input\<lparr>
     st_backends := map (\<lambda>(n, b). (n, b\<lparr>verify := VBool False\<rparr>)) (st_backends sample_input),
     st_kafka := default_kafka\<lparr>bootstrap_servers := VList [VStr ''kafka1:9092'', VStr ''kafka2:9092'']\<rparr>,
     st_write_strategy := MULTI_SYNC_DISTRIBUTED\<rparr>"

definition sample_json :: json_lib where
  "sample_json = \<lparr>json_loads = (\<lambda>_. None), str_of_item = str_val\<rparr>"

definition sample_app_lib :: "unit app_lib" where
  "sample_app_lib = \<lparr>lib_create_client = (\<lambda>n x. (None, x)), lib_exit_client = (\<lambda>n x. (None, x)), lib_broker_start = (\<lambda>x. (None, x)),
     lib_broker_stop = (\<lambda>x. (None, x)), redis_installed = True, lib_from_url = (\<lambda>_. None), lib_aclose = (\<lambda>x. (None, x)),
     lib_open_log = (\<lambda>p x. (None, x))\<rparr>"

definition sample_http_lib :: "unit http_lib" where
  "sample_http_lib = \<lparr>x_fromstring = (\<lambda>_. Inl (PyValueError ''xml'')), x_fromstring_bytes = (\<lambda>_. Inl (PyValueError ''xml'')),
     x_decode_utf8 = Inr, x_generate_latest = (\<lambda>_. []), x_content_type_latest = ''text/plain'', x_body_reads = (\<lambda>n b. ([b], None))\<rparr>"

definition sample_log :: root_logger where
  "sample_log = \<lparr>root_level = 30, root_handlers = []\<rparr>"

definition sample_app :: "((string \<times> json) list, unit) S3ProxyApp" where
  "sample_app = snd (startup sample_app_lib (new_app sample_settings [] sample_log sample_world))"

lemma sample_settings_accepted: "make_settings sample_json ''multi_sync_distributed'' sample_input = Inr sample_settings"
  by code_simp

lemma sample_app_running:
  "running sample_app_lib dict_redis sample_services reverse_sched sample_http_lib sample_settings [] sample_app"
proof (rule running.started)
  have "fst (startup sample_app_lib (new_app sample_settings ([] :: (string \<times> json) list) sample_log sample_world)) = None" by code_simp
  then show "startup sample_app_lib (new_app sample_settings [] sample_log sample_world) = (None, sample_app)"
    by (simp add: sample_app_def prod_eq_iff)
qed

definition sample_messages :: "asgi_msg list" where
  "sample_messages = [HttpRequest (Some ''ab'') (Some True), HttpRequest (Some ''c'') None]"

lemma sample_app_answer:
  "map_option (\<lambda>(exc, evs, ms, app'). (exc, map (\<lambda>e. case e of ResponseStart st hs \<Rightarrow> st | _ \<Rightarrow> 0) evs))
     (app_http dict_redis sample_services reverse_sched sample_http_lib sample_scope sample_messages sample_app) = Some (None, [200, 0])"
  by code_simp


section \<open>A chunk size of zero\<close>

text \<open>
  The hypothesis on the chunk size is needed: the validators accept \<open>stream_chunk_size = 0\<close>, and then a read of
  the request body returns no bytes, which the readers take for its end.  The upload of three bytes,
  without a \<open>Content-Length\<close>, is answered with 200 and every backend has been given an empty object.
\<close>

definition zero_chunks :: Settings where
  "zero_chunks = sample_settings\<lparr>st_stream_chunk_size := 0\<rparr>"

definition zero_app :: "((string \<times> json) list, unit) S3ProxyApp" where
  "zero_app = snd (startup sample_app_lib (new_app zero_chunks [] sample_log sample_world))"

theorem zero_chunk_size_stores_nothing:
  "make_settings sample_json ''multi_sync_distributed'' (sample_input\<lparr>st_stream_chunk_size := 0\<rparr>) = Inr zero_chunks \<and>
   map_option (\<lambda>(exc, evs, ms, app'). (exc, map (\<lambda>e. case e of ResponseStart st hs \<Rightarrow> st | _ \<Rightarrow> 0) evs,
       map (\<lambda>(n, op, d, r). (n, d)) (calls_of (trace (app_world app')))))
     (app_http dict_redis sample_services reverse_sched sample_http_lib (sample_scope\<lparr>sc_headers := []\<rparr>) sample_messages zero_app) =
   Some (None, [200, 0], [(''s2'', []), (''s1'', []), (''p'', [])])"
  by code_simp

end
