(* ===== verification/End_To_End.thy ===== *)
theory End_To_End
  imports Deployment
begin

text \<open>
  The proxy and the worker of one deployment.  What the proxy publishes for an acknowledged upload goes to a topic that
  the worker built from the same settings has subscribed to, and the subscription settles the message.  The broker
  between them is the list of accepted messages on the one side and the decoding of a delivered message on the other.
\<close>

section \<open>The messages of a write\<close>

text \<open>The topic of a task, and its targets, as the replication mode has them.\<close>

definition addressed :: "ReplicationMode \<Rightarrow> string \<Rightarrow> event list \<Rightarrow> bool" where
  "addressed mode base es \<longleftrightarrow> (\<forall>(topic, op, b, k, src, ts) \<in> set (tasks_of es).
     case mode of BATCH \<Rightarrow> topic = base | PER_BACKEND \<Rightarrow> \<exists>t. topic = base @ ''.'' @ t \<and> ts = [t])"

lemma published_of_publish: "published_of (KafkaPublish t k p r # es) = (if r = None then [(t, k, p)] else []) @ published_of es"
  by (cases r) simp_all

lemma task_message:
  "(topic, op, b, k, src, ts) \<in> set (tasks_of es) \<Longrightarrow>
   \<exists>pk m. (topic, pk, ReplMsg m) \<in> set (published_of es) \<and> msg_operation m = op \<and> msg_bucket m = b \<and> msg_key m = k \<and>
     source_backend m = src \<and> target_backends m = ts"
  by (induction es rule: tasks_of.induct) (auto simp: published_of_publish simp del: published_of.simps(2))

lemma tasks_published: "published_of es = [] \<Longrightarrow> tasks_of es = []"
  by (induction es rule: tasks_of.induct) (auto simp: published_of_publish split: if_splits)

lemma primary_run_addressed:
  assumes "deployed E cfg pool" and "request_body b" and "primary_run E mode topic cfg pool op ps b True w = (Inr r, w')"
    and "bucket_param ps = Inr bk"
  shows "addressed mode topic (effects w w')"
proof -
  obtain b' where x: "write_execute E mode topic cfg op pool ps b True w = (Inr r, b', w')"
    using assms(3) by (auto simp: primary_run_def split: prod.splits)
  obtain cs w0 where "get_write_candidates pool w = (Inr cs, w0)"
    using x by (cases "get_write_candidates pool w"; cases "fst (get_write_candidates pool w)") (auto simp: write_execute_def)
  with write_execute_law [OF _ _ _ assms(2) _ this x] assms(1) obtain outs lr w1 where
    law: "extends w w1 (tried op (body_rest b) cs outs)" "write_end E mode topic op pool ps True lr w1 = (Inr r, w')"
    by (auto simp: deployed_def)
  obtain es1 where es1: "trace w1 = trace w @ es1" "tasks_of es1 = []"
    using law(1) tasks_published by (auto simp: extends_def)
  obtain c where lr: "lr = Succeeded c r"
    using law(2) by (auto simp: write_end_def split: loop_result.splits option.splits if_splits prod.splits)
  show ?thesis
  proof (cases "replication_targets pool (bc_name c) = []")
    case True
    then have "w' = w1" using law(2) lr by (simp add: write_end_def)
    then show ?thesis using es1 by (simp add: addressed_def effects_def)
  next
    case False
    then have s: "schedule_replication E mode topic op ps r (bc_name c) (replication_targets pool (bc_name c)) w1 = (None, w')"
      using law(2) lr by (auto simp: write_end_def split: prod.splits option.splits)
    obtain es2 where es2: "trace w' = trace w1 @ es2"
      using repl.schedule_quiet [of w1 E mode topic op ps r "bc_name c" "replication_targets pool (bc_name c)"] s by (auto simp: published_def)
    have "effects w w' = es1 @ es2" "effects w1 w' = es2" using es1 es2 by (simp_all add: effects_def)
    then show ?thesis
      using schedule_replication_topics [OF s assms(4)] es1(2) by (fastforce simp: addressed_def split: ReplicationMode.splits)
  qed
qed

section \<open>The default strategy in the configured object\<close>

definition queued ::
  "ReplicationMode \<Rightarrow> string \<Rightarrow> BackendPool \<Rightarrow> S3Operation \<Rightarrow> pdict \<Rightarrow> bytes \<Rightarrow> pdict \<Rightarrow> 'st \<times> 'w world \<Rightarrow> 'st \<times> 'w world \<Rightarrow> bool" where
  "queued mode topic pool op ps d r x y \<longleftrightarrow> (\<exists>es. trace (snd y) = trace (snd x) @ es \<and> replicated_everywhere pool op ps d r es \<and>
     (\<forall>bk. bucket_param ps = Inr bk \<longrightarrow> addressed mode topic es))"

interpretation queue: write_access "run_strategy R E sched pool (WritePrimaryReplication mode topic cfg)"
  "\<lambda>b. deployed E cfg pool \<and> request_body b" "queued mode topic pool" for R E sched pool mode topic cfg
proof
  fix op ps b x r y
  assume a: "deployed E cfg pool \<and> request_body b"
    "run_strategy R E sched pool (WritePrimaryReplication mode topic cfg) op ps b True x = (Inr r, y)"
  have run: "primary_run E mode topic cfg pool op ps b True (snd x) = (Inr r, snd y)"
    using a(2) by (cases x) (auto split: prod.splits)
  from primary_run_success [OF conjunct1 [OF a(1)] conjunct2 [OF a(1)] run] obtain es where
    es: "trace (snd y) = trace (snd x) @ es" "replicated_everywhere pool op ps (body_rest b) r es" by (auto simp: replicated_write_def)
  then have "effects (snd x) (snd y) = es" by (simp add: effects_def)
  with primary_run_addressed [OF conjunct1 [OF a(1)] conjunct2 [OF a(1)] run] es
  show "queued mode topic pool op ps (body_rest b) r x y" by (auto simp: queued_def)
next
  fix op ps b rp x e y
  assume "deployed E cfg pool \<and> request_body b"
    "run_strategy R E sched pool (WritePrimaryReplication mode topic cfg) op ps b rp x = (Inl e, y)"
  then show "error_code_ok e"
    using primary_run_error [OF deployed_foreign_errors, of E cfg pool mode topic cfg pool op ps b rp "snd x" e "snd y"]
    by (cases x) (auto split: prod.splits)
qed

section \<open>The worker\<close>

text \<open>
  \<open>settles\<close>: whatever delivery of the message \<open>m\<close> a subscription gets, when it acknowledges it the backend \<open>n\<close> is
  accounted for, by a recorded success or a dead letter; when it hands it to a background task, that task ends without an exception and \<open>n\<close> is
  accounted for then.  (Otherwise it raised, the message stays uncommitted and is delivered again.)
\<close>

definition settles ::
  "'w services \<Rightarrow> ReplicationRetryConfig \<Rightarrow> DlqPublisher option \<Rightarrow> BackendPool \<Rightarrow> 'k consumer_ops \<Rightarrow> ('k \<Rightarrow> bool) \<Rightarrow>
   subscription \<Rightarrow> ReplicationMessage \<Rightarrow> string \<Rightarrow> bool" where
  "settles E cfg q pool C K sub m n \<longleftrightarrow> (\<forall>decode raw prt off k w r b k' w1 wk.
     decode raw = Some m \<longrightarrow> consume decode E cfg q pool C sub raw prt off k w = (r, b, k', w1) \<longrightarrow> K k' \<longrightarrow> consumer wk = k' \<longrightarrow>
     (case b of
        None \<Rightarrow> r = None \<longrightarrow> accounted q w w1 n
      | Some x \<Rightarrow> \<exists>wk' w'. run_background E cfg q pool C x wk w1 = Some (None, wk', w') \<and> accounted q w w' n))"

lemma batch_settles:
  assumes "op_of_value (msg_operation m) \<noteq> None" and "\<exists>c. pool_get pool (source_backend m) = Inr c" and "n \<in> set (target_backends m)"
    and "healthy C K" and "dead_letters_accepted E"
  shows "settles E cfg q pool C K (topic, g, mw, BatchHandler) m n"
  unfolding settles_def
proof (intro allI impI)
  fix decode raw prt off k w r b k' w1 and wk :: "'a worker"
  assume d: "decode raw = Some m" and c: "consume decode E cfg q pool C (topic, g, mw, BatchHandler) raw prt off k w = (r, b, k', w1)"
    and k: "K k'" "consumer wk = k'"
  have h: "handle_batch_replication decode E cfg q pool C topic raw prt off k w = (r, b, k', w1)" using c by (simp add: consume_def)
  have m: "handleable decode pool raw m" using assms(1,2) d by (auto simp: handleable_def)
  show "case b of None \<Rightarrow> r = None \<longrightarrow> accounted q w w1 n
      | Some x \<Rightarrow> \<exists>wk' w'. run_background E cfg q pool C x wk w1 = Some (None, wk', w') \<and> accounted q w w' n"
  proof (cases b)
    case None
    then show ?thesis using batch_handler_law [OF h m] assms(3) by (auto simp: open_or_closed_def)
  next
    case (Some x)
    from batch_settles_law [OF h [unfolded Some] m assms(4) k assms(5)] Some assms(3) show ?thesis by auto
  qed
qed

lemma per_backend_settles:
  assumes "op_of_value (msg_operation m) \<noteq> None" and "\<exists>c. pool_get pool (source_backend m) = Inr c" and "pool_get pool n = Inr c"
    and "healthy C K" and "dead_letters_accepted E"
  shows "settles E cfg q pool C K (topic, g, mw, PerBackendHandler n) m n"
  unfolding settles_def
proof (intro allI impI)
  fix decode raw prt off k w r b k' w1 and wk :: "'a worker"
  assume d: "decode raw = Some m" and c: "consume decode E cfg q pool C (topic, g, mw, PerBackendHandler n) raw prt off k w = (r, b, k', w1)"
    and k: "K k'" "consumer wk = k'"
  have h: "handle_per_backend_replication decode E cfg q pool C topic n raw prt off k w = (r, b, k', w1)" using c by (simp add: consume_def)
  have "handleable decode pool raw m" using assms(1,2) d by (auto simp: handleable_def)
  from per_backend_settles_law [OF h this assms(3,4) k assms(5)]
  show "case b of None \<Rightarrow> r = None \<longrightarrow> accounted q w w1 n
      | Some x \<Rightarrow> \<exists>wk' w'. run_background E cfg q pool C x wk w1 = Some (None, wk', w') \<and> accounted q w w' n" .
qed

lemma worker_built:
  fixes v :: "'w world"
  assumes "create_worker_app L s cfg0 rl v = Inr (cfg, q, subs, wk0)" and "worker_startup L wk0 = (None, wk)" and "valid_settings s"
  obtains kc and v' :: "'w world" where "app_pool wk = pool_start (new_pool (pool_configs s))"
    "subs = fst (snd (snd (register_subscribers (kafka_topic (st_kafka s)) (new_pool (pool_configs s)) (st_replication_mode s) (Some kc) cfg0 v')))"
proof -
  let ?kc = "kafka_settings.truncate (st_kafka s)"
  obtain x w1 where r: "register_subscribers (kafka_topic (st_kafka s)) (new_pool (pool_configs s)) (st_replication_mode s) (Some ?kc) cfg0
      (new_pool_world s (v\<lparr>ext := x\<rparr>)) = (cfg, q, subs, w1)" and p: "app_pool wk0 = new_pool (pool_configs s)"
    using assms(1) by (auto simp: create_worker_app_def Let_def split: prod.splits option.splits)
  have "subs = fst (snd (snd (register_subscribers (kafka_topic (st_kafka s)) (new_pool (pool_configs s)) (st_replication_mode s)
      (Some ?kc) cfg0 (new_pool_world s (v\<lparr>ext := x\<rparr>)))))" by (simp add: r)
  moreover have "app_pool wk = pool_start (new_pool (pool_configs s))"
    using pool_start_step_pool [OF assms(2) [unfolded worker_startup_def] p assms(3)] by simp
  ultimately show thesis using that by blast
qed

lemma subscribed_batch:
  "subs = fst (snd (snd (register_subscribers base pool BATCH (Some kc) cfg v))) \<Longrightarrow> \<exists>g mw. (base, g, mw, BatchHandler) \<in> set subs"
  by (auto simp: register_subscribers_def register_batch_subscriber_def Let_def)

lemma subscribed_per_backend:
  assumes "subs = fst (snd (snd (register_subscribers base pool PER_BACKEND (Some kc) cfg v)))" and "c \<in> set (get_secondaries pool)"
  shows "\<exists>g mw. (base @ ''.'' @ bc_name c, g, mw, PerBackendHandler (bc_name c)) \<in> set subs"
  using assms by (auto simp: register_subscribers_def register_per_backend_subscriber_def Let_def image_iff)

text \<open>A task of the right mode for a backend of the pool is a message that a subscription of the worker settles.\<close>

definition reaches ::
  "'w services \<Rightarrow> ReplicationRetryConfig \<Rightarrow> DlqPublisher \<Rightarrow> subscription list \<Rightarrow> BackendPool \<Rightarrow> 'k consumer_ops \<Rightarrow> ('k \<Rightarrow> bool) \<Rightarrow>
   event list \<Rightarrow> string \<Rightarrow> string \<Rightarrow> string option \<Rightarrow> string \<Rightarrow> string \<Rightarrow> bool" where
  "reaches E cfg q subs pool C K es op b k src n \<longleftrightarrow>
     (\<exists>pk m sub. (fst sub, pk, ReplMsg m) \<in> set (published_of es) \<and> sub \<in> set subs \<and> msg_operation m = op \<and> msg_bucket m = b \<and>
        msg_key m = k \<and> source_backend m = src \<and> settles E cfg (Some q) pool C K sub m n)"

lemma task_reaches:
  assumes "task es (op_value op) b k src (bc_name c)" and "addressed mode base es"
    and "subs = fst (snd (snd (register_subscribers base pool0 mode (Some kc) cfg0 v)))" and "pool = pool_start pool0"
    and "\<exists>d. pool_get pool src = Inr d" and "c \<in> set (clients pool0)" and "mode = BATCH \<or> \<not> is_primary c"
    and "healthy C K" and "dead_letters_accepted E"
  shows "reaches E cfg q subs pool C K es (op_value op) b k src (bc_name c)"
proof -
  obtain topic ts where t: "(topic, op_value op, b, k, src, ts) \<in> set (tasks_of es)" "bc_name c \<in> set ts"
    using assms(1) by (auto simp: task_def)
  from task_message [OF t(1)] obtain pk m where m: "(topic, pk, ReplMsg m) \<in> set (published_of es)" "msg_operation m = op_value op"
    "msg_bucket m = b" "msg_key m = k" "source_backend m = src" "target_backends m = ts" by blast
  have ok: "op_of_value (msg_operation m) \<noteq> None" "\<exists>d. pool_get pool (source_backend m) = Inr d" using m assms(5) by simp_all
  obtain sub where "sub \<in> set subs" "fst sub = topic" "settles E cfg (Some q) pool C K sub m (bc_name c)"
  proof (cases mode)
    case BATCH
    then obtain g mw where s: "(base, g, mw, BatchHandler) \<in> set subs" using subscribed_batch assms(3) by blast
    have "topic = base" using assms(2) t(1) BATCH by (auto simp: addressed_def)
    then show thesis using that [OF s] batch_settles [OF ok _ assms(8,9)] t(2) m(6) by simp
  next
    case PER_BACKEND
    then have c: "c \<in> set (get_secondaries pool0)" using assms(6,7) by (simp add: get_secondaries_def)
    then obtain g mw where s: "(base @ ''.'' @ bc_name c, g, mw, PerBackendHandler (bc_name c)) \<in> set subs"
      using subscribed_per_backend assms(3) PER_BACKEND by blast
    have "topic = base @ ''.'' @ bc_name c" using assms(2) t PER_BACKEND by (auto simp: addressed_def)
    moreover obtain d where "pool_get pool (bc_name c) = Inr d"
    proof -
      have "List.find (\<lambda>x. bc_name x = bc_name c) (clients pool) \<noteq> None"
        using assms(4,6) by (auto simp: find_None_iff pool_start_def client_start_def)
      then show thesis using that by (auto simp: pool_get_def)
    qed
    ultimately show thesis using that [OF s] per_backend_settles [OF ok _ assms(8,9)] by simp
  qed
  then show ?thesis using m unfolding reaches_def by blast
qed

section \<open>From the client to every backend\<close>


section \<open>A deployment with the default strategy\<close>

definition default_deployment :: Settings where
  "default_deployment = sample_settings\<lparr>st_write_strategy := PRIMARY_REPLICATION\<rparr>"

definition default_app :: "((string \<times> json) list, unit) S3ProxyApp" where
  "default_app = snd (startup sample_app_lib (new_app default_deployment [] sample_log sample_world))"

lemma default_deployment_accepted: "make_settings sample_json ''primary_replication'' sample_input = Inr default_deployment"
  by code_simp

lemma default_app_running:
  "running sample_app_lib dict_redis sample_services reverse_sched sample_http_lib default_deployment [] default_app"
proof (rule running.started)
  have "fst (startup sample_app_lib (new_app default_deployment ([] :: (string \<times> json) list) sample_log sample_world)) = None" by code_simp
  then show "startup sample_app_lib (new_app default_deployment [] sample_log sample_world) = (None, default_app)"
    by (simp add: default_app_def prod_eq_iff)
qed

lemma default_app_answer:
  "map_option (\<lambda>(exc, evs, ms, app'). (exc, map (\<lambda>e. case e of ResponseStart st hs \<Rightarrow> st | _ \<Rightarrow> 0) evs))
     (app_http dict_redis sample_services reverse_sched sample_http_lib sample_scope sample_messages default_app) = Some (None, [200, 0])"
  by code_simp

lemma default_worker:
  "case create_worker_app sample_app_lib default_deployment sample_config sample_log sample_world of
     Inl e \<Rightarrow> False | Inr (cfg, dlq, subs, wk) \<Rightarrow> fst (worker_startup sample_app_lib wk) = None"
  by code_simp


end
