(* ===== verification/Breaker_History.thy ===== *)
theory Breaker_History
  imports Latency_Prober Distributed_Upload Sync_Guarantees
begin

text \<open>
  The circuit breakers in the running program.  Every operation on the world moves the breakers only by their own
  methods: a success or a failure for each call of a backend, in the order of the calls, and queries; at times that do not
  decrease; and reporting each change of state.  \<open>evolves hs w w'\<close> says that of two states with the history \<open>hs\<close>
  of method calls between them.  All operations of the strategies and of the prober are shown to have one.
\<close>

section \<open>Histories\<close>

type_synonym breaker_history = "(string \<times> int \<times> breaker_event) list"

definition of_backend :: "string \<Rightarrow> breaker_history \<Rightarrow> (int \<times> breaker_event) list" where
  "of_backend n hs = map snd (filter (\<lambda>x. fst x = n) hs)"

definition outcomes :: "breaker_history \<Rightarrow> (string \<times> bool) list" where
  "outcomes hs = map (\<lambda>(n, t, k). (n, k = Success)) (filter (\<lambda>(n, t, k). k \<noteq> Query) hs)"

definition call_outcomes :: "call list \<Rightarrow> (string \<times> bool) list" where
  "call_outcomes cs = map (\<lambda>(n, op, d, r). (n, \<not> isl r)) cs"

definition times :: "breaker_history \<Rightarrow> int list" where
  "times hs = map (fst \<circ> snd) hs"

lemma of_backend_simps [simp]:
  "of_backend n [] = []" "of_backend n (hs @ gs) = of_backend n hs @ of_backend n gs"
  "of_backend n ((m, x) # hs) = (if m = n then x # of_backend n hs else of_backend n hs)"
  by (simp_all add: of_backend_def)

lemma outcomes_simps [simp]:
  "outcomes [] = []" "outcomes (hs @ gs) = outcomes hs @ outcomes gs"
  "outcomes ((n, t, k) # hs) = (if k = Query then [] else [(n, k = Success)]) @ outcomes hs"
  by (simp_all add: outcomes_def)

lemma call_outcomes_simps [simp]:
  "call_outcomes [] = []" "call_outcomes (cs @ ds) = call_outcomes cs @ call_outcomes ds"
  "call_outcomes ((n, op, d, r) # cs) = (n, \<not> isl r) # call_outcomes cs"
  by (simp_all add: call_outcomes_def)

lemma times_simps [simp]: "times [] = []" "times (hs @ gs) = times hs @ times gs" "times ((n, t, k) # hs) = t # times hs"
  by (simp_all add: times_def)

text \<open>The state that the last report for a backend names.\<close>

fun last_report :: "string \<Rightarrow> event list \<Rightarrow> string option" where
  "last_report n [] = None"
| "last_report n (e # es) =
     (case last_report n es of
        Some s \<Rightarrow> Some s
      | None \<Rightarrow> (case e of Metric (set_backend_circuit_state m s) \<Rightarrow> if m = n then Some s else None | _ \<Rightarrow> None))"

lemma last_report_append [simp]:
  "last_report n (xs @ ys) = (case last_report n ys of None \<Rightarrow> last_report n xs | Some s \<Rightarrow> Some s)"
  by (induction xs) (auto split: option.splits)

lemma last_report_tasks [simp]: "last_report n (map (\<lambda>t. Metric (record_replication_task op t)) ts) = None"
  by (induction ts) auto

lemma calls_of_tasks [simp]: "calls_of (map (\<lambda>t. Metric (record_replication_task op t)) ts) = []"
  by (induction ts) auto

lemma last_report_state [simp]:
  "last_report n (map Metric (record_state b)) = (if n = cb_backend_name b then Some (circuit_value (cb_state b)) else None)"
  by (simp add: record_state_def)

section \<open>What happens to the breakers between two states\<close>

lemma breaker_run_append: "breaker_run (xs @ ys) b = breaker_run ys (breaker_run xs b)"
  by (simp add: breaker_run_def)

lemma breaker_run_Nil [simp]: "map_option (breaker_run []) x = x"
  by (cases x) (simp_all add: breaker_run_def)

lemma map_option_breaker_run: "map_option (breaker_run (xs @ ys)) x = map_option (breaker_run ys) (map_option (breaker_run xs) x)"
  by (cases x) (simp_all add: breaker_run_append)

lemma breaker_step_name [simp]: "cb_backend_name (breaker_step e b) = cb_backend_name b"
  by (cases "(e, b)" rule: breaker_step.cases) simp_all

lemma breaker_run_name [simp]: "cb_backend_name (breaker_run es b) = cb_backend_name b"
  by (induction es arbitrary: b) (simp_all add: breaker_run_def)

definition reported :: "string \<Rightarrow> event list \<Rightarrow> BackendCircuitBreaker \<Rightarrow> BackendCircuitBreaker \<Rightarrow> bool" where
  "reported n es b b' \<longleftrightarrow> (case last_report n es of None \<Rightarrow> cb_state b' = cb_state b | Some s \<Rightarrow> s = circuit_value (cb_state b'))"

lemma reported_append: "reported n xs b b1 \<Longrightarrow> reported n ys b1 b2 \<Longrightarrow> reported n (xs @ ys) b b2"
  by (auto simp: reported_def split: option.splits)

definition evolves :: "breaker_history \<Rightarrow> 'w world \<Rightarrow> 'w world \<Rightarrow> bool" where
  "evolves hs w w' \<longleftrightarrow> (\<exists>es. trace w' = trace w @ es \<and> call_outcomes (calls_of es) = outcomes hs \<and>
     sorted (clock w # times hs @ [clock w']) \<and>
     (\<forall>n. breakers w' n = map_option (breaker_run (of_backend n hs)) (breakers w n)) \<and>
     (\<forall>n b. breakers w n = Some b \<longrightarrow> reported n es b (breaker_run (of_backend n hs) b)))"

text \<open>Every breaker is stored under the name of its backend.\<close>

definition named :: "'w world \<Rightarrow> bool" where
  "named w \<longleftrightarrow> (\<forall>n b. breakers w n = Some b \<longrightarrow> cb_backend_name b = n)"

lemma evolves_named: "evolves hs w w' \<Longrightarrow> named w \<Longrightarrow> named w'"
  by (auto simp: evolves_def named_def)

lemma sorted_join: "sorted (a # xs @ [b]) \<Longrightarrow> sorted (b # ys @ [c]) \<Longrightarrow> sorted (a # (xs @ ys) @ [c :: int])"
  by (fastforce simp: sorted_append)

lemma evolves_append:
  assumes "evolves hs w w'" and "evolves gs w' w''"
  shows "evolves (hs @ gs) w w''"
proof -
  obtain es where e: "trace w' = trace w @ es" "call_outcomes (calls_of es) = outcomes hs" "sorted (clock w # times hs @ [clock w'])"
    "\<forall>n. breakers w' n = map_option (breaker_run (of_backend n hs)) (breakers w n)"
    "\<forall>n b. breakers w n = Some b \<longrightarrow> reported n es b (breaker_run (of_backend n hs) b)"
    using assms(1) by (auto simp: evolves_def)
  obtain fs where f: "trace w'' = trace w' @ fs" "call_outcomes (calls_of fs) = outcomes gs" "sorted (clock w' # times gs @ [clock w''])"
    "\<forall>n. breakers w'' n = map_option (breaker_run (of_backend n gs)) (breakers w' n)"
    "\<forall>n b. breakers w' n = Some b \<longrightarrow> reported n fs b (breaker_run (of_backend n gs) b)"
    using assms(2) by (auto simp: evolves_def)
  have "\<forall>n. breakers w'' n = map_option (breaker_run (of_backend n (hs @ gs))) (breakers w n)"
    using e(4) f(4) by (simp add: map_option_breaker_run)
  moreover have "\<forall>n b. breakers w n = Some b \<longrightarrow> reported n (es @ fs) b (breaker_run (of_backend n (hs @ gs)) b)"
    using e(4,5) f(5) by (fastforce simp: breaker_run_append intro: reported_append)
  ultimately show ?thesis
    unfolding evolves_def using e(1,2) f(1,2) sorted_join [OF e(3) f(3)] by (intro exI [of _ "es @ fs"]) simp
qed

definition evolving :: "'w world \<Rightarrow> 'w world \<Rightarrow> bool" where
  "evolving w w' \<longleftrightarrow> (named w \<longrightarrow> named w' \<and> (\<exists>hs. evolves hs w w'))"

lemma evolving_trans: "evolving w w' \<Longrightarrow> evolving w' w'' \<Longrightarrow> evolving w w''"
  unfolding evolving_def using evolves_append by blast

text \<open>Events that are no calls and no reports of a breaker's state; time may pass.\<close>

definition quiet :: "event list \<Rightarrow> bool" where
  "quiet es \<longleftrightarrow> calls_of es = [] \<and> (\<forall>n. last_report n es = None)"

lemma evolving_quiet:
  assumes "trace w' = trace w @ es" and "quiet es" and "breakers w' = breakers w" and "clock w \<le> clock w'"
  shows "evolving w w'"
proof -
  have "evolves [] w w'"
    unfolding evolves_def using assms by (intro exI [of _ es]) (simp add: quiet_def reported_def breaker_run_def)
  moreover have "named w \<longrightarrow> named w'" using assms(3) by (simp add: named_def)
  ultimately show ?thesis unfolding evolving_def by blast
qed

lemma evolving_refl [simp, intro]: "evolving w w"
  by (rule evolving_quiet [of _ _ "[]"]) (simp_all add: quiet_def)

lemma evolving_emit: "quiet es \<Longrightarrow> evolving w (emit es w)"
  by (rule evolving_quiet [of _ _ es]) simp_all

lemma evolving_frame:
  "trace w' = trace w \<Longrightarrow> breakers w' = breakers w \<Longrightarrow> clock w \<le> clock w' \<Longrightarrow> evolving w w'"
  by (rule evolving_quiet [of _ _ "[]"]) (simp_all add: quiet_def)

text \<open>One call of a method of the breaker of \<open>n\<close>, with the events around it.\<close>

lemma evolving_step:
  assumes "trace w' = trace w @ es @ map Metric ms" and "call_outcomes (calls_of es) = outcomes [(n, clock w, k)]"
    and "\<forall>m. last_report m es = None" and "calls_of (map Metric ms) = []" and "clock w' = clock w"
    and "case breakers w n of None \<Rightarrow> breakers w' = breakers w \<and> ms = []
         | Some b \<Rightarrow> breakers w' = (breakers w)(n \<mapsto> breaker_step (clock w, k) b) \<and>
             (ms = record_state (breaker_step (clock w, k) b) \<or> ms = [] \<and> cb_state (breaker_step (clock w, k) b) = cb_state b)"
  shows "evolving w w'"
  unfolding evolving_def
proof
  assume w: "named w"
  have br: "breakers w' m = map_option (breaker_run (of_backend m [(n, clock w, k)])) (breakers w m)" for m
    using assms(6) by (auto simp: breaker_run_def [of "[_]"] split: option.splits)
  have "reported m (es @ map Metric ms) b (breaker_run (of_backend m [(n, clock w, k)]) b)" if b: "breakers w m = Some b" for m b
  proof (cases "m = n")
    case True
    then show ?thesis using assms(3,6) b w by (auto simp: reported_def breaker_run_def named_def)
  next
    case False
    then have "last_report m (map Metric ms) = None"
      using assms(6) w by (auto simp: named_def split: option.splits)
    then show ?thesis using False assms(3) by (simp add: reported_def breaker_run_def)
  qed
  with br have "evolves [(n, clock w, k)] w w'"
    unfolding evolves_def using assms(1,2,4,5) by (intro exI [of _ "es @ map Metric ms"]) simp
  with evolves_named [OF this w] show "named w' \<and> (\<exists>hs. evolves hs w w')" by blast
qed

section \<open>Calls and queries\<close>

lemma record_failure_report:
  "record_failure now b = (b', ms) \<Longrightarrow> ms = record_state b' \<or> ms = [] \<and> cb_state b' = cb_state b"
  by (auto simp: record_failure_def open_breaker_def Let_def split: if_splits)

lemma allow_request_report:
  "allow_request now b = (ok, b', ms) \<Longrightarrow> ms = record_state b' \<or> ms = [] \<and> cb_state b' = cb_state b"
  by (auto simp: allow_request_def get_state_def Let_def split: if_splits)

lemma after_call_evolving: "evolving w (after_call n op ps b dur res w)"
proof (cases res)
  case (Inl e)
  show ?thesis
  proof (cases "breakers w n")
    case None
    then show ?thesis using Inl
      by (intro evolving_step [where n = n and k = Failure and ms = "[]" and
            es = "[BackendCall n op ps b res, Metric (record_backend_request n (op_value op) ''error'' dur), Metric (record_backend_status n False)]"])
        (simp_all add: after_call_def breaker_failure_def)
  next
    case (Some cb)
    obtain cb' ms where r: "record_failure (clock w) cb = (cb', ms)" by (rule prod.exhaust)
    then show ?thesis using Inl Some record_failure_report [OF r]
      by (intro evolving_step [where n = n and k = Failure and ms = ms and
            es = "[BackendCall n op ps b res, Metric (record_backend_request n (op_value op) ''error'' dur), Metric (record_backend_status n False)]"])
        (simp_all add: after_call_def breaker_failure_def)
  qed
next
  case (Inr x)
  show ?thesis
  proof (cases "breakers w n")
    case None
    then show ?thesis using Inr
      by (intro evolving_step [where n = n and k = Success and ms = "[]" and
            es = "[BackendCall n op ps b res, Metric (record_backend_request n (op_value op) ''success'' dur), Metric (record_backend_status n True)]"])
        (simp_all add: after_call_def breaker_success_def)
  next
    case (Some cb)
    obtain cb' ms where r: "record_success cb = (cb', ms)" by (rule prod.exhaust)
    then have "ms = record_state cb'" by (auto simp: record_success_def Let_def)
    then show ?thesis using Inr Some r
      by (intro evolving_step [where n = n and k = Success and ms = ms and
            es = "[BackendCall n op ps b res, Metric (record_backend_request n (op_value op) ''success'' dur), Metric (record_backend_status n True)]"])
        (simp_all add: after_call_def breaker_success_def)
  qed
qed

lemma draw_uuid_evolving: "draw_uuid E w = (u, w') \<Longrightarrow> evolving w w'"
  by (auto simp: draw_uuid_def intro: evolving_frame)

lemma execute_evolving:
  assumes "execute E c op ps b w = (r, b', w')"
  shows "evolving w w'"
proof (cases "bc_type c")
  case BT_S3
  obtain r1 b1 d x where k: "s3_call E (bc_name c) op ps b (ext w) = (r1, b1, d, x)" by (metis prod_cases4)
  let ?v = "w\<lparr>ext := x, clock := clock w + int d\<rparr>"
  have "w' = w \<or> w' = after_call (bc_name c) op ps b d r ?v"
    using assms BT_S3 k by (auto simp: execute_def s3_execute_def Let_def split: if_splits)
  then show ?thesis using evolving_trans [OF evolving_frame [of ?v w] after_call_evolving] by auto
next
  case BT_MEMORY
  obtain u v where u: "(if op = PUT_OBJECT then draw_uuid E w else ([], w)) = (u, v)" by (rule prod.exhaust)
  then have v: "evolving w v" using draw_uuid_evolving by (auto split: if_splits)
  obtain st where "w' = after_call (bc_name c) op ps b 0 r (v\<lparr>mem_store := st\<rparr>)"
    using assms BT_MEMORY u by (auto simp: execute_def memory_execute_def Let_def split: prod.splits)
  then show ?thesis
    using evolving_trans [OF v evolving_trans [OF evolving_frame [of "v\<lparr>mem_store := st\<rparr>" v] after_call_evolving]] by simp
qed

lemma filter_available_evolving: "filter_available cs w = (r, w') \<Longrightarrow> evolving w w'"
proof (induction cs arbitrary: w r)
  case (Cons c cs)
  show ?case
  proof (cases "breakers w (bc_name c)")
    case None
    then show ?thesis using Cons by (auto split: prod.splits)
  next
    case (Some b)
    obtain ok b' ms where a: "allow_request (clock w) b = (ok, b', ms)" by (metis prod_cases3)
    let ?w = "emit (map Metric ms) (w\<lparr>breakers := (breakers w)(bc_name c \<mapsto> b')\<rparr>)"
    have "evolving w ?w"
      by (rule evolving_step [where n = "bc_name c" and k = Query and ms = ms and es = "[]"])
        (use Some a allow_request_report [OF a] in simp_all)
    moreover obtain r' where "filter_available cs ?w = (r', w')" using Cons.prems Some a by (auto split: prod.splits)
    ultimately show ?thesis using Cons.IH evolving_trans by blast
  qed
qed simp

lemma probe_evolving: "evolving w (probe E c w)"
proof -
  obtain r b v where e: "execute E c LIST_BUCKETS [] BodyAbsent w = (r, b, v)" by (metis prod_cases3)
  have "evolving v (probe E c w)" using e by (intro evolving_frame) (auto simp: probe_def Let_def split: sum.split)
  then show ?thesis using evolving_trans [OF execute_evolving [OF e]] by blast
qed

lemma prober_step_evolving:
  assumes "prober_step E cs p w = (p', w')"
  shows "evolving w w'"
proof -
  have q: "evolving w (emit [Slept d] w)" for w :: "'a world" and d by (rule evolving_emit) (simp add: quiet_def)
  have n: "evolving w (snd (next_client d cs i w))" for w :: "'a world" and d i by (simp add: next_client_def q)
  have "evolving w (snd (loop_step E (probe_interval p) cs t w))" for t
    using q n evolving_trans [OF probe_evolving n] by (cases t) simp_all
  then show ?thesis using assms by (auto simp: prober_step_def split: option.splits prod.splits) (metis snd_conv)
qed

section \<open>Replication\<close>

lemma publish_evolving: "publish E tp m t w = (r, w') \<Longrightarrow> evolving w w'"
  by (rule evolving_quiet [of _ _ "effects w w'"]) (auto simp: publish_def quiet_def effects_def Let_def split: prod.splits)

lemma new_message_evolving: "new_message E op b k src ts md w = (m, w') \<Longrightarrow> evolving w w'"
  using draw_uuid_evolving by (auto simp: new_message_def split: prod.splits)

lemma batch_loop_evolving: "batch_loop E topic op ps src ts md keys w = (r, w') \<Longrightarrow> evolving w w'"
proof (induction keys arbitrary: w)
  case (Cons k keys)
  show ?case
  proof (cases "bucket_param ps")
    case (Inr bk)
    obtain m w1 where m: "new_message E op bk k src ts md w = (m, w1)" by (rule prod.exhaust)
    let ?w = "emit (map (\<lambda>t. Metric (record_replication_task op t)) ts) w1"
    obtain e w2 where p: "publish E topic m None ?w = (e, w2)" by (rule prod.exhaust)
    have "evolving w1 ?w" by (rule evolving_emit) (simp add: quiet_def)
    then have g: "evolving w w2"
      using evolving_trans [OF new_message_evolving [OF m]] publish_evolving [OF p] evolving_trans by blast
    then show ?thesis using Cons Inr m p evolving_trans [OF g] by (cases e) auto
  qed (use Cons.prems in auto)
qed simp

lemma per_target_loop_evolving: "per_target_loop E topic op ps src md k ts w = (r, w') \<Longrightarrow> evolving w w'"
proof (induction ts arbitrary: w)
  case (Cons t ts)
  show ?case
  proof (cases "bucket_param ps")
    case (Inr bk)
    obtain m w1 where m: "new_message E op bk k src [t] md w = (m, w1)" by (rule prod.exhaust)
    let ?w = "emit_metric (record_replication_task op t) w1"
    obtain e w2 where p: "publish E topic m (Some (topic @ ''.'' @ t)) ?w = (e, w2)" by (rule prod.exhaust)
    have "evolving w1 ?w" by (rule evolving_emit) (simp add: quiet_def)
    then have g: "evolving w w2"
      using evolving_trans [OF new_message_evolving [OF m]] publish_evolving [OF p] evolving_trans by blast
    then show ?thesis using Cons Inr m p evolving_trans [OF g] by (cases e) auto
  qed (use Cons.prems in auto)
qed simp

lemma per_key_loop_evolving: "per_key_loop E topic op ps src ts md keys w = (r, w') \<Longrightarrow> evolving w w'"
proof (induction keys arbitrary: w)
  case (Cons k keys)
  obtain e w1 where p: "per_target_loop E topic op ps src md k ts w = (e, w1)" by (rule prod.exhaust)
  then show ?case using Cons evolving_trans [OF per_target_loop_evolving [OF p]] per_target_loop_evolving by (cases e) auto
qed simp

lemma schedule_evolving:
  assumes "schedule_replication E mode topic op ps resp src ts w = (r, w')"
  shows "evolving w w'"
proof -
  have q: "evolving w (emit_metric (record_replication_fanout a n) w)" for a n by (rule evolving_emit) (simp add: quiet_def)
  show ?thesis
    using assms evolving_trans [OF q batch_loop_evolving] evolving_trans [OF q per_key_loop_evolving]
    by (auto simp: schedule_replication_def batch_schedule_def per_backend_schedule_def split: if_splits sum.splits)
qed

section \<open>The strategies\<close>

lemma read_loop_evolving: "read_loop E op ps cs le w = (r, w') \<Longrightarrow> evolving w w'"
proof (induction cs arbitrary: le w)
  case (Cons c cs)
  obtain x b v where e: "execute E c op ps BodyAbsent w = (x, b, v)" by (metis prod_cases3)
  then show ?case using Cons evolving_trans [OF execute_evolving [OF e]] execute_evolving [OF e] by (cases x) auto
qed simp

lemma candidates_evolving:
  "get_write_candidates pool w = (r, w') \<Longrightarrow> evolving w w'" "all_by_latency pool w = (r', w') \<Longrightarrow> evolving w w'"
  using filter_available_evolving
  by (auto simp: get_write_candidates_def all_by_latency_def Let_def simp del: filter_available.simps split: sum.splits prod.splits)

lemma read_run_evolving:
  assumes "read_run E pool op ps w = (r, w')"
  shows "evolving w w'"
proof -
  obtain x v where c: "all_by_latency pool w = (x, v)" by (rule prod.exhaust)
  then show ?thesis
    using assms candidates_evolving(2) [OF c] evolving_trans [OF candidates_evolving(2) [OF c] read_loop_evolving]
    by (cases x) (auto simp: read_run_def read_execute_def)
qed

lemma write_loop_evolving: "write_loop E op ps str i cs b le w = (r, b', w') \<Longrightarrow> evolving w w'"
proof (induction cs arbitrary: i b le w)
  case (Cons c cs)
  obtain x b1 v where e: "execute E c op ps (if i > 0 \<and> str then rewind_body b else b) w = (x, b1, v)" by (metis prod_cases3)
  then show ?case using Cons evolving_trans [OF execute_evolving [OF e]] execute_evolving [OF e]
    by (cases x) (auto split: if_splits)
qed simp

lemma primary_run_evolving:
  assumes "primary_run E mode topic cfg pool op ps b rp w = (r, w')"
  shows "evolving w w'"
proof -
  obtain x v where c: "get_write_candidates pool w = (x, v)" by (rule prod.exhaust)
  note g = candidates_evolving(1) [OF c]
  obtain b0 str where b0: "wrap_body cfg b = (b0, str)" by (rule prod.exhaust)
  show ?thesis
  proof (cases x)
    case (Inl e)
    then show ?thesis using assms c g by (simp add: primary_run_def write_execute_def)
  next
    case (Inr cs)
    obtain l b1 v1 where l: "write_loop E op ps str 0 cs b0 None v = (l, b1, v1)" by (metis prod_cases3)
    note g1 = evolving_trans [OF g write_loop_evolving [OF l]]
    show ?thesis
    proof (cases l)
      case (Succeeded c0 resp)
      then show ?thesis
        using assms c Inr b0 l g1 evolving_trans [OF g1 schedule_evolving]
        by (auto simp: primary_run_def write_execute_def Let_def split: if_splits prod.splits option.splits)
    next
      case (Exhausted le)
      then show ?thesis using assms c Inr b0 l g1 by (cases le) (simp_all add: primary_run_def write_execute_def)
    qed (use assms c Inr b0 l g1 in \<open>simp add: primary_run_def write_execute_def\<close>)
  qed
qed

lemma run_tasks_evolving: "run_tasks E op ts is w = (r, w') \<Longrightarrow> evolving w w'"
proof (induction "is" arbitrary: w r w')
  case (Cons i "is")
  obtain c ps b where t: "ts ! i = (c, ps, b)" by (metis prod_cases3)
  obtain x b1 v where e: "execute E c op ps b w = (x, b1, v)" by (metis prod_cases3)
  obtain rs v1 where rs: "run_tasks E op ts is v = (rs, v1)" by (rule prod.exhaust)
  from evolving_trans [OF execute_evolving [OF e] Cons.IH [OF rs]] Cons.prems t e rs show ?case by simp
qed simp

lemma run_concurrent_evolving: "run_concurrent E sched cfg prep op pool b w = (r, w') \<Longrightarrow> evolving w w'"
  using run_tasks_evolving
  by (auto simp: run_concurrent_def execute_concurrent_def Let_def split: sum.splits list.splits if_splits prod.splits)

lemma async_fill_evolving: "schedule_async_fill E mode topic cfg op pool ps resp succ w = (r, w') \<Longrightarrow> evolving w w'"
  using schedule_evolving by (auto simp: schedule_async_fill_def Let_def split: if_splits sum.splits)

lemma simple_run_evolving: "simple_run E sched cfg pool op ps b rp w = (r, w') \<Longrightarrow> evolving w w'"
  using run_concurrent_evolving
  by (auto simp: simple_run_def simple_execute_def split: option.splits sum.splits prod.splits)

lemma quorum_run_evolving:
  assumes "quorum_run E sched mode topic cfg pool op ps b rp w = (r, w')"
  shows "evolving w w'"
proof (cases "reject_multipart op")
  case None
  obtain x v where c: "run_concurrent E sched cfg (\<lambda>_. Inr ps) op pool b w = (x, v)" by (rule prod.exhaust)
  note g = run_concurrent_evolving [OF c]
  show ?thesis using assms c None g evolving_trans [OF g async_fill_evolving]
    by (auto simp: quorum_run_def quorum_execute_def split: sum.splits if_splits prod.splits option.splits)
qed (use assms in \<open>simp add: quorum_run_def quorum_execute_def\<close>)

lemma create_multipart_evolving:
  assumes "handle_create_multipart S E sched mode topic cfg pool ps b rp s w = (r, s', w')"
  shows "evolving w w'"
proof -
  obtain u v where u: "draw_uuid E w = (u, v)" by (rule prod.exhaust)
  have on_backends: "evolving v v'"
    if "create_on_backends S E sched mode topic cfg pool ps b rp u s1 v = (x, s2, v')" for s1 x s2 v'
  proof -
    obtain y v1 where c: "run_concurrent E sched cfg (prepare_backend_params CREATE_MULTIPART_UPLOAD (AList.delete ''UploadId'' ps) None)
        CREATE_MULTIPART_UPLOAD pool b v = (y, v1)" by (rule prod.exhaust)
    note g = run_concurrent_evolving [OF c]
    show ?thesis using that c g evolving_trans [OF g async_fill_evolving]
      by (auto simp: create_on_backends_def Let_def split: sum.splits if_splits prod.splits option.splits)
  qed
  show ?thesis
    using assms u draw_uuid_evolving [OF u] evolving_trans [OF draw_uuid_evolving [OF u] on_backends]
    by (auto simp: handle_create_multipart_def split: sum.splits prod.splits option.splits)
qed

lemma distributed_evolving:
  assumes "distributed_execute S E sched mode topic cfg op pool ps b rp s w = (r, s', w')"
  shows "evolving w w'"
proof -
  have part: "evolving w v" if "strategy_handle_upload_part S E sched cfg pool ps b s w = (x, t, v)" for x t v
    using that run_concurrent_evolving
    by (auto simp: strategy_handle_upload_part_def Let_def split: sum.splits if_splits prod.splits option.splits)
  have complete: "evolving w v" if h: "handle_complete_or_abort S E sched mode topic cfg op pool ps b rp s w = (x, t, v)" for x t v
  proof (cases "load_session S (str_param ps ''UploadId'') s")
    case (Inr m)
    obtain y v1 where c: "run_concurrent E sched cfg (prepare_backend_params op ps (Some m)) op pool b w = (y, v1)" by (rule prod.exhaust)
    note g = run_concurrent_evolving [OF c]
    show ?thesis using h Inr c g evolving_trans [OF g async_fill_evolving]
      by (auto simp: handle_complete_or_abort_def Let_def split: sum.splits if_splits prod.splits option.splits)
  qed (use h in \<open>simp add: handle_complete_or_abort_def\<close>)
  obtain y v1 where c: "run_concurrent E sched cfg (prepare_backend_params op ps None) op pool b w = (y, v1)" by (rule prod.exhaust)
  note g = run_concurrent_evolving [OF c]
  show ?thesis
    using assms create_multipart_evolving part complete c g evolving_trans [OF g async_fill_evolving]
    by (auto simp: distributed_execute_def split: sum.splits if_splits prod.splits option.splits)
qed

end
