(* ===== verification/State_Relation.thy ===== *)
theory State_Relation
  imports Http_Front
begin

text \<open>
  What a request can do to the state of the proxy.  Handlers, dispatcher and HTTP handler reach that state only
  through the strategies, the drawing of ids, and nothing else: any reflexive and transitive relation that
  these operations keep holds between the states before and after a request.  The locale \<open>state_relation\<close> is that
  contract.
\<close>

definition keeps :: "('s \<Rightarrow> 's \<Rightarrow> bool) \<Rightarrow> ('s \<Rightarrow> 'r \<times> 's) \<Rightarrow> bool" where
  "keeps Q f \<longleftrightarrow> (\<forall>s. Q s (snd (f s)))"

definition context_keeps :: "('s \<Rightarrow> 's \<Rightarrow> bool) \<Rightarrow> 's HandlerContext \<Rightarrow> bool" where
  "context_keeps Q ctx \<longleftrightarrow> (\<forall>op ps. keeps Q (ctx_read ctx op ps)) \<and> (\<forall>op ps b rp. keeps Q (ctx_write ctx op ps b rp)) \<and> keeps Q (ctx_fresh_id ctx)"

definition dispatcher_keeps :: "('s \<Rightarrow> 's \<Rightarrow> bool) \<Rightarrow> 's RequestDispatcher \<Rightarrow> bool" where
  "dispatcher_keeps Q d \<longleftrightarrow> (\<forall>op ps. keeps Q (read_strategy d op ps)) \<and> (\<forall>op ps b rp. keeps Q (write_strategy d op ps b rp)) \<and> keeps Q (lib_fresh_id d)"

lemma proxy_sending [simp]:
  "proxy (log_metric m h) = proxy h" "proxy (wrapped_send rid e h) = proxy h" "proxy (count_bytes cb c h) = proxy h"
  by (cases e; simp add: log_metric_def count_bytes_def split: option.split)+

lemma proxy_send_plain [simp]: "proxy (send_plain rid cb r h) = proxy h"
  by (simp add: send_plain_def Let_def)

lemma proxy_send_chunks [simp]: "proxy (send_chunks rid cb cs h) = proxy h"
  by (induction cs arbitrary: h) simp_all

lemma proxy_internal [simp]: "proxy (handle_internal_routes H sc rid h) = proxy h"
  by (simp add: handle_internal_routes_def metrics_handler_def health_handler_def)

lemma proxy_send_response [simp]: "proxy (snd (send_response rd cs rid cb resp h)) = proxy h"
  by (cases resp) (simp_all add: send_streamed_def Let_def split: option.split)

locale state_relation =
  fixes Q :: "'s \<Rightarrow> 's \<Rightarrow> bool"
  assumes refl: "Q s s"
    and trans: "Q s t \<Longrightarrow> Q t u \<Longrightarrow> Q s u"
begin

lemma keepsD: "keeps Q f \<Longrightarrow> f s = (r, t) \<Longrightarrow> Q s t"
  unfolding keeps_def by (metis snd_conv)

lemma fail_with_keeps:
  assumes "context_keeps Q ctx"
  shows "Q s (snd (fail_with ctx res e s))"
  using assms keepsD [of "ctx_fresh_id ctx" s] by (auto simp: context_keeps_def fail_with_def Let_def split: prod.split)

lemma finish_with_keeps:
  assumes "context_keeps Q ctx" and "Q s t"
  shows "Q s (snd (finish_with ctx res fin (r, t)))"
  using assms trans [OF assms(2) fail_with_keeps [OF assms(1)]]
  by (auto simp: finish_with_def split: sum.splits)

lemma on_read_keeps:
  assumes "context_keeps Q ctx"
  shows "Q s (snd (on_read ctx res op ps fin s))"
proof -
  obtain r t where r: "ctx_read ctx op ps s = (r, t)" by (rule prod.exhaust)
  moreover have "Q s t" using assms keepsD [where f = "ctx_read ctx op ps", OF _ r] by (simp add: context_keeps_def)
  ultimately show ?thesis using finish_with_keeps [OF assms] by (simp add: on_read_def)
qed

lemma on_write_keeps:
  assumes "context_keeps Q ctx"
  shows "Q s (snd (on_write ctx res op rp b ps fin s))"
proof (cases ps)
  case (Inr x)
  obtain r t where r: "ctx_write ctx op x b rp s = (r, t)" by (rule prod.exhaust)
  moreover have "Q s t" using assms keepsD [where f = "ctx_write ctx op x b rp", OF _ r] by (simp add: context_keeps_def)
  ultimately show ?thesis using finish_with_keeps [OF assms] Inr by (simp add: on_write_def)
qed (simp add: on_write_def fail_with_keeps [OF assms])

lemmas handler_keeps = on_read_keeps on_write_keeps

lemma object_handlers_keep:
  assumes "context_keeps Q ctx"
  shows "Q s (snd (handle_put_object ctx s))" "Q s (snd (handle_get_object ctx s))" "Q s (snd (handle_delete_object ctx s))"
    "Q s (snd (handle_head_object ctx s))" "Q s (snd (handle_create_multipart_upload ctx s))" "Q s (snd (handle_upload_part ctx s))"
    "Q s (snd (handle_complete_multipart_upload ctx s))" "Q s (snd (handle_abort_multipart_upload ctx s))" "Q s (snd (handle_copy_object ctx s))"
    "Q s (snd (handle_put_object_tagging ctx s))" "Q s (snd (handle_get_object_tagging ctx s))" "Q s (snd (handle_delete_object_tagging ctx s))"
  unfolding handle_put_object_def handle_get_object_def handle_delete_object_def handle_head_object_def handle_create_multipart_upload_def
    handle_upload_part_def handle_complete_multipart_upload_def handle_abort_multipart_upload_def handle_copy_object_def
    handle_put_object_tagging_def handle_get_object_tagging_def handle_delete_object_tagging_def Let_def
  by (rule handler_keeps [OF assms])+

lemma bucket_handlers_keep:
  assumes "context_keeps Q ctx"
  shows "Q s (snd (handle_create_bucket ctx s))" "Q s (snd (handle_delete_bucket ctx s))" "Q s (snd (handle_head_bucket ctx s))"
    "Q s (snd (handle_list_buckets ctx s))" "Q s (snd (handle_list_objects_v2 ctx s))" "Q s (snd (handle_list_objects ctx s))"
    "Q s (snd (handle_get_bucket_lifecycle ctx s))" "Q s (snd (handle_put_bucket_lifecycle ctx s))" "Q s (snd (handle_delete_bucket_lifecycle ctx s))"
    "Q s (snd (handle_get_bucket_policy ctx s))" "Q s (snd (handle_put_bucket_policy ctx s))" "Q s (snd (handle_delete_bucket_policy ctx s))"
  unfolding handle_create_bucket_def handle_delete_bucket_def handle_head_bucket_def handle_list_buckets_def handle_list_objects_v2_def
    handle_list_objects_def handle_get_bucket_lifecycle_def handle_put_bucket_lifecycle_def handle_delete_bucket_lifecycle_def
    handle_get_bucket_policy_def handle_put_bucket_policy_def handle_delete_bucket_policy_def Let_def
  by (rule handler_keeps [OF assms])+

lemma delete_objects_keeps: "context_keeps Q ctx \<Longrightarrow> Q s (snd (handle_delete_objects ctx s))"
  using handler_keeps fail_with_keeps refl by (auto simp: handle_delete_objects_def split: sum.split)

lemma registered_handler_keeps:
  assumes "registry_get handler_registry op = Some md" and "context_keeps Q ctx"
  shows "Q s (snd (md_func md ctx s))"
  using assms(1) object_handlers_keep [OF assms(2)] bucket_handlers_keep [OF assms(2)] delete_objects_keeps [OF assms(2)]
  by (cases op) (auto simp: registry_get_def handler_registry_def register_object_handlers_def register_bucket_handlers_def register_def)

lemma call_handler_keeps:
  assumes "registry_get handler_registry op = Some md" and "context_keeps Q ctx" and "call_handler md ctx h = (r, h')"
  shows "Q (proxy h) (proxy h')"
  using registered_handler_keeps [OF assms(1,2), of "proxy h"] assms(3) by (auto simp: call_handler_def split: prod.splits)

lemma own_error_keeps: "dispatcher_keeps Q d \<Longrightarrow> own_error d ec msg res h = (r, h') \<Longrightarrow> Q (proxy h) (proxy h')"
  using keepsD [where f = "lib_fresh_id d" and s = "proxy h"] by (auto simp: own_error_def dispatcher_keeps_def split: prod.splits)

lemma make_context_keeps: "dispatcher_keeps Q d \<Longrightarrow> context_keeps Q (make_context d req headers qs b n)"
  by (simp add: dispatcher_keeps_def context_keeps_def make_context_def)

lemma dispatch_request_keeps:
  assumes "dispatcher_keeps Q d" and "dispatch_request d req headers qs h = Some (r, h')"
  shows "Q (proxy h) (proxy h')"
proof (cases "registry_get handler_registry (req_operation req) :: 's HandlerMetadata option")
  case None
  then show ?thesis using assms(2) own_error_keeps [OF assms(1)] by (auto simp: dispatch_request_def split: prod.splits)
next
  case (Some md)
  note run = call_handler_keeps [OF Some make_context_keeps [OF assms(1)]]
  show ?thesis
  proof (cases "md_is_object_op md \<and> req_key req = None")
    case True
    then show ?thesis using assms(2) Some own_error_keeps [OF assms(1)] by (auto simp: dispatch_request_def split: prod.splits)
  next
    case False
    show ?thesis
    proof (cases "md_body_style md")
      case STREAM
      then show ?thesis using assms(2) Some False run [where h = h] refl
        by (auto simp: dispatch_request_def split: option.splits sum.splits)
    next
      case BUFFERED
      then obtain body q ms where b: "read_body (op_value (req_operation req)) (incoming h) [] = Some (body, q, ms)"
        using assms(2) Some False by (auto simp: dispatch_request_def split: option.splits)
      then show ?thesis using assms(2) Some False BUFFERED run [where h = "h\<lparr>incoming := q, front_metrics := front_metrics h @ ms\<rparr>"]
        by (simp add: dispatch_request_def)
    next
      case EMPTY
      then show ?thesis using assms(2) Some False run [where h = h] by (simp add: dispatch_request_def)
    qed
  qed
qed

lemma run_dispatcher_keeps:
  assumes "\<forall>d. dispatcher H = Some d \<longrightarrow> dispatcher_keeps Q d" and "run_dispatcher H req headers qs rid path h = Some (r, h')"
  shows "Q (proxy h) (proxy h')"
  using assms dispatch_request_keeps refl by (auto simp: run_dispatcher_def split: option.splits sum.splits)

lemma http_call_keeps:
  assumes "\<forall>d. dispatcher H = Some d \<longrightarrow> dispatcher_keeps Q d" and "keeps Q (lib_uuid H)" and "http_call H sc h = Some (exc, h')"
  shows "Q (proxy h) (proxy h')"
proof -
  have s3: "Q (proxy g) (proxy g')" if "handle_s3_request H sc headers rid g = Some (exc, g')" for headers rid g g'
    using that run_dispatcher_keeps [OF assms(1)] refl
    by (auto simp: handle_s3_request_def finish_request_def Let_def split: sum.splits option.splits)
  have route: "Q (proxy g) (proxy h')"
    if "(if take 11 (sc_path sc) = ''/.internal/'' then Some (None, handle_internal_routes H sc rid g) else handle_s3_request H sc (request_headers sc) rid g) = Some (exc, h')" for rid g
    using that s3 refl by (auto split: if_splits)
  obtain u t where u: "lib_uuid H (proxy h) = (u, t)" by (rule prod.exhaust)
  have t: "Q (proxy h) t" using keepsD [OF assms(2) u] .
  have "\<exists>rid g. Q (proxy h) (proxy g) \<and> http_call H sc h =
      (if take 11 (sc_path sc) = ''/.internal/'' then Some (None, handle_internal_routes H sc rid g) else handle_s3_request H sc (request_headers sc) rid g)"
  proof (cases "\<exists>c cs. map_of (request_headers sc) REQUEST_ID = Some (c # cs)")
    case True
    then show ?thesis using refl by (force simp: http_call_def)
  next
    case False
    then have "map_of (request_headers sc) REQUEST_ID \<in> {None, Some []}"
      by (cases "map_of (request_headers sc) REQUEST_ID"; cases "the (map_of (request_headers sc) REQUEST_ID)") auto
    then show ?thesis using u t by (intro exI [of _ u] exI [of _ "h\<lparr>proxy := t\<rparr>"]) (auto simp: http_call_def)
  qed
  then obtain rid g where g: "Q (proxy h) (proxy g)" "http_call H sc h =
      (if take 11 (sc_path sc) = ''/.internal/'' then Some (None, handle_internal_routes H sc rid g) else handle_s3_request H sc (request_headers sc) rid g)"
    by blast
  moreover have "Q (proxy g) (proxy h')" using assms(3) g(2) by (intro route [of rid g]) simp
  ultimately show ?thesis using trans by blast
qed

end

end
