(* ===== verification/Prometheus.thy ===== *)
theory Prometheus
  imports Circuit_Breaker Decimal "HOL-Library.Extended_Nat"
begin

text \<open>
  The two implementations of \<open>MetricsTracker\<close> in \<open>src/s3mer/common/metrics.py\<close>: \<open>PrometheusMetricsTracker\<close>, as the
  calls that each method makes on the Prometheus client library, and \<open>NullMetricsTracker\<close>.

  The library is a record of operations on its registry; the locale \<open>prometheus_client\<close> states what its
  documentation says of gauges and counters: the value of a series is what was last set, plus what was added.
  Label values are texts (the library applies \<open>str\<close>).  Bucket bounds are hundredths.
\<close>

section \<open>The declared metrics\<close>

datatype metric_kind = Counter | Gauge | Histogram "enat list"

record metric_decl =
  metric_name :: string
  label_names :: "string list"
  metric_kind :: metric_kind

abbreviation decl :: "string \<Rightarrow> string list \<Rightarrow> metric_kind \<Rightarrow> metric_decl" where
  "decl n ls k \<equiv> \<lparr>metric_name = n, label_names = ls, metric_kind = k\<rparr>"

definition HTTP_REQUESTS_TOTAL :: metric_decl where
  "HTTP_REQUESTS_TOTAL = decl ''s3mer_http_requests_total'' [''method'', ''operation'', ''status''] Counter"

definition HTTP_REQUEST_DURATION_SECONDS :: metric_decl where
  "HTTP_REQUEST_DURATION_SECONDS = decl ''s3mer_http_request_duration_seconds'' [''method'', ''operation'']
     (Histogram [1, 5, 10, 25, 50, 100, 250, 500, 1000, \<infinity>])"

definition DATA_TRANSFER_BYTES_TOTAL :: metric_decl where
  "DATA_TRANSFER_BYTES_TOTAL = decl ''s3mer_data_transfer_bytes_total'' [''direction'', ''operation''] Counter"

definition REPLICATION_TASKS_TOTAL :: metric_decl where
  "REPLICATION_TASKS_TOTAL = decl ''s3mer_replication_tasks_total'' [''operation'', ''target_backend''] Counter"

definition REPLICATION_FANOUT_FACTOR :: metric_decl where
  "REPLICATION_FANOUT_FACTOR = decl ''s3mer_replication_fanout_factor'' [''operation'']
     (Histogram [100, 200, 500, 1000, 2000, 5000, 10000])"

definition BACKEND_STATUS :: metric_decl where
  "BACKEND_STATUS = decl ''s3mer_backend_status'' [''backend_name''] Gauge"

definition BACKEND_REQUEST_DURATION_SECONDS :: metric_decl where
  "BACKEND_REQUEST_DURATION_SECONDS = decl ''s3mer_backend_request_duration_seconds'' [''backend_name'', ''operation'', ''status'']
     (Histogram [1, 5, 10, 25, 50, 100, 250, 500, 1000, \<infinity>])"

definition ACTIVE_STREAM_READERS :: metric_decl where
  "ACTIVE_STREAM_READERS = decl ''s3mer_active_stream_readers'' [] Gauge"

definition REPLICATION_CONSUMER_OUTCOMES_TOTAL :: metric_decl where
  "REPLICATION_CONSUMER_OUTCOMES_TOTAL = decl ''s3mer_replication_consumer_outcomes_total''
     [''operation'', ''target_backend'', ''outcome''] Counter"

definition REPLICATION_RETRIES_TOTAL :: metric_decl where
  "REPLICATION_RETRIES_TOTAL = decl ''s3mer_replication_retries_total'' [''operation'', ''target_backend''] Counter"

definition REPLICATION_PARTITION_PAUSED_TOTAL :: metric_decl where
  "REPLICATION_PARTITION_PAUSED_TOTAL = decl ''s3mer_replication_partition_paused_total'' [''topic'', ''partition''] Counter"

definition REPLICATION_PARTITION_RESUMED_TOTAL :: metric_decl where
  "REPLICATION_PARTITION_RESUMED_TOTAL = decl ''s3mer_replication_partition_resumed_total'' [''topic'', ''partition''] Counter"

definition REPLICATION_CONSUMER_CONCURRENCY :: metric_decl where
  "REPLICATION_CONSUMER_CONCURRENCY = decl ''s3mer_replication_consumer_concurrency'' [] Gauge"

definition REPLICATION_PAUSED_PARTITIONS :: metric_decl where
  "REPLICATION_PAUSED_PARTITIONS = decl ''s3mer_replication_paused_partitions'' [''topic'', ''partition''] Gauge"

definition REPLICATION_BACKGROUND_RETRIES_IN_FLIGHT :: metric_decl where
  "REPLICATION_BACKGROUND_RETRIES_IN_FLIGHT = decl ''s3mer_replication_background_retries_in_flight'' [''mode''] Gauge"

definition REPLICATION_DLQ_TOTAL :: metric_decl where
  "REPLICATION_DLQ_TOTAL = decl ''s3mer_replication_dlq_total'' [''reason''] Counter"

definition BACKEND_CIRCUIT_STATE :: metric_decl where
  "BACKEND_CIRCUIT_STATE = decl ''s3mer_backend_circuit_state'' [''backend_name'', ''state''] Gauge"

lemmas metric_decls = HTTP_REQUESTS_TOTAL_def HTTP_REQUEST_DURATION_SECONDS_def DATA_TRANSFER_BYTES_TOTAL_def
  REPLICATION_TASKS_TOTAL_def REPLICATION_FANOUT_FACTOR_def BACKEND_STATUS_def BACKEND_REQUEST_DURATION_SECONDS_def
  ACTIVE_STREAM_READERS_def REPLICATION_CONSUMER_OUTCOMES_TOTAL_def REPLICATION_RETRIES_TOTAL_def
  REPLICATION_PARTITION_PAUSED_TOTAL_def REPLICATION_PARTITION_RESUMED_TOTAL_def REPLICATION_CONSUMER_CONCURRENCY_def
  REPLICATION_PAUSED_PARTITIONS_def REPLICATION_BACKGROUND_RETRIES_IN_FLIGHT_def REPLICATION_DLQ_TOTAL_def BACKEND_CIRCUIT_STATE_def

section \<open>The methods of the trackers\<close>

type_synonym labels = "(string \<times> string) list"

text \<open>A call on a labelled metric: \<open>inc\<close>, \<open>dec\<close>, \<open>set\<close> or \<open>observe\<close>, with its amount.\<close>

datatype metric_call =
    Inc metric_decl labels int
  | Dec metric_decl labels int
  | SetTo metric_decl labels int
  | Observe metric_decl labels int

fun prometheus_calls :: "metric \<Rightarrow> metric_call list" where
  "prometheus_calls (record_request mth op status duration) =
     [Inc HTTP_REQUESTS_TOTAL [(''method'', mth), (''operation'', op), (''status'', py_str status)] 1,
      Observe HTTP_REQUEST_DURATION_SECONDS [(''method'', mth), (''operation'', op)] (int duration)]"
| "prometheus_calls (record_data_transfer direction op n) =
     [Inc DATA_TRANSFER_BYTES_TOTAL [(''direction'', direction), (''operation'', op)] (int n)]"
| "prometheus_calls (record_replication_task op target) =
     [Inc REPLICATION_TASKS_TOTAL [(''operation'', op), (''target_backend'', target)] 1]"
| "prometheus_calls (record_replication_fanout op n) =
     [Observe REPLICATION_FANOUT_FACTOR [(''operation'', op)] (int n)]"
| "prometheus_calls (record_backend_status backend is_up) =
     [SetTo BACKEND_STATUS [(''backend_name'', backend)] (if is_up then 1 else 0)]"
| "prometheus_calls (record_backend_request backend op status duration) =
     [Observe BACKEND_REQUEST_DURATION_SECONDS [(''backend_name'', backend), (''operation'', op), (''status'', status)] (int duration)]"
| "prometheus_calls (record_active_stream_readers delta) =
     (if delta > 0 then [Inc ACTIVE_STREAM_READERS [] delta]
      else if delta < 0 then [Dec ACTIVE_STREAM_READERS [] \<bar>delta\<bar>] else [])"
| "prometheus_calls (record_replication_consumer_outcome op target outcome) =
     [Inc REPLICATION_CONSUMER_OUTCOMES_TOTAL [(''operation'', op), (''target_backend'', target), (''outcome'', outcome)] 1]"
| "prometheus_calls (record_replication_retry op target) =
     [Inc REPLICATION_RETRIES_TOTAL [(''operation'', op), (''target_backend'', target)] 1]"
| "prometheus_calls (record_replication_partition_paused topic prt) =
     [Inc REPLICATION_PARTITION_PAUSED_TOTAL [(''topic'', topic), (''partition'', py_str prt)] 1]"
| "prometheus_calls (record_replication_partition_resumed topic prt) =
     [Inc REPLICATION_PARTITION_RESUMED_TOTAL [(''topic'', topic), (''partition'', py_str prt)] 1]"
| "prometheus_calls (set_replication_consumer_concurrency n) = [SetTo REPLICATION_CONSUMER_CONCURRENCY [] n]"
| "prometheus_calls (set_replication_paused_partition topic prt paused) =
     [SetTo REPLICATION_PAUSED_PARTITIONS [(''topic'', topic), (''partition'', py_str prt)] (if paused then 1 else 0)]"
| "prometheus_calls (set_replication_background_retries_in_flight mode n) =
     [SetTo REPLICATION_BACKGROUND_RETRIES_IN_FLIGHT [(''mode'', mode)] n]"
| "prometheus_calls (record_replication_dlq reason) = [Inc REPLICATION_DLQ_TOTAL [(''reason'', reason)] 1]"
| "prometheus_calls (set_backend_circuit_state backend state) =
     map (\<lambda>label. SetTo BACKEND_CIRCUIT_STATE [(''backend_name'', backend), (''state'', label)] (if label = state then 1 else 0))
       [''closed'', ''half_open'', ''open'']"

fun null_calls :: "metric \<Rightarrow> metric_call list" where
  "null_calls m = []"

text \<open>\<open>get_tracker\<close>: one tracker for the process, created at the first call; \<open>new\<close> is the new object.\<close>

definition get_tracker :: "'t \<Rightarrow> 't option \<Rightarrow> 't \<times> 't option" where
  "get_tracker new global_tracker = (case global_tracker of None \<Rightarrow> (new, Some new) | Some t \<Rightarrow> (t, Some t))"

lemma get_tracker_same: "get_tracker new' (snd (get_tracker new g)) = get_tracker new g"
  by (simp add: get_tracker_def split: option.split)

text \<open>Every call names the labels of its metric, in their order, so the library accepts it; no counter goes down.\<close>

fun accepted_call :: "metric_call \<Rightarrow> bool" where
  "accepted_call (Inc d ls n) \<longleftrightarrow> map fst ls = label_names d \<and> metric_kind d \<in> {Counter, Gauge} \<and> 0 \<le> n"
| "accepted_call (Dec d ls n) \<longleftrightarrow> map fst ls = label_names d \<and> metric_kind d = Gauge"
| "accepted_call (SetTo d ls n) \<longleftrightarrow> map fst ls = label_names d \<and> metric_kind d = Gauge"
| "accepted_call (Observe d ls n) \<longleftrightarrow> map fst ls = label_names d \<and> (\<exists>bs. metric_kind d = Histogram bs)"

lemma calls_accepted: "list_all accepted_call (prometheus_calls m)"
  by (cases m) (simp_all add: metric_decls)

section \<open>The library\<close>

record 'm prometheus =
  p_inc :: "metric_decl \<Rightarrow> labels \<Rightarrow> int \<Rightarrow> 'm \<Rightarrow> 'm"
  p_dec :: "metric_decl \<Rightarrow> labels \<Rightarrow> int \<Rightarrow> 'm \<Rightarrow> 'm"
  p_set :: "metric_decl \<Rightarrow> labels \<Rightarrow> int \<Rightarrow> 'm \<Rightarrow> 'm"
  p_observe :: "metric_decl \<Rightarrow> labels \<Rightarrow> int \<Rightarrow> 'm \<Rightarrow> 'm"
  p_value :: "metric_decl \<Rightarrow> labels \<Rightarrow> 'm \<Rightarrow> int"

fun run_call :: "'m prometheus \<Rightarrow> metric_call \<Rightarrow> 'm \<Rightarrow> 'm" where
  "run_call P (Inc d ls n) m = p_inc P d ls n m"
| "run_call P (Dec d ls n) m = p_dec P d ls n m"
| "run_call P (SetTo d ls n) m = p_set P d ls n m"
| "run_call P (Observe d ls n) m = p_observe P d ls n m"

definition track :: "'m prometheus \<Rightarrow> metric list \<Rightarrow> 'm \<Rightarrow> 'm" where
  "track P ms m = fold (run_call P) (concat (map prometheus_calls ms)) m"

lemma track_Nil [simp]: "track P [] m = m"
  by (simp add: track_def)

lemma track_append: "track P (ms @ ns) m = track P ns (track P ms m)"
  by (simp add: track_def)

text \<open>The state gauges of a backend: one for each state, all zero but the one of the given state.\<close>

definition shows_state :: "'m prometheus \<Rightarrow> string \<Rightarrow> CircuitState \<Rightarrow> 'm \<Rightarrow> bool" where
  "shows_state P backend st m \<longleftrightarrow>
     (\<forall>s. p_value P BACKEND_CIRCUIT_STATE [(''backend_name'', backend), (''state'', circuit_value s)] m = (if s = st then 1 else 0))"

locale prometheus_client =
  fixes P :: "'m prometheus"
  assumes value_inc: "p_value P d ls (p_inc P d' ls' n m) = (if d' = d \<and> ls' = ls then p_value P d ls m + n else p_value P d ls m)"
    and value_dec: "p_value P d ls (p_dec P d' ls' n m) = (if d' = d \<and> ls' = ls then p_value P d ls m - n else p_value P d ls m)"
    and value_set: "p_value P d ls (p_set P d' ls' n m) = (if d' = d \<and> ls' = ls then n else p_value P d ls m)"
    and value_observe: "p_value P d ls (p_observe P d' ls' n m) = p_value P d ls m \<or> (\<exists>bs. metric_kind d = Histogram bs)"
begin

lemma shows_reported: "shows_state P (cb_backend_name b) (cb_state b) (track P (record_state b) m)"
  unfolding shows_state_def
proof
  fix s show "p_value P BACKEND_CIRCUIT_STATE [(''backend_name'', cb_backend_name b), (''state'', circuit_value s)] (track P (record_state b) m) =
      (if s = cb_state b then 1 else 0)"
    by (cases s; cases "cb_state b") (simp_all add: track_def record_state_def value_set)
qed

text \<open>Every method of the breaker leaves the gauges right: it reports whenever it changes the state.\<close>

lemma shows_success: "shows_state P (cb_backend_name b) (cb_state (fst (record_success b))) (track P (snd (record_success b)) m)"
  using shows_reported [of "b\<lparr>failure_count := 0, cb_state := CLOSED, opened_at := None\<rparr>"]
  by (simp add: record_success_def Let_def)

lemma shows_failure:
  assumes "shows_state P (cb_backend_name b) (cb_state b) m"
  shows "shows_state P (cb_backend_name b) (cb_state (fst (record_failure now b))) (track P (snd (record_failure now b)) m)"
  using assms shows_reported [of "b\<lparr>failure_count := failure_count b + 1, cb_state := OPEN, opened_at := Some now\<rparr>"]
  by (auto simp: record_failure_def open_breaker_def Let_def)

lemma shows_allow:
  assumes "shows_state P (cb_backend_name b) (cb_state b) m"
  shows "shows_state P (cb_backend_name b) (cb_state (fst (snd (allow_request now b)))) (track P (snd (snd (allow_request now b))) m)"
  using assms shows_reported [of "b\<lparr>cb_state := HALF_OPEN\<rparr>"]
  by (auto simp: allow_request_def get_state_def Let_def split: option.splits)

end

section \<open>A breaker and its gauges\<close>

text \<open>A history of calls of a breaker's methods, with the metrics they report.\<close>

fun reported_step :: "int \<times> breaker_event \<Rightarrow> BackendCircuitBreaker \<times> metric list \<Rightarrow> BackendCircuitBreaker \<times> metric list" where
  "reported_step (now, Success) (b, ms) = (case record_success b of (b, new) \<Rightarrow> (b, ms @ new))"
| "reported_step (now, Failure) (b, ms) = (case record_failure now b of (b, new) \<Rightarrow> (b, ms @ new))"
| "reported_step (now, Query) (b, ms) = (case allow_request now b of (_, b, new) \<Rightarrow> (b, ms @ new))"

definition reported_run :: "(int \<times> breaker_event) list \<Rightarrow> BackendCircuitBreaker \<Rightarrow> BackendCircuitBreaker \<times> metric list" where
  "reported_run es b = fold reported_step es (b, [])"

context prometheus_client
begin

lemma shows_step:
  assumes "shows_state P (cb_backend_name b) (cb_state b) (track P ms m)" and "reported_step e (b, ms) = (b', ms')"
  shows "cb_backend_name b' = cb_backend_name b \<and> shows_state P (cb_backend_name b') (cb_state b') (track P ms' m)"
proof -
  obtain now k where e: "e = (now, k)" by force
  show ?thesis
  proof (cases k)
    case Success
    obtain b1 new where s: "record_success b = (b1, new)" by force
    then have "b' = b1" "ms' = ms @ new" using assms(2) by (simp_all add: e Success)
    then show ?thesis
      using shows_success [of b "track P ms m", unfolded s] breaker_static_success(3) [of b, unfolded s] by (simp add: track_append)
  next
    case Failure
    obtain b1 new where s: "record_failure now b = (b1, new)" by force
    then have "b' = b1" "ms' = ms @ new" using assms(2) by (simp_all add: e Failure)
    then show ?thesis
      using shows_failure [OF assms(1), of now, unfolded s] breaker_static_failure(3) [of now b, unfolded s] by (simp add: track_append)
  next
    case Query
    obtain ok b1 new where s: "allow_request now b = (ok, b1, new)" by (metis prod_cases3)
    then have "b' = b1" "ms' = ms @ new" using assms(2) by (simp_all add: e Query)
    then show ?thesis
      using shows_allow [OF assms(1), of now, unfolded s] breaker_static_allow(3) [of now b, unfolded s] by (simp add: track_append)
  qed
qed

lemma shows_run:
  assumes "shows_state P (cb_backend_name b) (cb_state b) (track P ms m)" and "fold reported_step es (b, ms) = (b', ms')"
  shows "cb_backend_name b' = cb_backend_name b \<and> shows_state P (cb_backend_name b') (cb_state b') (track P ms' m)"
  using assms
proof (induction es arbitrary: b ms)
  case (Cons e es)
  obtain b1 ms1 where s: "reported_step e (b, ms) = (b1, ms1)" by force
  note step = shows_step [OF Cons.prems(1) s]
  have "fold reported_step es (b1, ms1) = (b', ms')" using Cons.prems(2) s by simp
  with Cons.IH [of b1 ms1] step show ?case by auto
qed simp

end

text \<open>The library as a dictionary of series.\<close>

type_synonym series = "((metric_decl \<times> labels) \<times> int) list"

definition series_value :: "metric_decl \<Rightarrow> labels \<Rightarrow> series \<Rightarrow> int" where
  "series_value d ls m = (case map_of m (d, ls) of None \<Rightarrow> 0 | Some v \<Rightarrow> v)"

definition dict_prometheus :: "series prometheus" where
  "dict_prometheus = \<lparr>p_inc = (\<lambda>d ls n m. AList.update (d, ls) (series_value d ls m + n) m),
     p_dec = (\<lambda>d ls n m. AList.update (d, ls) (series_value d ls m - n) m),
     p_set = (\<lambda>d ls n m. AList.update (d, ls) n m), p_observe = (\<lambda>d ls n m. m), p_value = series_value\<rparr>"

interpretation dict_prometheus: prometheus_client dict_prometheus
  by unfold_locales (auto simp: dict_prometheus_def series_value_def update_conv)

text \<open>
  The circuit gauges show the breaker.  Over any metrics library whose gauges hold what was last set,
  once the three state gauges of a backend show the state of its breaker, they show it after every
  further history of results and queries, at any times: exactly one of them is 1, the one of the current state.  A
  success brings the gauges to that point from whatever they held before.
\<close>

theorem circuit_gauges_show_the_breaker:
  assumes "prometheus_client P" and "reported_run es b = (b', ms)"
    and "shows_state P (cb_backend_name b) (cb_state b) m \<or> (\<exists>now es'. es = (now, Success) # es')"
  shows "cb_backend_name b' = cb_backend_name b \<and> shows_state P (cb_backend_name b) (cb_state b') (track P ms m)"
proof (cases "shows_state P (cb_backend_name b) (cb_state b) m")
  case True
  moreover have "fold reported_step es (b, []) = (b', ms)" using assms(2) by (simp add: reported_run_def)
  ultimately show ?thesis using prometheus_client.shows_run [OF assms(1), of b "[]" m es b' ms] by auto
next
  case False
  then obtain now es' where es: "es = (now, Success) # es'" using assms(3) by blast
  obtain b1 ms1 where s: "record_success b = (b1, ms1)" by force
  have "cb_backend_name b1 = cb_backend_name b" "shows_state P (cb_backend_name b) (cb_state b1) (track P ms1 m)"
    using prometheus_client.shows_success [OF assms(1), of b m, unfolded s] breaker_static_success(3) [of b, unfolded s] by simp_all
  moreover have "fold reported_step es' (b1, ms1) = (b', ms)"
    using assms(2) es s by (simp add: reported_run_def)
  ultimately show ?thesis using prometheus_client.shows_run [OF assms(1), of b1 ms1 m es' b' ms] by auto
qed

theorem circuit_gauges_show_the_breaker_witness:
  "\<exists>b' ms. reported_run [(0, Success), (1, Failure), (2, Failure)] (new_breaker ''a'' 2 30) = (b', ms) \<and> cb_state b' = OPEN \<and>
     series_value BACKEND_CIRCUIT_STATE [(''backend_name'', ''a''), (''state'', ''open'')] (track dict_prometheus ms []) = 1 \<and>
     series_value BACKEND_CIRCUIT_STATE [(''backend_name'', ''a''), (''state'', ''closed'')] (track dict_prometheus ms []) = 0"
proof -
  obtain b' ms where r: "reported_run [(0, Success), (1, Failure), (2, Failure)] (new_breaker ''a'' 2 30) = (b', ms)" by force
  have n: "cb_backend_name (new_breaker ''a'' 2 30) = ''a''" by (simp add: new_breaker_def)
  have o: "cb_state (fst (reported_run [(0, Success), (1, Failure), (2, Failure)] (new_breaker ''a'' 2 30))) = OPEN" by code_simp
  from circuit_gauges_show_the_breaker [OF dict_prometheus.prometheus_client_axioms r, of "[]"] n
  have "shows_state dict_prometheus ''a'' (cb_state b') (track dict_prometheus ms [])" by simp
  then have "\<forall>s. series_value BACKEND_CIRCUIT_STATE [(''backend_name'', ''a''), (''state'', circuit_value s)] (track dict_prometheus ms []) =
      (if s = OPEN then 1 else 0)" using o r by (simp add: shows_state_def dict_prometheus_def)
  from this [THEN spec, of OPEN] this [THEN spec, of CLOSED] show ?thesis using o r by auto
qed

end
