(* ===== verification/Running_Breakers.thy ===== *)
theory Running_Breakers
  imports Deployment Breaker_History State_Relation Prometheus
begin

text \<open>
  The circuit breakers of a started proxy.  The contract \<open>state_relation\<close> holds for \<open>evolving\<close> on the states of the
  configured proxy, so every request and every step of the prober extends the history of each breaker.  In any state that the
  proxy reaches, its breakers therefore decide by the results of the calls made so far, and the gauges show them.
\<close>

section \<open>Requests extend the histories\<close>

interpretation worlds: state_relation "\<lambda>x y. evolving (snd x) (snd y)"
  by unfold_locales (auto intro: evolving_trans)

lemma run_strategy_evolving:
  assumes "run_strategy R E sched pool str op ps b rp x = (r, y)"
  shows "evolving (snd x) (snd y)"
proof -
  obtain st w where x: "x = (st, w)" by force
  obtain st' w' where y: "y = (st', w')" by force
  have "evolving w w'"
  proof (cases str)
    case (WritePrimaryReplication mode topic cfg)
    then show ?thesis using assms x y by (auto intro: primary_run_evolving split: prod.splits)
  next
    case (SimpleMultiSync cfg)
    then show ?thesis using assms x y by (auto intro: simple_run_evolving split: prod.splits)
  next
    case (QuorumReplication mode topic cfg)
    then show ?thesis using assms x y by (auto intro: quorum_run_evolving split: prod.splits)
  next
    case (DistributedMultiSync mode topic cfg)
    then show ?thesis using assms x y by (auto intro: distributed_evolving)
  qed
  then show ?thesis by (simp add: x y)
qed

lemma configured_dispatcher_keeps:
  assumes "dispatcher (http_handler_of R E sched X s pool) = Some d"
  shows "dispatcher_keeps (\<lambda>x y. evolving (snd x) (snd y)) d"
proof -
  have "evolving (snd x) (snd (snd (app_read E pool op ps x)))" for x and op ps
    using read_run_evolving by (auto simp: app_read_def split: prod.split)
  moreover have "evolving (snd x) (snd (snd (app_uuid E x)))" for x
    using draw_uuid_evolving by (auto simp: app_uuid_def split: prod.split)
  moreover have "evolving (snd x) (snd (snd (run_strategy R E sched pool str op ps b rp x)))" for x str op ps b rp
    by (rule run_strategy_evolving) (rule prod.collapse [symmetric])
  ultimately show ?thesis using assms by (auto simp: http_handler_of_def dispatcher_keeps_def keeps_def)
qed

lemma app_http_evolving:
  assumes "app_http R E sched X sc q app = Some (exc, evs, ms, app')"
  shows "evolving (app_world app) (app_world app')"
proof -
  let ?H = "http_handler_of R E sched X (app_settings app) (app_pool app)"
  obtain h where h: "http_call ?H sc \<lparr>incoming = q, sent = [], front_metrics = [], proxy = (app_store app, app_world app)\<rparr> = Some (exc, h)"
    "app_world app' = snd (proxy h)"
    using assms by (auto simp: app_http_def split: option.splits)
  have "keeps (\<lambda>x y. evolving (snd x) (snd y)) (lib_uuid ?H)"
    using draw_uuid_evolving by (auto simp: keeps_def http_handler_of_def app_uuid_def split: prod.split)
  moreover have "\<forall>d. dispatcher ?H = Some d \<longrightarrow> dispatcher_keeps (\<lambda>x y. evolving (snd x) (snd y)) d"
    using configured_dispatcher_keeps by blast
  ultimately show ?thesis using worlds.http_call_keeps [OF _ _ h(1)] h(2) by simp
qed

section \<open>Starting\<close>

lemma on_ext_evolving: "on_ext f w = (e, w') \<Longrightarrow> evolving w w'"
  by (auto simp: on_ext_def intro: evolving_frame split: prod.splits)

lemma each_client_evolving:
  assumes "\<And>c w e c' w'. f c w = (e, c', w') \<Longrightarrow> evolving w w'"
  shows "each_client f cs w = (e, cs', w') \<Longrightarrow> evolving w w'"
proof (induction cs arbitrary: w cs')
  case (Cons c cs)
  obtain x c1 v where s: "f c w = (x, c1, v)" by (metis prod_cases3)
  show ?case
  proof (cases x)
    case None
    obtain y cs1 v1 where r: "each_client f cs v = (y, cs1, v1)" by (metis prod_cases3)
    then have "w' = v1" "e = y" using Cons.prems s None by simp_all
    then show ?thesis using evolving_trans [OF assms [OF s]] Cons.IH r by blast
  qed (use Cons.prems s assms [OF s] in auto)
qed simp

lemma start_client_evolving: "start_client L c w = (e, c', w') \<Longrightarrow> evolving w w'"
  using on_ext_evolving by (auto simp: start_client_def split: BackendType.splits prod.splits option.splits)

lemma startup_evolving:
  assumes "startup L (new_app s server rl w) = (None, app)"
  shows "evolving (new_pool_world s w) (app_world app)"
  using assms
proof (rule startup_steps)
  fix app0 app1 app2
  assume a: "logging_step L (new_app s server rl w) = (None, app0)" "start_multipart_session_store L app0 = (None, app1)"
    "pool_start_step L app1 = (None, app2)" "broker_step (lib_broker_start L) app2 = (None, app)"
  have "evolving (new_pool_world s w) (app_world app0)"
    using a(1) by (auto simp: logging_step_def new_app_def intro: evolving_frame split: prod.splits)
  also have "app_world app0 = app_world app1"
    using a(2) by (auto simp: start_multipart_session_store_def split: MultipartSessionStore.splits if_splits option.splits)
  finally have e1: "evolving (new_pool_world s w) (app_world app1)" .
  have e2: "evolving (app_world app1) (app_world app2)"
    using a(3) each_client_evolving [OF start_client_evolving] by (auto simp: pool_start_step_def Let_def split: prod.splits if_splits)
  have e3: "evolving (app_world app2) (app_world app)"
    using a(4) on_ext_evolving by (auto simp: broker_step_def split: prod.splits)
  show ?thesis using evolving_trans [OF evolving_trans [OF e1 e2] e3] .
qed

lemma running_evolving: "running L R E sched X s server app \<Longrightarrow> \<exists>w. evolving (new_pool_world s w) (app_world app)"
proof (induction rule: running.induct)
  case (started rl w app)
  from startup_evolving [OF this] show ?case by blast
next
  case (request app sc q exc evs ms app')
  then show ?case using app_http_evolving evolving_trans by blast
next
  case (probed app p w)
  then obtain v where "evolving (new_pool_world s v) (app_world app)" by blast
  from evolving_trans [OF this prober_step_evolving [OF probed(2)]] show ?case by auto
next
  case (waited app d)
  then obtain v where v: "evolving (new_pool_world s v) (app_world app)" by blast
  have "evolving (app_world app) ((app_world app)\<lparr>clock := clock (app_world app) + d\<rparr>)"
    using waited(2) by (intro evolving_frame) simp_all
  from evolving_trans [OF v this] show ?case by auto
qed

section \<open>Reports and gauges\<close>

fun metrics_of :: "event list \<Rightarrow> metric list" where
  "metrics_of [] = []"
| "metrics_of (Metric m # es) = m # metrics_of es"
| "metrics_of (e # es) = metrics_of es"

fun circuit_reports :: "metric list \<Rightarrow> (string \<times> string) list" where
  "circuit_reports [] = []"
| "circuit_reports (set_backend_circuit_state n s # ms) = (n, s) # circuit_reports ms"
| "circuit_reports (m # ms) = circuit_reports ms"

lemma circuit_reports_append [simp]: "circuit_reports (xs @ ys) = circuit_reports xs @ circuit_reports ys"
  by (induction xs rule: circuit_reports.induct) simp_all

lemma last_report_reports: "last_report n es = map_of (rev (circuit_reports (metrics_of es))) n"
proof (induction es)
  case (Cons e es)
  show ?case
  proof (cases e)
    case (Metric m)
    then show ?thesis using Cons by (cases m) (auto simp: map_add_def split: option.split)
  qed (use Cons in \<open>auto split: option.split\<close>)
qed simp

lemma circuit_value_inj [simp]: "circuit_value a = circuit_value b \<longleftrightarrow> a = b"
  by (cases a; cases b) simp_all

context prometheus_client
begin

lemma shows_other:
  assumes "shows_state P n st m" and "circuit_reports [x] = [] \<or> (\<exists>k s. x = set_backend_circuit_state k s \<and> k \<noteq> n)"
  shows "shows_state P n st (track P [x] m)"
proof -
  have "metric_kind BACKEND_CIRCUIT_STATE \<noteq> Histogram bs" for bs by (simp add: metric_decls)
  then have o: "p_value P BACKEND_CIRCUIT_STATE ls (p_observe P d ls' k m') = p_value P BACKEND_CIRCUIT_STATE ls m'" for ls d ls' k m'
    using value_observe [of BACKEND_CIRCUIT_STATE ls d ls' k m'] by auto
  have "p_value P BACKEND_CIRCUIT_STATE [(''backend_name'', n), (''state'', circuit_value s)] (track P [x] m) =
      p_value P BACKEND_CIRCUIT_STATE [(''backend_name'', n), (''state'', circuit_value s)] m" for s
    using assms(2) by (cases x) (auto simp: track_def value_inc value_dec value_set o [unfolded BACKEND_CIRCUIT_STATE_def] metric_decls)
  then show ?thesis using assms(1) by (simp add: shows_state_def)
qed

lemma shows_last_report:
  "map_of (rev (circuit_reports ms)) n = Some (circuit_value st) \<Longrightarrow> shows_state P n st (track P ms m)"
proof (induction ms rule: rev_induct)
  case (snoc x ms)
  show ?case
  proof (cases "circuit_reports [x] = [] \<or> (\<exists>k s. x = set_backend_circuit_state k s \<and> k \<noteq> n)")
    case True
    then have "map_of (rev (circuit_reports ms)) n = Some (circuit_value st)" using snoc.prems by auto
    from shows_other [OF snoc.IH [OF this] True] show ?thesis by (simp add: track_append)
  next
    case False
    then have "x = set_backend_circuit_state n (circuit_value st)" using snoc.prems by (cases x) auto
    then show ?thesis
      using shows_reported [of "(new_breaker n 0 0)\<lparr>cb_state := st\<rparr>"] by (simp add: track_append record_state_def new_breaker_def)
  qed
qed simp

end

section \<open>The breakers of a started proxy\<close>

text \<open>The results of the calls of one backend, in order, and those in a history of its breaker.\<close>

definition results_of :: "string \<Rightarrow> call list \<Rightarrow> bool list" where
  "results_of n cs = map (\<lambda>(m, op, d, r). \<not> isl r) (filter (\<lambda>(m, op, d, r). m = n) cs)"

definition recorded :: "(int \<times> breaker_event) list \<Rightarrow> bool list" where
  "recorded hs = map (\<lambda>(t, k). k = Success) (filter (\<lambda>(t, k). k \<noteq> Query) hs)"

lemma results_recorded:
  assumes "call_outcomes cs = outcomes hs"
  shows "results_of n cs = recorded (of_backend n hs)"
proof -
  have "results_of n cs = map snd (filter (\<lambda>x. fst x = n) (call_outcomes cs))"
    by (induction cs) (auto simp: results_of_def)
  moreover have "recorded (of_backend n hs) = map snd (filter (\<lambda>x. fst x = n) (outcomes hs))"
    by (induction hs) (auto simp: recorded_def)
  ultimately show ?thesis using assms by simp
qed

lemma sorted_of_backend: "sorted (a # times hs @ [z]) \<Longrightarrow> sorted (map fst (of_backend n hs) @ [z])"
proof -
  assume s: "sorted (a # times hs @ [z])"
  have "map fst (of_backend n hs) = map (fst \<circ> snd) (filter (\<lambda>x. fst x = n) hs)" by (simp add: of_backend_def)
  then show ?thesis using s by (auto simp: times_def sorted_append sorted_filter)
qed


text \<open>
  C6. The circuit breakers of a running proxy.  In every state that a started proxy reaches by requests, probes and the passing of time,
  every configured backend has a breaker, and it decides by the calls alone: the results of all calls of the
  backend since the start, taken in their order at times that do not decrease, and the queries in between, are its history, and it
  refuses the backend at any later time exactly when that history ends in at least \<open>failure_threshold\<close> failures and
  the cooldown since the last of them is not over.  Over any metrics library whose gauges hold what was last set,
  and whatever other metrics are recorded in between, the gauges of the backend show the state of
  its breaker as soon as a state has been reported; before, the breaker is closed.
\<close>

theorem running_breakers_decide_by_results:
  assumes "running L R E sched X s server app" and "valid_settings s" and "cb_enabled (st_circuit_breaker s)"
    and "n \<in> fst ` set (st_backends s)" and "prometheus_client P"
  shows "\<exists>before es hs b. trace (app_world app) = before @ es \<and> breakers (app_world app) n = Some b \<and>
    recorded hs = results_of n (calls_of es) \<and> sorted (map fst hs @ [clock (app_world app)]) \<and>
    (\<forall>now \<ge> clock (app_world app). fst (allow_request now b) \<longleftrightarrow>
       \<not> refuse_spec (cb_failure_threshold (st_circuit_breaker s)) (cb_open_duration (st_circuit_breaker s)) (trailing_failures hs []) now) \<and>
    (case last_report n es of
       None \<Rightarrow> cb_state b = CLOSED
     | Some _ \<Rightarrow> \<forall>m ms. circuit_reports ms = circuit_reports (metrics_of es) \<longrightarrow> shows_state P n (cb_state b) (track P ms m))"
proof -
  let ?cb = "st_circuit_breaker s"
  let ?fresh = "new_breaker n (cb_failure_threshold ?cb) (cb_open_duration ?cb)"
  obtain w where w: "evolving (new_pool_world s w) (app_world app)" using running_evolving [OF assms(1)] by blast
  have "named (new_pool_world s w)" by (auto simp: named_def new_pool_world_def new_breakers_def new_breaker_def split: if_splits)
  with w obtain gs where "evolves gs (new_pool_world s w) (app_world app)" by (auto simp: evolving_def)
  then obtain es where e: "trace (app_world app) = trace (new_pool_world s w) @ es" "call_outcomes (calls_of es) = outcomes gs"
    "sorted (clock (new_pool_world s w) # times gs @ [clock (app_world app)])"
    "\<And>n. breakers (app_world app) n = map_option (breaker_run (of_backend n gs)) (breakers (new_pool_world s w) n)"
    "\<And>n b. breakers (new_pool_world s w) n = Some b \<Longrightarrow> reported n es b (breaker_run (of_backend n gs) b)"
    unfolding evolves_def by blast
  let ?hs = "of_backend n gs" let ?b = "breaker_run ?hs ?fresh"
  have b0: "breakers (new_pool_world s w) n = Some ?fresh"
    using assms(3,4) by (force simp: new_pool_world_def new_breakers_def pool_configs_def has_key_def map_of_eq_None_iff image_iff)
  have sorted: "sorted (map fst ?hs @ [now])" if "clock (app_world app) \<le> now" for now
    using sorted_of_backend [OF e(3), of n] that by (fastforce simp: sorted_append)
  have "fst (allow_request now ?b) \<longleftrightarrow> \<not> refuse_spec (cb_failure_threshold ?cb) (cb_open_duration ?cb) (trailing_failures ?hs []) now"
    if "clock (app_world app) \<le> now" for now
  proof -
    have "1 \<le> cb_failure_threshold ?cb" using assms(2) by (simp add: valid_settings_def)
    from breaker_rep_refuses [OF fresh_breaker_rep [OF this sorted [OF that]]] show ?thesis by (simp add: new_breaker_def)
  qed
  moreover have "case last_report n es of None \<Rightarrow> cb_state ?b = CLOSED
     | Some _ \<Rightarrow> \<forall>m ms. circuit_reports ms = circuit_reports (metrics_of es) \<longrightarrow> shows_state P n (cb_state ?b) (track P ms m)"
  proof (cases "last_report n es")
    case None
    then show ?thesis using e(5) [OF b0] by (simp add: reported_def new_breaker_def)
  next
    case (Some st)
    then have "map_of (rev (circuit_reports (metrics_of es))) n = Some (circuit_value (cb_state ?b))"
      using e(5) [OF b0] last_report_reports [of n es] by (simp add: reported_def)
    then show ?thesis using Some prometheus_client.shows_last_report [OF assms(5)] by simp
  qed
  ultimately show ?thesis
    using e(1) e(4) [of n] b0 results_recorded [OF e(2), of n] sorted [of "clock (app_world app)"]
    by (intro exI [of _ "trace (new_pool_world s w)"] exI [of _ es] exI [of _ ?hs] exI [of _ ?b]) simp
qed


text \<open>After an upload that the sample deployment has answered.\<close>

theorem running_breakers_decide_by_results_witness:
  "\<exists>evs ms app'. app_http dict_redis sample_services reverse_sched sample_http_lib sample_scope sample_messages sample_app = Some (None, evs, ms, app') \<and>
     (\<exists>before es hs b. trace (app_world app') = before @ es \<and> breakers (app_world app') ''s1'' = Some b \<and>
        recorded hs = results_of ''s1'' (calls_of es) \<and> (\<forall>now \<ge> clock (app_world app'). fst (allow_request now b) \<longleftrightarrow> \<not> refuse_spec 3 30 (trailing_failures hs []) now))"
proof -
  obtain evs ms app' where a: "app_http dict_redis sample_services reverse_sched sample_http_lib sample_scope sample_messages sample_app =
      Some (None, evs, ms, app')" using sample_app_answer by (auto split: prod.splits)
  note r = running.request [OF sample_app_running this]
  have "st_backends sample_input \<noteq> []" "distinct (map fst (st_backends sample_input))" by (simp_all add: sample_input_def)
  note v = make_settings_valid [OF sample_settings_accepted this]
  have s: "cb_enabled (st_circuit_breaker sample_settings)" "''s1'' \<in> fst ` set (st_backends sample_settings)"
    "cb_failure_threshold (st_circuit_breaker sample_settings) = 3" "cb_open_duration (st_circuit_breaker sample_settings) = 30"
    by (simp_all add: sample_settings_def sample_input_def default_settings_def default_breaker_def)
  from running_breakers_decide_by_results [OF r v s(1,2) dict_prometheus.prometheus_client_axioms] a show ?thesis
    unfolding s(3,4) by blast
qed

end
