(* ===== verification/Lifecycle_Roundtrip.thy ===== *)
theory Lifecycle_Roundtrip
  imports Xml_Documents
begin

text \<open>
  Writing a lifecycle configuration and reading it back (\<open>src/s3mer/common/xml.py\<close>).

  A document is a tree of elements and text, and \<open>render\<close> its text; \<open>element_of\<close> is the element tree
  that \<open>ET.fromstring\<close> gives for that text when no text in it has markup characters.  \<open>lc_rule\<close> has
  the rules of a configuration, as far as the proxy handles them, by their parts.
\<close>

section \<open>Documents\<close>

datatype xml_item = Txt string | El string "xml_item list"

fun render :: "xml_item \<Rightarrow> string" where
  "render (Txt s) = s"
| "render (El t is) = ''<'' @ t @ ''>'' @ concat (map render is) @ ''</'' @ t @ ''>''"

fun lead_text :: "xml_item list \<Rightarrow> string" where
  "lead_text (Txt s # is) = s @ lead_text is"
| "lead_text is = []"

fun element_of :: "xml_item \<Rightarrow> xml_node list" where
  "element_of (Txt s) = []"
| "element_of (El t is) = [XNode t (if lead_text is = [] then None else Some (lead_text is)) (concat (map element_of is))]"

abbreviation elements :: "xml_item list \<Rightarrow> xml_node list" where
  "elements is \<equiv> concat (map element_of is)"

fun clean :: "xml_item \<Rightarrow> bool" where
  "clean (Txt s) = (CHR ''<'' \<notin> set s \<and> CHR ''&'' \<notin> set s)"
| "clean (El t is) = list_all clean is"

section \<open>Rules by their parts\<close>

datatype lc_filter = FNone | FPrefix string | FTag string string | FAnd "string option" "(string \<times> string) list"

record lc_dates =
  lc_days :: "int option"
  lc_date :: "string option"

record lc_expiration = lc_dates +
  lc_marker :: "bool option"

record lc_transition = lc_dates +
  lc_class :: "string option"

record lc_rule =
  lc_id :: "string option"
  lc_prefix :: "string option"
  lc_status :: "string option"
  lc_filter_of :: "lc_filter option"
  lc_exp :: "lc_expiration option"
  lc_trans :: "lc_transition list"
  lc_nve :: "int option option"
  lc_nvt :: "(int option \<times> string option) list"
  lc_abort :: "int option option"

text \<open>A part that is there, as an entry of a dictionary and as a line of the document.\<close>

definition entry :: "string \<Rightarrow> ('a \<Rightarrow> pyval) \<Rightarrow> 'a option \<Rightarrow> pdict" where
  "entry k f v = (case v of None \<Rightarrow> [] | Some x \<Rightarrow> [(k, f x)])"

definition leaf :: "nat \<Rightarrow> string \<Rightarrow> ('a \<Rightarrow> string) \<Rightarrow> 'a option \<Rightarrow> xml_item list" where
  "leaf n k f v = (case v of None \<Rightarrow> [] | Some x \<Rightarrow> [Txt (replicate n CHR '' ''), El k [Txt (f x)], Txt newline])"

definition lc_group :: "string \<Rightarrow> xml_item list \<Rightarrow> xml_item list" where
  "lc_group t is = [Txt (replicate 4 CHR '' ''), El t (Txt newline # is @ [Txt (replicate 4 CHR '' '')]), Txt newline]"

definition opt_group :: "string \<Rightarrow> ('a \<Rightarrow> xml_item list) \<Rightarrow> 'a option \<Rightarrow> xml_item list" where
  "opt_group t f v = (case v of None \<Rightarrow> [] | Some x \<Rightarrow> lc_group t (f x))"

definition str_leaf :: "nat \<Rightarrow> string \<Rightarrow> string option \<Rightarrow> xml_item list" where
  "str_leaf n k v = leaf n k (\<lambda>s. s) v"

definition list_entry :: "string \<Rightarrow> ('a \<Rightarrow> pyval) \<Rightarrow> 'a list \<Rightarrow> pdict" where
  "list_entry k f xs = (if xs = [] then [] else [(k, VList (map f xs))])"

definition tag_val :: "string \<times> string \<Rightarrow> pyval" where
  "tag_val t = VDict [(''Key'', VStr (fst t)), (''Value'', VStr (snd t))]"

definition tag_item :: "string \<times> string \<Rightarrow> xml_item" where
  "tag_item t = El ''Tag'' [El ''Key'' [Txt (fst t)], El ''Value'' [Txt (snd t)]]"

fun filter_val :: "lc_filter \<Rightarrow> pyval" where
  "filter_val FNone = VDict []"
| "filter_val (FPrefix p) = VDict [(''Prefix'', VStr p)]"
| "filter_val (FTag k v) = VDict [(''Tag'', tag_val (k, v))]"
| "filter_val (FAnd p ts) = VDict [(''And'', VDict (entry ''Prefix'' VStr p @ list_entry ''Tags'' tag_val ts))]"

fun filter_items :: "lc_filter \<Rightarrow> xml_item list" where
  "filter_items FNone = []"
| "filter_items (FPrefix p) = str_leaf 6 ''Prefix'' (Some p)"
| "filter_items (FTag k v) = [Txt (replicate 6 CHR '' ''), tag_item (k, v), Txt newline]"
| "filter_items (FAnd p ts) = [Txt (replicate 6 CHR '' ''),
     El ''And'' (Txt newline # str_leaf 8 ''Prefix'' p @ concat (map (\<lambda>t. [Txt (replicate 8 CHR '' ''), tag_item t, Txt newline]) ts) @
       [Txt (replicate 6 CHR '' '')]), Txt newline]"

definition exp_val :: "lc_expiration \<Rightarrow> pyval" where
  "exp_val e = VDict (entry ''Days'' VInt (lc_days e) @ entry ''Date'' VStr (lc_date e) @
     entry ''ExpiredObjectDeleteMarker'' VBool (lc_marker e))"

definition exp_items :: "lc_expiration \<Rightarrow> xml_item list" where
  "exp_items e = leaf 6 ''Days'' py_str (lc_days e) @ str_leaf 6 ''Date'' (lc_date e) @
     leaf 6 ''ExpiredObjectDeleteMarker'' (\<lambda>b. if b then ''true'' else ''false'') (lc_marker e)"

definition trans_val :: "lc_transition \<Rightarrow> pyval" where
  "trans_val x = VDict (entry ''Days'' VInt (lc_days x) @ entry ''Date'' VStr (lc_date x) @ entry ''StorageClass'' VStr (lc_class x))"

definition trans_items :: "lc_transition \<Rightarrow> xml_item list" where
  "trans_items x = leaf 6 ''Days'' py_str (lc_days x) @ str_leaf 6 ''Date'' (lc_date x) @ str_leaf 6 ''StorageClass'' (lc_class x)"

definition nvt_val :: "int option \<times> string option \<Rightarrow> pyval" where
  "nvt_val x = VDict (entry ''NoncurrentDays'' VInt (fst x) @ entry ''StorageClass'' VStr (snd x))"

definition nvt_items :: "int option \<times> string option \<Rightarrow> xml_item list" where
  "nvt_items x = leaf 6 ''NoncurrentDays'' py_str (fst x) @ str_leaf 6 ''StorageClass'' (snd x)"

definition days_val :: "string \<Rightarrow> int option \<Rightarrow> pyval" where
  "days_val k d = VDict (entry k VInt d)"

definition rule_head :: "lc_rule \<Rightarrow> pdict" where
  "rule_head r = entry ''ID'' VStr (lc_id r) @ entry ''Prefix'' VStr (lc_prefix r) @ entry ''Status'' VStr (lc_status r) @
     entry ''Filter'' filter_val (lc_filter_of r) @ entry ''Expiration'' exp_val (lc_exp r) @
     entry ''NoncurrentVersionExpiration'' (days_val ''NoncurrentDays'') (lc_nve r) @
     entry ''AbortIncompleteMultipartUpload'' (days_val ''DaysAfterInitiation'') (lc_abort r)"

definition rule_val :: "lc_rule \<Rightarrow> pyval" where
  "rule_val r = VDict (rule_head r @ list_entry ''Transitions'' trans_val (lc_trans r) @
     list_entry ''NoncurrentVersionTransitions'' nvt_val (lc_nvt r))"

definition rule_items :: "lc_rule \<Rightarrow> xml_item list" where
  "rule_items r = str_leaf 4 ''ID'' (lc_id r) @ str_leaf 4 ''Prefix'' (lc_prefix r) @ str_leaf 4 ''Status'' (lc_status r) @
     opt_group ''Filter'' filter_items (lc_filter_of r) @ opt_group ''Expiration'' exp_items (lc_exp r) @
     concat (map (\<lambda>x. lc_group ''Transition'' (trans_items x)) (lc_trans r)) @
     opt_group ''NoncurrentVersionExpiration'' (leaf 6 ''NoncurrentDays'' py_str) (lc_nve r) @
     concat (map (\<lambda>x. lc_group ''NoncurrentVersionTransition'' (nvt_items x)) (lc_nvt r)) @
     opt_group ''AbortIncompleteMultipartUpload'' (leaf 6 ''DaysAfterInitiation'' py_str) (lc_abort r)"

definition lifecycle_config :: "lc_rule list \<Rightarrow> pdict" where
  "lifecycle_config rs = [(''Rules'', VList (map rule_val rs))]"

definition lifecycle_doc :: "lc_rule list \<Rightarrow> xml_item" where
  "lifecycle_doc rs = El ''LifecycleConfiguration'' (Txt newline # concat (map (\<lambda>r.
     [Txt ''  '', El ''Rule'' (Txt newline # rule_items r @ [Txt ''  '']), Txt newline]) rs))"

section \<open>The builder renders the document\<close>

definition lines_text :: "string list \<Rightarrow> string" where
  "lines_text ls = concat (map (\<lambda>l. l @ newline) ls)"

lemma lines_text_simps [simp]:
  "lines_text [] = []" "lines_text (l # ls) = l @ newline @ lines_text ls" "lines_text (ls @ ms) = lines_text ls @ lines_text ms"
  "lines_text (concat lss) = concat (map lines_text lss)"
  by (induction lss) (simp_all add: lines_text_def)

lemma join_lines: "join newline (ls @ [l]) = lines_text ls @ l"
proof (induction ls)
  case (Cons x ls)
  then show ?case by (cases ls) simp_all
qed simp

abbreviation render_all :: "xml_item list \<Rightarrow> string" where
  "render_all is \<equiv> concat (map render is)"

declare map_of_append [simp del]

lemma map_of_entry [simp]:
  "map_of (entry k f v @ d) k' = (if k' = k then (case v of None \<Rightarrow> map_of d k' | Some x \<Rightarrow> Some (f x)) else map_of d k')"
  "map_of (list_entry k g xs @ d) k' = (if k' = k \<and> xs \<noteq> [] then Some (VList (map g xs)) else map_of d k')"
  by (auto simp: entry_def list_entry_def split: option.split)

lemmas map_of_entry_last [simp] = map_of_entry [where d = "[]", simplified]

lemma optional_line_text:
  assumes "map_of d k = map_option f v" and "\<And>x. g (f x) = h x"
  shows "lines_text (optional_line n k g d) = render_all (leaf n k h v)"
  using assms by (cases v) (simp_all add: optional_line_def leaf_def indent_def elem_text_def)

lemma lower_bool: "lower (py_format (VBool b)) = (if b then ''true'' else ''false'')"
  by (cases b; simp only: if_True if_False; code_simp)

lemma str_line_text: "map_of d k = map_option VStr v \<Longrightarrow> lines_text (optional_line n k py_format d) = render_all (str_leaf n k v)"
  unfolding str_leaf_def by (erule optional_line_text) (rule py_format.simps)

lemma int_line_text: "map_of d k = map_option VInt v \<Longrightarrow> lines_text (optional_line n k py_format d) = render_all (leaf n k py_str v)"
  by (erule optional_line_text) (rule py_format.simps)

lemma group_text: "lines_text (group_lines t ls) = render_all (lc_group t is)" if "lines_text ls = render_all is"
  using that by (simp add: group_lines_def lc_group_def indent_def)

lemma optional_group_text:
  assumes "map_of d k = map_option h v" and "\<And>x. lines_text (f (as_dict (h x))) = render_all (g x)"
  shows "lines_text (optional_group k f d) = render_all (opt_group k g v)"
  using assms by (cases v) (simp_all add: optional_group_def opt_group_def group_text [of "f (as_dict (h _))"])

lemma concat_text:
  assumes "\<And>x. lines_text (a x) = render_all (b x)"
  shows "lines_text (concat (map a xs)) = render_all (concat (map b xs))"
  using assms by (induction xs) simp_all

lemma list_groups_text:
  assumes "get_default d k (VList []) = VList (map h xs)" and "\<And>x. lines_text (f (as_dict (h x))) = render_all (g x)"
  shows "lines_text (list_groups k t f d) = render_all (concat (map (\<lambda>x. lc_group t (g x)) xs))"
  using concat_text [of "\<lambda>x. group_lines t (f (as_dict (h x)))" "\<lambda>x. lc_group t (g x)" xs] group_text [OF assms(2)]
  by (simp add: list_groups_def assms(1) comp_def)

lemma tag_xml_text: "tag_xml (as_dict (tag_val t)) = Inr (render (tag_item t))"
  by (simp add: tag_xml_def tag_val_def tag_item_def elem_text_def)

lemma filter_lines_text:
  "\<exists>ls. filter_lines (as_dict (filter_val f)) = Inr ls \<and> lines_text ls = render_all (lc_group ''Filter'' (filter_items f))"
proof (cases f)
  case (FAnd p ts)
  have tags: "emap (\<lambda>t. tag_xml (as_dict t)) (map tag_val ts) = Inr (map (\<lambda>t. render (tag_item t)) ts)"
    by (induction ts) (simp_all add: tag_xml_text)
  have lines: "lines_text (map (indent 8) (map (\<lambda>t. render (tag_item t)) ts)) =
      render_all (concat (map (\<lambda>t. [Txt (replicate 8 CHR '' ''), tag_item t, Txt newline]) ts))"
    by (induction ts) (simp_all add: indent_def)
  let ?d = "entry ''Prefix'' VStr p @ list_entry ''Tags'' tag_val ts"
  have "get_default ?d ''Tags'' (VList []) = VList (map tag_val ts)"
    by (cases ts) (simp_all add: get_default_def)
  moreover have "lines_text (optional_line 8 ''Prefix'' py_format ?d) = render_all (str_leaf 8 ''Prefix'' p)"
    by (rule str_line_text) (simp_all split: option.split)
  ultimately show ?thesis using FAnd tags lines
    by (simp add: filter_lines_def has_key_def lc_group_def group_lines_def indent_def)
qed (simp_all add: filter_lines_def has_key_def lc_group_def group_lines_def tag_xml_text str_leaf_def leaf_def optional_line_def indent_def elem_text_def)

lemma rule_lines_text:
  "\<exists>ls. rule_lines (as_dict (rule_val r)) = Inr ls \<and>
     lines_text ls = render_all [Txt ''  '', El ''Rule'' (Txt newline # rule_items r @ [Txt ''  '']), Txt newline]"
proof -
  let ?d = "rule_head r @ list_entry ''Transitions'' trans_val (lc_trans r) @ list_entry ''NoncurrentVersionTransitions'' nvt_val (lc_nvt r)"
  have d: "map_of ?d ''ID'' = map_option VStr (lc_id r)" "map_of ?d ''Prefix'' = map_option VStr (lc_prefix r)"
    "map_of ?d ''Status'' = map_option VStr (lc_status r)" "map_of ?d ''Filter'' = map_option filter_val (lc_filter_of r)"
    "map_of ?d ''Expiration'' = map_option exp_val (lc_exp r)"
    "map_of ?d ''NoncurrentVersionExpiration'' = map_option (days_val ''NoncurrentDays'') (lc_nve r)"
    "map_of ?d ''AbortIncompleteMultipartUpload'' = map_option (days_val ''DaysAfterInitiation'') (lc_abort r)"
    "get_default ?d ''Transitions'' (VList []) = VList (map trans_val (lc_trans r))"
    "get_default ?d ''NoncurrentVersionTransitions'' (VList []) = VList (map nvt_val (lc_nvt r))"
    by (simp_all add: rule_head_def get_default_def split: option.split)
  obtain fls where f: "(case map_option filter_val (lc_filter_of r) of None \<Rightarrow> Inr [] | Some f \<Rightarrow> filter_lines (as_dict f)) = Inr fls"
    "lines_text fls = render_all (opt_group ''Filter'' filter_items (lc_filter_of r))"
    using filter_lines_text by (cases "lc_filter_of r") (fastforce simp: opt_group_def)+
  have exp: "lines_text (expiration_lines (as_dict (exp_val e))) = render_all (exp_items e)" for e
  proof -
    let ?d = "entry ''Days'' VInt (lc_days e) @ entry ''Date'' VStr (lc_date e) @ entry ''ExpiredObjectDeleteMarker'' VBool (lc_marker e)"
    have "map_of ?d ''Days'' = map_option VInt (lc_days e)" "map_of ?d ''Date'' = map_option VStr (lc_date e)"
      "map_of ?d ''ExpiredObjectDeleteMarker'' = map_option VBool (lc_marker e)" by (simp_all split: option.split)
    note int_line_text [OF this(1)] str_line_text [OF this(2)] optional_line_text [OF this(3), of "\<lambda>v. lower (py_format v)", OF lower_bool]
    then show ?thesis by (simp add: expiration_lines_def exp_val_def exp_items_def)
  qed
  have tr: "lines_text (transition_lines (as_dict (trans_val x))) = render_all (trans_items x)" for x
  proof -
    let ?d = "entry ''Days'' VInt (lc_days x) @ entry ''Date'' VStr (lc_date x) @ entry ''StorageClass'' VStr (lc_class x)"
    have "map_of ?d ''Days'' = map_option VInt (lc_days x)" "map_of ?d ''Date'' = map_option VStr (lc_date x)"
      "map_of ?d ''StorageClass'' = map_option VStr (lc_class x)" by (simp_all split: option.split)
    note int_line_text [OF this(1)] str_line_text [OF this(2)] str_line_text [OF this(3)]
    then show ?thesis by (simp add: transition_lines_def trans_val_def trans_items_def)
  qed
  have nv: "lines_text (nvt_lines (as_dict (nvt_val x))) = render_all (nvt_items x)" for x
  proof -
    let ?d = "entry ''NoncurrentDays'' VInt (fst x) @ entry ''StorageClass'' VStr (snd x)"
    have "map_of ?d ''NoncurrentDays'' = map_option VInt (fst x)" "map_of ?d ''StorageClass'' = map_option VStr (snd x)"
      by (simp_all split: option.split)
    note int_line_text [OF this(1)] str_line_text [OF this(2)]
    then show ?thesis by (simp add: nvt_lines_def nvt_val_def nvt_items_def)
  qed
  have dy: "lines_text (optional_line 6 k py_format (as_dict (days_val k x))) = render_all (leaf 6 k py_str x)" for k x
    by (rule int_line_text) (simp_all add: days_val_def split: option.split)
  note leafs = str_line_text [OF d(1)] str_line_text [OF d(2)] str_line_text [OF d(3)]
  note groups = optional_group_text [OF d(5), where f = expiration_lines and g = exp_items, OF exp]
    optional_group_text [OF d(6), where f = "optional_line 6 ''NoncurrentDays'' py_format" and g = "leaf 6 ''NoncurrentDays'' py_str", OF dy]
    optional_group_text [OF d(7), where f = "optional_line 6 ''DaysAfterInitiation'' py_format" and g = "leaf 6 ''DaysAfterInitiation'' py_str", OF dy]
    list_groups_text [OF d(8), where f = transition_lines and g = trans_items, OF tr]
    list_groups_text [OF d(9), where f = nvt_lines and g = nvt_items, OF nv]
  have "rule_lines ?d = Inr ([''  <Rule>''] @ optional_line 4 ''ID'' py_format ?d @ optional_line 4 ''Prefix'' py_format ?d @
         optional_line 4 ''Status'' py_format ?d @ fls @
         optional_group ''Expiration'' expiration_lines ?d @
         list_groups ''Transitions'' ''Transition'' transition_lines ?d @
         optional_group ''NoncurrentVersionExpiration'' (optional_line 6 ''NoncurrentDays'' py_format) ?d @
         list_groups ''NoncurrentVersionTransitions'' ''NoncurrentVersionTransition'' nvt_lines ?d @
         optional_group ''AbortIncompleteMultipartUpload'' (optional_line 6 ''DaysAfterInitiation'' py_format) ?d @
         [''  </Rule>''])" (is "_ = Inr ?ls")
    unfolding rule_lines_def d(4) f(1) by simp
  moreover have "lines_text ?ls = render_all [Txt ''  '', El ''Rule'' (Txt newline # rule_items r @ [Txt ''  '']), Txt newline]"
    by (simp only: lines_text_simps leafs groups f(2)) (simp add: rule_items_def)
  ultimately show ?thesis by (simp add: rule_val_def)
qed

lemma lifecycle_rendered:
  "get_bucket_lifecycle_xml (lifecycle_config rs) = Inr (xml_declaration @ newline @ render (lifecycle_doc rs))"
proof -
  let ?it = "\<lambda>r. [Txt ''  '', El ''Rule'' (Txt newline # rule_items r @ [Txt ''  '']), Txt newline]"
  have "\<exists>lss. emap (\<lambda>r. rule_lines (as_dict r)) (map rule_val rs) = Inr lss \<and> lines_text (concat lss) = render_all (concat (map ?it rs))"
  proof (induction rs)
    case (Cons r rs)
    then show ?case using rule_lines_text [of r] by fastforce
  qed simp
  then obtain lss where l: "emap (\<lambda>r. rule_lines (as_dict r)) (map rule_val rs) = Inr lss"
    "lines_text (concat lss) = render_all (concat (map ?it rs))" by blast
  have "join newline ([xml_declaration, ''<LifecycleConfiguration>''] @ concat lss @ [''</LifecycleConfiguration>'']) =
      lines_text ([xml_declaration, ''<LifecycleConfiguration>''] @ concat lss) @ ''</LifecycleConfiguration>''"
    using join_lines [of "[xml_declaration, ''<LifecycleConfiguration>''] @ concat lss"] by simp
  then show ?thesis
    by (simp only: get_bucket_lifecycle_xml_def lifecycle_config_def get_default_def map_of.simps fst_conv snd_conv if_True
        option.case as_list.simps l ebind.simps fun_upd_same lines_text_simps(1-3) l(2) lifecycle_doc_def)
      simp
qed

section \<open>The parser reads the document back\<close>

lemma clean_tag_id [simp]: "CHR ''}'' \<notin> set t \<Longrightarrow> clean_tag t = t"
proof -
  assume "CHR ''}'' \<notin> set t"
  then have "takeWhile (\<lambda>c. c \<noteq> CHR ''}'') (rev t) = rev t" by (intro takeWhile_eq_all_conv [THEN iffD2]) auto
  then show ?thesis unfolding clean_tag_def by (simp only: rev_rev_ident)
qed

lemma newline_nonempty [simp]: "newline \<noteq> []"
  by (simp add: newline_def)

definition leaf_node :: "string \<Rightarrow> string \<Rightarrow> xml_node" where
  "leaf_node k s = XNode k (if s = [] then None else Some s) []"

lemma leaf_node_simps [simp]:
  "xtag (leaf_node k s) = k" "xchildren (leaf_node k s) = []" "text_or_empty (leaf_node k s) = s"
  "s \<noteq> [] \<Longrightarrow> text_val (leaf_node k s) = VStr s"
  by (auto simp: leaf_node_def text_or_empty_def text_val_def)

lemma int_leaf [simp]: "int_text (leaf_node k (py_str i)) = Inr (VInt i)"
proof -
  have "py_str i \<noteq> []" using py_int_py_str [of i] by (auto simp: py_int_def py_strip_def)
  then show ?thesis by (simp add: int_text_def)
qed

lemma elements_leaf: "elements (leaf n k f v) = (case v of None \<Rightarrow> [] | Some x \<Rightarrow> [leaf_node k (f x)])"
  by (simp add: leaf_def leaf_node_def split: option.split)

lemma elements_group: "\<exists>txt. elements (lc_group t is) = [XNode t txt (elements is)]"
  by (simp add: lc_group_def)

declare image_Un [simp]

lemma keys_entry [simp]: "k' \<in> fst ` set (entry k f v) \<longleftrightarrow> k' = k \<and> v \<noteq> None"
  by (auto simp: entry_def split: option.splits)

lemma collect_leaf:
  assumes "\<And>x. v = Some x \<Longrightarrow> f k (leaf_node k (g x)) = Inr (Some (k, h x))" and "CHR ''}'' \<notin> set k" and "k \<notin> fst ` set d"
  shows "collect_children f (elements (leaf n k g v) @ ns) d = collect_children f ns (d @ entry k h v)"
  using assms by (cases v) (simp_all add: elements_leaf entry_def update_new)

abbreviation nonempty :: "string option \<Rightarrow> bool" where
  "nonempty v \<equiv> v \<noteq> Some []"

lemma collect_str:
  assumes "\<And>n. f k n = Inr (Some (k, text_val n))" and "nonempty v" and "CHR ''}'' \<notin> set k" and "k \<notin> fst ` set d"
  shows "collect_children f (elements (str_leaf n k v) @ ns) d = collect_children f ns (d @ entry k VStr v)"
  unfolding str_leaf_def by (rule collect_leaf) (use assms in auto)

lemma collect_int:
  assumes "\<And>n. f k n = int_entry k n" and "CHR ''}'' \<notin> set k" and "k \<notin> fst ` set d"
  shows "collect_children f (elements (leaf n k py_str v) @ ns) d = collect_children f ns (d @ entry k VInt v)"
  by (rule collect_leaf) (use assms in \<open>auto simp: int_entry_def\<close>)

lemmas collect_str_last = collect_str [where ns = "[]", simplified]
lemmas collect_int_last = collect_int [where ns = "[]", simplified]

lemma parse_exp:
  assumes "nonempty (lc_date e)"
  shows "sub_dict expiration_entry (XNode t x (elements (exp_items e))) = Inr (exp_val e)"
proof -
  have b: "(lower (if b then ''true'' else ''false'') = ''true'') = b" for b
    by (cases b; simp only: if_True if_False; code_simp)
  have m: "collect_children expiration_entry (elements (leaf 6 ''ExpiredObjectDeleteMarker'' (\<lambda>b. if b then ''true'' else ''false'') (lc_marker e)) @ []) d =
      collect_children expiration_entry [] (d @ entry ''ExpiredObjectDeleteMarker'' VBool (lc_marker e))"
    if "''ExpiredObjectDeleteMarker'' \<notin> fst ` set d" for d
    by (rule collect_leaf) (use that in \<open>simp_all add: expiration_entry_def b\<close>)
  show ?thesis using assms
    by (simp add: sub_dict_def exp_items_def exp_val_def collect_int collect_str m [simplified] expiration_entry_def)
qed

lemma parse_trans:
  assumes "nonempty (lc_date e)" and "nonempty (lc_class e)"
  shows "sub_dict transition_entry (XNode t x (elements (trans_items e))) = Inr (trans_val e)"
  using assms
  by (simp add: sub_dict_def trans_items_def trans_val_def collect_int collect_str collect_str_last transition_entry_def)

lemma parse_nvt:
  assumes "nonempty (snd e)"
  shows "sub_dict nvt_entry (XNode t x (elements (nvt_items e))) = Inr (nvt_val e)"
  using assms by (simp add: sub_dict_def nvt_items_def nvt_val_def collect_int collect_str_last nvt_entry_def)

lemma parse_nve: "sub_dict nve_entry (XNode t x (elements (leaf 6 ''NoncurrentDays'' py_str d))) = Inr (days_val ''NoncurrentDays'' d)"
  by (simp add: sub_dict_def days_val_def collect_int_last nve_entry_def)

lemma parse_abort: "sub_dict abort_entry (XNode t x (elements (leaf 6 ''DaysAfterInitiation'' py_str d))) = Inr (days_val ''DaysAfterInitiation'' d)"
  by (simp add: sub_dict_def days_val_def collect_int_last abort_entry_def)

lemma parse_tag_item: "element_of (tag_item t) = [XNode ''Tag'' None [leaf_node ''Key'' (fst t), leaf_node ''Value'' (snd t)]]"
  by (simp add: tag_item_def leaf_node_def)

lemma parse_tag_node [simp]: "parse_tag (XNode t x [leaf_node ''Key'' k, leaf_node ''Value'' v]) = tag_val (k, v)"
  by (simp add: parse_tag_def tag_val_def)

lemma parse_and_fold:
  "fold (\<lambda>c (d, ts).
      if clean_tag (xtag c) = ''Prefix'' then (AList.update ''Prefix'' (VStr (text_or_empty c)) d, ts)
      else if clean_tag (xtag c) = ''Tag'' then (d, ts @ [parse_tag c]) else (d, ts))
    (elements (concat (map (\<lambda>t. [Txt s, tag_item t, Txt s']) tags))) (d, acc) = (d, acc @ map tag_val tags)"
  by (induction tags arbitrary: acc) (simp_all add: parse_tag_item)

lemma parse_filter: "sub_dict filter_entry (XNode t x (elements (filter_items f))) = Inr (filter_val f)"
proof (cases f)
  case (FAnd p ts)
  let ?tags = "concat (map (\<lambda>t. [Txt (replicate 8 CHR '' ''), tag_item t, Txt newline]) ts)"
  let ?ch = "elements (str_leaf 8 ''Prefix'' p) @ elements ?tags"
  have "parse_and (XNode ''And'' y ?ch) = VDict (entry ''Prefix'' VStr p @ list_entry ''Tags'' tag_val ts)" for y
    by (cases p) (simp_all add: parse_and_def str_leaf_def elements_leaf parse_and_fold entry_def list_entry_def Let_def)
  then show ?thesis using FAnd by (simp add: sub_dict_def filter_entry_def)
qed (simp_all add: sub_dict_def filter_entry_def str_leaf_def elements_leaf parse_tag_item)

lemma rule_str:
  assumes "k = ''ID'' \<or> k = ''Status''" and "nonempty v" and "k \<notin> fst ` set d"
  shows "parse_rule_children (elements (str_leaf 4 k v) @ ns) (d, ts, nts) = parse_rule_children ns (d @ entry k VStr v, ts, nts)"
  using assms by (cases v) (auto simp: str_leaf_def elements_leaf entry_def update_new)

lemma rule_prefix:
  assumes "''Prefix'' \<notin> fst ` set d"
  shows "parse_rule_children (elements (str_leaf 4 ''Prefix'' v) @ ns) (d, ts, nts) = parse_rule_children ns (d @ entry ''Prefix'' VStr v, ts, nts)"
  using assms by (cases v) (auto simp: str_leaf_def elements_leaf entry_def update_new)

lemma rule_group:
  assumes "\<And>x y. v = Some x \<Longrightarrow> sub_dict f (XNode k y (elements (g x))) = Inr (h x)" and "k \<notin> fst ` set d"
    and "(k, f) \<in> {(''Filter'', filter_entry), (''Expiration'', expiration_entry),
      (''NoncurrentVersionExpiration'', nve_entry), (''AbortIncompleteMultipartUpload'', abort_entry)}"
  shows "parse_rule_children (elements (opt_group k g v) @ ns) (d, ts, nts) = parse_rule_children ns (d @ entry k h v, ts, nts)"
proof (cases v)
  case (Some x)
  obtain y where "elements (lc_group k (g x)) = [XNode k y (elements (g x))]" using elements_group by blast
  then show ?thesis using Some assms by (auto simp: opt_group_def entry_def update_new)
qed (simp add: opt_group_def entry_def)

lemma rule_transitions:
  assumes "\<forall>x \<in> set xs. nonempty (lc_date x) \<and> nonempty (lc_class x)"
  shows "parse_rule_children (elements (concat (map (\<lambda>x. lc_group ''Transition'' (trans_items x)) xs)) @ ns) (d, ts, nts) =
    parse_rule_children ns (d, ts @ map trans_val xs, nts)"
  using assms
proof (induction xs arbitrary: ts)
  case (Cons x xs)
  obtain y where "elements (lc_group ''Transition'' (trans_items x)) = [XNode ''Transition'' y (elements (trans_items x))]"
    using elements_group by blast
  then show ?case using Cons by (simp add: parse_trans)
qed simp

lemma rule_nvts:
  assumes "\<forall>x \<in> set xs. nonempty (snd x)"
  shows "parse_rule_children (elements (concat (map (\<lambda>x. lc_group ''NoncurrentVersionTransition'' (nvt_items x)) xs)) @ ns) (d, ts, nts) =
    parse_rule_children ns (d, ts, nts @ map nvt_val xs)"
  using assms
proof (induction xs arbitrary: nts)
  case (Cons x xs)
  obtain y where "elements (lc_group ''NoncurrentVersionTransition'' (nvt_items x)) = [XNode ''NoncurrentVersionTransition'' y (elements (nvt_items x))]"
    using elements_group by blast
  then show ?case using Cons by (simp add: parse_nvt)
qed simp

text \<open>The texts that must not be empty: an empty element has no text, and is read as \<open>None\<close>.\<close>

definition wf_lc_rule :: "lc_rule \<Rightarrow> bool" where
  "wf_lc_rule r \<longleftrightarrow> nonempty (lc_id r) \<and> nonempty (lc_status r) \<and>
     (case lc_exp r of None \<Rightarrow> True | Some e \<Rightarrow> nonempty (lc_date e)) \<and>
     list_all (\<lambda>x. nonempty (lc_date x) \<and> nonempty (lc_class x)) (lc_trans r) \<and> list_all (\<lambda>x. nonempty (snd x)) (lc_nvt r)"

lemma parse_rule_items:
  assumes "wf_lc_rule r"
  shows "parse_rule (XNode t x (elements (rule_items r))) = Inr (rule_val r)"
proof -
  have wf: "nonempty (lc_id r)" "nonempty (lc_status r)" "\<And>e. lc_exp r = Some e \<Longrightarrow> nonempty (lc_date e)"
    "\<forall>x \<in> set (lc_trans r). nonempty (lc_date x) \<and> nonempty (lc_class x)" "\<forall>x \<in> set (lc_nvt r). nonempty (snd x)"
    using assms by (auto simp: wf_lc_rule_def list_all_iff)
  have "parse_rule_children (elements (rule_items r) @ []) ([], [], []) = Inr (rule_head r, map trans_val (lc_trans r), map nvt_val (lc_nvt r))"
    using wf(1,2)
    by (simp add: rule_items_def rule_head_def rule_str rule_prefix rule_transitions [OF wf(4)] rule_nvts [OF wf(5)]
        rule_group [where f = filter_entry and h = filter_val, OF parse_filter]
        rule_group [where f = expiration_entry and h = exp_val, OF parse_exp [OF wf(3)]]
        rule_group [where f = nve_entry and h = "days_val ''NoncurrentDays''", OF parse_nve]
        rule_group [where f = abort_entry and h = "days_val ''DaysAfterInitiation''" and ns = "[]", OF parse_abort, simplified])
  moreover have "''Transitions'' \<notin> fst ` set (rule_head r)" "''NoncurrentVersionTransitions'' \<notin> fst ` set (rule_head r)"
    by (simp_all add: rule_head_def)
  ultimately show ?thesis
    by (auto simp: parse_rule_def rule_val_def list_entry_def update_new Let_def)
qed

lemma lifecycle_elements:
  assumes "\<forall>r \<in> set rs. wf_lc_rule r"
  shows "emap parse_rule (filter (\<lambda>n. clean_tag (xtag n) = ''Rule'') (elements (concat (map (\<lambda>r.
     [Txt ''  '', El ''Rule'' (Txt newline # rule_items r @ [Txt ''  '']), Txt newline]) rs)))) = Inr (map rule_val rs)"
  using assms by (induction rs) (simp_all add: parse_rule_items)

text \<open>
  C35. A lifecycle configuration survives the trip through its XML document.  For every configuration
  whose texts have no markup character (and whose identifiers, statuses, dates and storage classes are
  not empty), parsing the document that the proxy builds gives the configuration back, for every XML
  parser that reads this document as the element tree it denotes.
\<close>

theorem lifecycle_roundtrip:
  assumes "\<forall>r \<in> set rs. wf_lc_rule r" and "clean (lifecycle_doc rs)"
    and "clean (lifecycle_doc rs) \<Longrightarrow> fromstring (xml_declaration @ newline @ render (lifecycle_doc rs)) = Inr (hd (element_of (lifecycle_doc rs)))"
  shows "ebind (get_bucket_lifecycle_xml (lifecycle_config rs)) (parse_lifecycle_configuration_xml fromstring) = Inr (lifecycle_config rs)"
proof -
  have "xchildren (hd (element_of (lifecycle_doc rs))) = elements (concat (map (\<lambda>r.
     [Txt ''  '', El ''Rule'' (Txt newline # rule_items r @ [Txt ''  '']), Txt newline]) rs))"
    by (simp add: lifecycle_doc_def)
  then show ?thesis
    unfolding lifecycle_rendered ebind.simps parse_lifecycle_configuration_xml_def assms(3) [OF assms(2)]
    by (simp only: lifecycle_elements [OF assms(1)] ebind.simps lifecycle_config_def)
qed

definition sample_rule :: lc_rule where
  "sample_rule = \<lparr>lc_id = Some ''logs'', lc_prefix = None, lc_status = Some ''Enabled'',
     lc_filter_of = Some (FAnd (Some ''logs/'') [(''env'', ''prod''), (''tmp'', [])]),
     lc_exp = Some \<lparr>lc_days = Some 30, lc_date = None, lc_marker = Some True\<rparr>,
     lc_trans = [\<lparr>lc_days = Some 7, lc_date = None, lc_class = Some ''COLD''\<rparr>],
     lc_nve = Some (Some 3), lc_nvt = [(Some 2, Some ''COLD'')], lc_abort = Some (Some 1)\<rparr>"

theorem lifecycle_roundtrip_witness:
  "ebind (get_bucket_lifecycle_xml (lifecycle_config [sample_rule]))
     (parse_lifecycle_configuration_xml (\<lambda>_. Inr (hd (element_of (lifecycle_doc [sample_rule]))))) = Inr (lifecycle_config [sample_rule])"
proof -
  have "\<forall>r \<in> set [sample_rule]. wf_lc_rule r" by (simp add: sample_rule_def wf_lc_rule_def)
  moreover have "clean (lifecycle_doc [sample_rule])" by code_simp
  ultimately show ?thesis by (rule lifecycle_roundtrip) simp
qed

section \<open>Texts are not escaped\<close>

text \<open>
  A listing can be forged by a key.  The listing documents do not escape keys: for any two keys
  there is one key whose listing, as a single object, is the very document that lists the two objects.
\<close>

theorem listing_can_be_forged:
  "\<exists>k. list_objects_v2_xml bucket [(''Contents'', VList [VDict [(''Key'', VStr k)]])] =
     list_objects_v2_xml bucket [(''Contents'', VList [VDict [(''Key'', VStr a)], VDict [(''Key'', VStr b)]])]"
proof (rule exI)
  let ?k = "a @ ''</Key>'' @ newline @ ''  </Contents>'' @ newline @ ''  <Contents>'' @ newline @ ''    <Key>'' @ b"
  show "list_objects_v2_xml bucket [(''Contents'', VList [VDict [(''Key'', VStr ?k)]])] =
     list_objects_v2_xml bucket [(''Contents'', VList [VDict [(''Key'', VStr a)], VDict [(''Key'', VStr b)]])]"
    by (simp add: list_objects_v2_xml_def listing_xml_def get_default_def contents_lines_def item_def optional_line_def
        present_lines_def elem_text_def indent_def numeral_eq_Suc)
qed

end
