(* ===== verification/Settings_Cache.thy ===== *)
theory Settings_Cache
  imports Settings
begin

text \<open>
  The cached accessors of the configuration: \<open>load_settings\<close> and \<open>set_settings_override\<close>
  (\<open>src/s3mer/config/settings.py\<close>), \<open>get_stream_config\<close> and the functions that read it (\<open>src/s3mer/common/streaming.py\<close>).

  The state holds the override and the two \<open>lru_cache\<close>s, which keep results and no exceptions.  \<open>Settings()\<close>, with
  all that Pydantic reads, is the argument \<open>fresh\<close>.
\<close>

record settings_state =
  settings_override :: "Settings option"
  load_cache :: "Settings option"
  stream_cache :: "StreamConfig option"

definition initial_state :: settings_state where
  "initial_state = \<lparr>settings_override = None, load_cache = None, stream_cache = None\<rparr>"

definition set_settings_override :: "Settings option \<Rightarrow> settings_state \<Rightarrow> settings_state" where
  "set_settings_override s st = st\<lparr>settings_override := s, load_cache := None\<rparr>"

definition load_settings :: "pyexc + Settings \<Rightarrow> settings_state \<Rightarrow> (pyexc + Settings) \<times> settings_state" where
  "load_settings fresh st =
     (case load_cache st of
        Some s \<Rightarrow> (Inr s, st)
      | None \<Rightarrow>
          (case settings_override st of
             Some s \<Rightarrow> (Inr s, st\<lparr>load_cache := Some s\<rparr>)
           | None \<Rightarrow> (case fresh of Inl e \<Rightarrow> (Inl e, st) | Inr s \<Rightarrow> (Inr s, st\<lparr>load_cache := Some s\<rparr>))))"

definition get_stream_config :: "pyexc + Settings \<Rightarrow> settings_state \<Rightarrow> StreamConfig \<times> settings_state" where
  "get_stream_config fresh st =
     (case stream_cache st of
        Some c \<Rightarrow> (c, st)
      | None \<Rightarrow>
          (case load_settings fresh st of
             (Inl e, st) \<Rightarrow> (stream_config_defaults, st\<lparr>stream_cache := Some stream_config_defaults\<rparr>)
           | (Inr s, st) \<Rightarrow> (from_settings s, st\<lparr>stream_cache := Some (from_settings s)\<rparr>)))"

definition reset_stream_config_cache :: "settings_state \<Rightarrow> settings_state" where
  "reset_stream_config_cache st = st\<lparr>stream_cache := None\<rparr>"

definition get_chunk_size :: "pyexc + Settings \<Rightarrow> settings_state \<Rightarrow> int \<times> settings_state" where
  "get_chunk_size fresh st = (case get_stream_config fresh st of (c, st) \<Rightarrow> (sc_chunk_size c, st))"

definition get_max_memory_size :: "pyexc + Settings \<Rightarrow> settings_state \<Rightarrow> int \<times> settings_state" where
  "get_max_memory_size fresh st = (case get_stream_config fresh st of (c, st) \<Rightarrow> (sc_max_memory_size c, st))"

definition get_buffer_dir :: "pyexc + Settings \<Rightarrow> settings_state \<Rightarrow> string option \<times> settings_state" where
  "get_buffer_dir fresh st = (case get_stream_config fresh st of (c, st) \<Rightarrow> (sc_buffer_dir c, st))"

lemmas settings_cache_defs = set_settings_override_def load_settings_def get_stream_config_def reset_stream_config_cache_def

text \<open>The settings are loaded once: later calls return the same, whatever the environment has become.\<close>

lemma load_settings_once:
  "load_settings fresh st = (Inr s, st') \<Longrightarrow> load_settings fresh' st' = (Inr s, st')"
  by (auto simp: load_settings_def split: option.splits sum.splits)

text \<open>A failed load is not remembered by \<open>load_settings\<close>, but \<open>get_stream_config\<close> keeps the defaults it fell back to.\<close>

lemma failed_load_retried: "load_settings (Inl e) initial_state = (Inl e, initial_state)"
  by (simp add: load_settings_def initial_state_def)

lemma failed_load_sticks:
  "get_stream_config fresh (snd (get_stream_config (Inl e) initial_state)) =
     (stream_config_defaults, snd (get_stream_config (Inl e) initial_state))"
  by (simp add: settings_cache_defs initial_state_def)

text \<open>An override takes effect at once for the settings; for the stream configuration after \<open>reset_stream_config_cache\<close>.\<close>

lemma override_effective: "fst (load_settings fresh (set_settings_override (Some s) st)) = Inr s"
  by (simp add: settings_cache_defs)

lemma override_reaches_streams:
  "fst (get_stream_config fresh (reset_stream_config_cache (set_settings_override (Some s) st))) = from_settings s"
  by (simp add: settings_cache_defs)

lemma override_needs_reset:
  "stream_cache st = Some c \<Longrightarrow> fst (get_stream_config fresh (set_settings_override (Some s) st)) = c"
  by (simp add: settings_cache_defs)

end
