(* ===== verification/Dlq_Replay.thy ===== *)
theory Dlq_Replay
  imports Dead_Letters
begin

text \<open>
  The operator's script that sends dead letters back to a replication topic (\<open>src/scripts/replay_dlq.py\<close>).

  The consumer is the list of messages it will still deliver, each by the document that \<open>json.loads\<close> makes of
  it (\<open>Inl\<close> when decoding raises).  Awaiting a message when none is left never returns, which is the result \<open>None\<close>.
  \<open>fmt\<close> is how an f-string writes a value.  The producer is the argument \<open>send\<close>: topic, key and document, and the exception if it raises.
\<close>

type_synonym replayed = "(string \<times> string \<times> pyval) list"

text \<open>\<open>f"{original['bucket']}/{original.get('key') or ''}"\<close>.\<close>

definition replay_key :: "(pyval \<Rightarrow> string) \<Rightarrow> pyval \<Rightarrow> pyexc + string" where
  "replay_key fmt original =
     (case original of
        VDict d \<Rightarrow>
          (case map_of d ''bucket'' of
             None \<Rightarrow> Inl (PyKeyError ''bucket'')
           | Some b \<Rightarrow> Inr (fmt b @ ''/'' @ (case map_of d ''key'' of Some k \<Rightarrow> if truthy k then fmt k else [] | None \<Rightarrow> [])))
      | _ \<Rightarrow> Inl (PyTypeError ''original_message''))"

definition original_of :: "pyval \<Rightarrow> pyval option" where
  "original_of payload = (case map_of (as_dict payload) ''original_message'' of None \<Rightarrow> None | Some VNone \<Rightarrow> None | Some v \<Rightarrow> Some v)"

text \<open>The loop: number replayed so far, what has been sent so far; at the end the exception, if any, and both.\<close>

fun replay_loop ::
  "(pyval \<Rightarrow> string) \<Rightarrow> (string \<Rightarrow> string \<Rightarrow> pyval \<Rightarrow> pyexc option) \<Rightarrow> string \<Rightarrow> bool \<Rightarrow> nat \<Rightarrow> (pyexc + pyval) list \<Rightarrow> nat \<Rightarrow> replayed \<Rightarrow>
   (pyexc option \<times> nat \<times> replayed) option" where
  "replay_loop fmt send target dry_run limit [] n out = None"
| "replay_loop fmt send target dry_run limit (msg # msgs) n out =
     (if n \<ge> limit then Some (None, n, out)
      else (case msg of
          Inl e \<Rightarrow> Some (Some e, n, out)
        | Inr payload \<Rightarrow>
            (case original_of payload of
               None \<Rightarrow> replay_loop fmt send target dry_run limit msgs n out
             | Some original \<Rightarrow>
                 (case replay_key fmt original of
                    Inl e \<Rightarrow> Some (Some e, n, out)
                  | Inr key \<Rightarrow>
                      if dry_run then replay_loop fmt send target dry_run limit msgs (n + 1) out
                      else (case send target key original of
                          Some e \<Rightarrow> Some (Some e, n, out)
                        | None \<Rightarrow> replay_loop fmt send target dry_run limit msgs (n + 1) (out @ [(target, key, original)]))))))"

definition replay ::
  "(pyval \<Rightarrow> string) \<Rightarrow> (string \<Rightarrow> string \<Rightarrow> pyval \<Rightarrow> pyexc option) \<Rightarrow> string \<Rightarrow> bool \<Rightarrow> nat \<Rightarrow> (pyexc + pyval) list \<Rightarrow> (pyexc option \<times> nat \<times> replayed) option" where
  "replay fmt send target dry_run limit msgs = replay_loop fmt send target dry_run limit msgs 0 []"

text \<open>What is sent: the original messages in their order, no more than the limit, nothing in a dry run.\<close>

definition originals :: "(pyexc + pyval) list \<Rightarrow> pyval list" where
  "originals msgs = concat (map (\<lambda>m. case m of Inl e \<Rightarrow> [] | Inr p \<Rightarrow> (case original_of p of None \<Rightarrow> [] | Some v \<Rightarrow> [v])) msgs)"

lemma originals_Cons:
  "originals (m # ms) = (case m of Inl e \<Rightarrow> [] | Inr p \<Rightarrow> (case original_of p of None \<Rightarrow> [] | Some v \<Rightarrow> [v])) @ originals ms"
  by (simp add: originals_def)

lemma replay_loop_sends:
  assumes "replay_loop fmt send target dry limit msgs n out = Some (e, n', out')" and "n \<le> limit"
  shows "n' \<le> limit \<and> (\<exists>new. out' = out @ new \<and> (if dry then new = [] else length new = n' - n) \<and> n \<le> n' \<and>
    map (snd \<circ> snd) new = take (length new) (originals msgs) \<and> (\<forall>(t, k, v) \<in> set new. t = target \<and> replay_key fmt v = Inr k))"
  using assms
proof (induction msgs arbitrary: n out)
  case (Cons m msgs)
  show ?case
  proof (cases "n \<ge> limit \<or> (\<exists>e. m = Inl e)")
    case True
    then show ?thesis using Cons.prems by (auto split: if_splits)
  next
    case False
    then obtain p where m: "m = Inr p" and n: "n < limit" by (cases m) auto
    show ?thesis
    proof (cases "original_of p")
      case None
      then show ?thesis using Cons m n by (simp add: originals_Cons)
    next
      case (Some v)
      show ?thesis
      proof (cases "replay_key fmt v")
        case (Inl e')
        then show ?thesis using Cons.prems m n Some by auto
      next
        case (Inr k)
        show ?thesis
        proof (cases dry)
          case True
          then show ?thesis using Cons.IH [of "n + 1" out] Cons.prems m n Some Inr by auto
        next
          case live: False
          show ?thesis
          proof (cases "send target k v")
            case None
            then have "replay_loop fmt send target dry limit msgs (n + 1) (out @ [(target, k, v)]) = Some (e, n', out')"
              using Cons.prems m n Some Inr live by simp
            from Cons.IH [OF this] n live obtain new where new: "n' \<le> limit" "out' = (out @ [(target, k, v)]) @ new" "length new = n' - (n + 1)" "n + 1 \<le> n'"
              "map (snd \<circ> snd) new = take (length new) (originals msgs)" "\<forall>(t, k, v) \<in> set new. t = target \<and> replay_key fmt v = Inr k"
              by fastforce
            have "map (snd \<circ> snd) ((target, k, v) # new) = take (length ((target, k, v) # new)) (originals (m # msgs))"
              using m Some new(5) by (simp add: originals_Cons)
            moreover have "length ((target, k, v) # new) = n' - n" using new(3,4) by simp
            ultimately show ?thesis using new Inr live
              by (intro conjI exI [of _ "(target, k, v) # new"]) (auto simp: comp_def)
          next
            case (Some e')
            then show ?thesis using Cons.prems m n \<open>original_of p = Some v\<close> Inr live by auto
          qed
        qed
      qed
    qed
  qed
qed simp

text \<open>
  The script looks at its limit only when it has received a further message: with exactly as many dead
  letters as the limit, or fewer, it replays them and then waits for ever.
\<close>

theorem replay_waits_for_one_more:
  assumes "length msgs \<le> limit" and "\<forall>m \<in> set msgs. \<exists>p v k. m = Inr p \<and> original_of p = Some v \<and> replay_key fmt v = Inr k"
    and "\<And>k v. send target k v = None"
  shows "replay fmt send target dry limit msgs = None"
proof -
  have "n + length msgs \<le> limit \<Longrightarrow> replay_loop fmt send target dry limit msgs n out = None" for n out
    using assms(2)
  proof (induction msgs arbitrary: n out)
    case (Cons m msgs)
    then obtain p v k where m: "m = Inr p" "original_of p = Some v" "replay_key fmt v = Inr k" by auto
    have "replay_loop fmt send target dry limit msgs (n + 1) out' = None" for out'
      using Cons.IH [of "n + 1" out'] Cons.prems by auto
    then show ?case using m assms(3) Cons.prems(1) by (cases dry) simp_all
  qed simp
  with assms(1) show ?thesis by (simp add: replay_def)
qed

lemma replay_sends:
  assumes "replay fmt send target dry limit msgs = Some (e, n, out)"
  shows "n \<le> limit \<and> map (snd \<circ> snd) out = take (length out) (originals msgs) \<and>
    (if dry then out = [] else length out = n) \<and> (\<forall>(t, k, v) \<in> set out. t = target \<and> replay_key fmt v = Inr k)"
  using replay_loop_sends [OF assms [unfolded replay_def]] by auto

text \<open>
  The key of a replayed message is the one the proxy published it with only when it has an object key: for an
  operation on a bucket the proxy uses the name of the bucket, the script appends a slash.  Such a
  message may go to another partition than the messages it has to be ordered with.
\<close>

text \<open>The fields of the message's JSON that the key is made of.\<close>

definition message_document :: "ReplicationMessage \<Rightarrow> pyval" where
  "message_document m = VDict [(''bucket'', VStr (msg_bucket m)), (''key'', case msg_key m of None \<Rightarrow> VNone | Some k \<Rightarrow> VStr k)]"

theorem replay_key_differs:
  assumes "\<And>t. fmt (VStr t) = t"
  shows "replay_key fmt (message_document m) = Inr (partition_key m) \<longleftrightarrow> truthy_str (msg_key m)"
  using assms by (cases "msg_key m") (auto simp: replay_key_def message_document_def partition_key_def truthy_str_def)

end
