(* ===== verification/Spec2Isabelle.thy ===== *)
theory Spec2Isabelle
  imports End_To_End Running_Breakers Lifecycle_Roundtrip Settings_Cache Dlq_Replay
begin

text \<open>
  A verification development for s3mer, an ASGI proxy in Python that offers the S3 interface over several
  S3 backends and keeps them in step.  File names are relative to \<open>src/src/\<close> unless they start with \<open>src/\<close>.

  \<^bold>\<open>The program.\<close>  A request arrives as ASGI messages.  \<open>s3mer/routing/http_handler.py\<close> gives it a request id,
  has it classified by method, path and query (\<open>classifier.py\<close>), and passes it to the dispatcher (\<open>dispatcher.py\<close>), which
  prepares the body (a stream, a buffer or nothing) and calls the handler of the operation (\<open>handlers/objects.py\<close>,
  \<open>handlers/buckets.py\<close>).  A handler executes a read or a write strategy over the pool of backend clients and makes a
  response of the result.  Reads fall back from the primary to the secondaries.  Writes follow the configured strategy:
  one backend with fallback and replication of the rest through Kafka (\<open>backends/strategies.py\<close>, \<open>kafka/manager.py\<close>), or a
  concurrent fan-out that needs all backends, a quorum, or a quorum with multipart sessions in Valkey
  (\<open>backends/multisync_strategies.py\<close>, \<open>state/\<close>).  Every call of a backend feeds its circuit breaker, which decides whether the
  pool offers that backend (\<open>backends/circuit_breaker.py\<close>, \<open>pool.py\<close>).  A worker process consumes the replication topics,
  copies objects between backends, retries in the background while a partition is paused, and publishes dead letters
  (\<open>kafka/subscribers.py\<close>, \<open>replication_executor.py\<close>, \<open>retry_scheduler.py\<close>, \<open>dlq.py\<close>).  \<open>app.py\<close> builds all this from the settings and runs
  the lifespan of the process.

  \<^bold>\<open>How the code is represented.\<close>  Objects are records, enumerations datatypes, exceptions values of \<open>pyexc\<close>; a computation that can
  raise returns a sum with the exception on the left, a statement that can raise an optional exception.  State is passed explicitly: the
  \<open>world\<close> holds the clock, the breakers, measured latencies, the in-memory backends, the state of outside services, and the trace of
  effects (backend calls with the bytes they could read, Kafka publishes, metrics, sleeps) in the order in which the code performs them.
  Bytes and texts are lists of 8-bit characters, dictionaries association lists in insertion order, integers are unbounded as in Python.
  Waiting for a message that never comes, and a loop that never ends, are the result \<open>None\<close>: no fuel is used anywhere.  The three
  open loops are partial functions (\<open>drain\<close>, \<open>dec_read_all\<close>, \<open>retry_loop\<close>), and that they return is proved by measures.

  \<^bold>\<open>Theories.\<close>
  \<^item> \<open>Prelude\<close>, \<open>Decimal\<close>: dictionaries, slices, sequencing of computations that raise; \<open>str\<close>, \<open>int\<close> and \<open>strip\<close>.
  \<^item> \<open>Operations\<close>, \<open>Errors\<close>: \<open>routing/operations.py\<close>; \<open>common/error_registry.py\<close> and \<open>common/errors.py\<close>, with what each class of exception leads to,
    that no error is reported with a success status, and that escaped text cannot leave its XML element.
  \<^item> \<open>Metrics\<close>, \<open>Circuit_Breaker\<close>, \<open>Prometheus\<close>: the tracker's methods as data; \<open>backends/circuit_breaker.py\<close> as a state machine that refines a
    specification on histories; \<open>common/metrics.py\<close> as calls of the Prometheus client, with gauges that always show the breaker.
  \<^item> \<open>Streaming\<close>, \<open>Chunked_Decoder\<close>: the readers of \<open>common/streaming.py\<close>; each meets the contract \<open>chunk_source\<close>, so a loop over it ends with exactly
    the remaining bytes; replay and fan-out deliver the whole body; the aws-chunked decoder against the grammar of its format.
  \<^item> \<open>World\<close>, \<open>Memory_Backend\<close>, \<open>Backend_Pool\<close>: shared state and outside services; \<open>backends/memory_backend.py\<close>; \<open>backends/client.py\<close>, \<open>pool.py\<close>, with
    the order of candidates.  \<open>Latency_Prober\<close> is the task of \<open>prober.py\<close>, from one await to the next; a backend whose probe failed is read last.
  \<^item> \<open>Replication_Manager\<close>, \<open>Write_Strategies\<close>: \<open>kafka/publisher.py\<close> and \<open>manager.py\<close> behind the contract \<open>replication_scheduler\<close>; \<open>backends/strategies.py\<close>,
    with fallback and with what an acknowledged write guarantees.
  \<^item> \<open>Session_Store\<close>, \<open>Multisync\<close>, \<open>Distributed_Upload\<close>: \<open>state/memory.py\<close> and \<open>valkey_store.py\<close> behind the contract \<open>session_store\<close>;
    \<open>backends/sync_executor.py\<close> and \<open>multisync_strategies.py\<close>.  A fan-out is a sequence of atomic calls in an arbitrary order.
  \<^item> \<open>Replication_Executor\<close>, \<open>Dead_Letters\<close>, \<open>Retry_Scheduler\<close>, \<open>Subscribers\<close>: the worker (\<open>kafka/\<close>).  A message is settled: each target has the object or a
    dead letter; retries end, back off within their bounds and balance their gauge.  \<open>Dlq_Replay\<close> is the script \<open>src/scripts/replay_dlq.py\<close>.
  \<^item> \<open>Classifier\<close>, \<open>Xml_Documents\<close>, \<open>Lifecycle_Roundtrip\<close>, \<open>Handlers\<close>: \<open>routing/classifier.py\<close>; \<open>common/xml.py\<close> with its builders and its parser, which are
    inverse on lifecycle configurations; all handlers and \<open>routing/registry.py\<close>.
  \<^item> \<open>Http_Front\<close>, \<open>Http_Properties\<close>: \<open>routing/dispatcher.py\<close>, \<open>http_handler.py\<close>, \<open>common/responses.py\<close>, \<open>handlers/internal.py\<close>.  Every request is answered by one
    response, carries its id, is recorded once, and gets its whole body to the handler.
  \<^item> \<open>Request_Guarantees\<close>, \<open>Sync_Guarantees\<close>: from the status of a response back to the backends.  The locale \<open>write_access\<close> is the contract between
    handlers and strategies; every strategy is an interpretation.
  \<^item> \<open>Settings\<close>, \<open>Settings_Cache\<close>, \<open>Configured_Strategy\<close>: \<open>config/settings.py\<close> with its validators, \<open>backends/write_factory.py\<close>, \<open>state/factory.py\<close>, the cached
    accessors; the object that the factory builds, whatever its class, as one more interpretation of \<open>write_access\<close>.
  \<^item> \<open>Logging\<close>, \<open>Application\<close>, \<open>Deployment\<close>: \<open>common/logging.py\<close>, \<open>app.py\<close> and \<open>worker/app.py\<close>; the states of a running proxy as an inductive set, whose
    steps are requests, runs of the prober's task and the passing of time; an upload answered with success is stored on as many backends as the
    settings ask for, and how the lifespan of a process ends.
  \<^item> \<open>Breaker_History\<close>, \<open>State_Relation\<close>, \<open>Running_Breakers\<close>: every operation of the program moves the circuit breakers only by their methods, once for each call of a
    backend.  The locale \<open>state_relation\<close> carries such a relation through all handlers and the HTTP front.  So in every state of a running proxy a
    breaker decides by the results of the calls made so far, and the gauges show it.
  \<^item> \<open>End_To_End\<close>: proxy and worker of one deployment: an acknowledged upload is a message on a topic that the worker has subscribed to, and is settled there.

  \<^bold>\<open>Outside code.\<close>  The S3 client, the Kafka producer and consumer, the Redis client, the Prometheus client, the XML and JSON parsers, UTF-8 decoding, \<open>uuid4\<close> and
  the broker are arguments.  What is assumed of them is named: \<open>reads_body\<close> (a call moves the replay reader of a body only by reading it), \<open>foreign_errors\<close>
  (they do not raise the proxy's own exception with a success status), \<open>redis_client\<close>, \<open>prometheus_client\<close>, \<open>fair_sched\<close> (the event loop runs every task once).  Each
  assumption is met by a concrete instance that the witnesses use.  Chunk sizes have to be positive where a body is streamed; the settings do not enforce it,
  and \<open>zero_chunk_size_stores_nothing\<close> shows what follows.

  \<^bold>\<open>Not modelled.\<close>  The calls of the loggers, the rendering of records and the logging context, output only.  \<open>__main__.py\<close> and the constructor call in \<open>kafka/broker.py\<close>, which only call libraries.
  Interleaving of two requests inside a strategy: a request is one step, and only the tasks of a fan-out interleave; the prober
  is interleaved between requests.  Expiry of Valkey keys between operations.  The Kafka header that carries a request id.
  The merging of YAML and environment by Pydantic.  The benchmark client \<open>src/scripts/perf_test.py\<close>.
  The rebalancing of consumer groups by the broker.
\<close>

end
